(* ===== verification/Prelude.thy ===== *)
theory Prelude
  imports Main "HOL-Library.AList" "HOL-Library.Word"
begin

text \<open>
  What every component of the router shares: how a Go run can end (\<open>outcome\<close>), Go maps
  (\<open>gomap\<close>, nil or a list of entries in the order one \<open>range\<close> loop visits them), the
  pointers the managers keep per placement (\<open>store\<close>), readings of the clock, decimal and
  hexadecimal printing, and reachable states of a step relation with the locale that
  turns an inductive invariant into a fact about every reachable state.
\<close>

named_theorems go_simps \<open>unfolding equations of the Go primitives (outcomes, maps, stores)\<close>
named_theorems op_defs \<open>definitions of the program's operations, for proofs that unfold them all\<close>

section \<open>How a run ends\<close>

text \<open>
  A Go function that returns an error returns a value here (a sum or an option in the result);
  \<open>Panic\<close> is kept apart, because it unwinds the stack (deferred calls still run) and, in a
  goroutine that does not recover it, ends the process.
\<close>

datatype panic = Nil_Deref | Bad_Type_Assertion | Close_Closed_Channel | Non_Positive_Ticker
  | Bad_Chan_Size | Bad_Status_Code

datatype 'a outcome = Ret 'a | Panic panic

fun obind :: "'a outcome \<Rightarrow> ('a \<Rightarrow> 'b outcome) \<Rightarrow> 'b outcome" where
  "obind (Ret x) f = f x"
| "obind (Panic p) f = Panic p"

fun omap :: "('a \<Rightarrow> 'b) \<Rightarrow> 'a outcome \<Rightarrow> 'b outcome" where
  "omap f (Ret x) = Ret (f x)"
| "omap f (Panic p) = Panic p"

lemma obind_eq_Ret [simp]: "obind m f = Ret y \<longleftrightarrow> (\<exists>x. m = Ret x \<and> f x = Ret y)"
  by (cases m) auto

lemma omap_eq_Ret [simp]: "omap f m = Ret y \<longleftrightarrow> (\<exists>x. m = Ret x \<and> y = f x)"
  by (cases m) auto

lemma obind_assoc: "obind (obind m f) g = obind m (\<lambda>x. obind (f x) g)"
  by (cases m) auto

section \<open>Go maps\<close>

text \<open>
  \<open>None\<close> is the nil map. \<open>Some es\<close> holds the entries, in the order in which a \<open>range\<close>
  loop visits them; the language leaves that order open, and so do the theorems, which
  speak of every list of entries. Reading a nil map is legal and finds nothing.
\<close>

type_synonym ('k, 'v) gomap = "('k \<times> 'v) list option"

definition entries :: "('k, 'v) gomap \<Rightarrow> ('k \<times> 'v) list" where
  "entries m = (case m of None \<Rightarrow> [] | Some es \<Rightarrow> es)"

definition lookup :: "('k, 'v) gomap \<Rightarrow> 'k \<Rightarrow> 'v option" where
  "lookup m k = map_of (entries m) k"

definition keys :: "('k, 'v) gomap \<Rightarrow> 'k set" where
  "keys m = fst ` set (entries m)"

text \<open>A map holds each key once.\<close>

definition gomap_wf :: "('k, 'v) gomap \<Rightarrow> bool" where
  "gomap_wf m \<longleftrightarrow> distinct (map fst (entries m))"

lemma entries_simps [simp, go_simps]: "entries None = []" "entries (Some es) = es"
  by (simp_all add: entries_def)

lemma lookup_simps [simp, go_simps]:
  "lookup None k = None" "lookup (Some es) k = map_of es k"
  by (simp_all add: lookup_def)

lemma keys_simps [simp]: "keys None = {}" "keys (Some es) = fst ` set es"
  by (simp_all add: keys_def)

lemma gomap_wf_simps [simp]: "gomap_wf None" "gomap_wf (Some es) \<longleftrightarrow> distinct (map fst es)"
  by (simp_all add: gomap_wf_def)

lemma lookup_eq_None_iff: "lookup m k = None \<longleftrightarrow> k \<notin> keys m"
  by (simp add: lookup_def keys_def map_of_eq_None_iff)

lemma lookup_Some_iff: "(\<exists>v. lookup m k = Some v) \<longleftrightarrow> k \<in> keys m"
  using lookup_eq_None_iff [of m k] by auto

lemma lookup_in_entries: "lookup m k = Some v \<Longrightarrow> (k, v) \<in> set (entries m)"
  by (simp add: lookup_def map_of_SomeD)

lemma in_entries_lookup: "gomap_wf m \<Longrightarrow> (k, v) \<in> set (entries m) \<Longrightarrow> lookup m k = Some v"
  by (simp add: gomap_wf_def lookup_def)

lemma in_entries_keys: "(k, v) \<in> set (entries m) \<Longrightarrow> k \<in> keys m"
  by (force simp: keys_def)

section \<open>Pointers kept per placement\<close>

text \<open>
  The circuit, health and limits managers keep a map from placement keys to pointers. A
  pointer can outlive its entry of the map (a goroutine or a request holds it), so the
  objects live in \<open>cells\<close> and the map holds their addresses.
\<close>

record 'a store =
  refs :: "(string \<times> nat) list"
  cells :: "'a list"

definition st_empty :: "'a store" where
  "st_empty = \<lparr>refs = [], cells = []\<rparr>"

definition st_ref :: "'a store \<Rightarrow> string \<Rightarrow> nat option" where
  "st_ref st k = map_of (refs st) k"

definition st_bind :: "string \<Rightarrow> 'a \<Rightarrow> 'a store \<Rightarrow> 'a store" where
  "st_bind k v st = \<lparr>refs = AList.update k (length (cells st)) (refs st), cells = cells st @ [v]\<rparr>"

definition st_unbind :: "string \<Rightarrow> 'a store \<Rightarrow> 'a store" where
  "st_unbind k st = st\<lparr>refs := AList.delete k (refs st)\<rparr>"

definition st_write :: "nat \<Rightarrow> 'a \<Rightarrow> 'a store \<Rightarrow> 'a store" where
  "st_write r v st = st\<lparr>cells := (cells st)[r := v]\<rparr>"

definition st_wf :: "'a store \<Rightarrow> bool" where
  "st_wf st \<longleftrightarrow> (\<forall>k r. st_ref st k = Some r \<longrightarrow> r < length (cells st))"

text \<open>The object a placement's pointer leads to.\<close>

definition st_get :: "'a store \<Rightarrow> string \<Rightarrow> 'a option" where
  "st_get st k = map_option (\<lambda>r. cells st ! r) (st_ref st k)"

lemma st_ref_empty [simp]: "st_ref st_empty k = None"
  by (simp add: st_ref_def st_empty_def)

lemma st_get_empty [simp]: "st_get st_empty k = None"
  by (simp add: st_get_def)

lemma st_wf_empty [simp]: "st_wf st_empty"
  by (simp add: st_wf_def)

lemma st_ref_bind: "st_ref (st_bind k v st) j = (if j = k then Some (length (cells st)) else st_ref st j)"
  by (simp add: st_ref_def st_bind_def update_conv')

lemma cells_bind [simp]: "cells (st_bind k v st) = cells st @ [v]"
  by (simp add: st_bind_def)

lemma st_wf_bind [simp]: "st_wf st \<Longrightarrow> st_wf (st_bind k v st)"
  by (auto simp: st_wf_def st_ref_bind less_Suc_eq)

lemma st_get_bind: "st_wf st \<Longrightarrow> st_get (st_bind k v st) j = (if j = k then Some v else st_get st j)"
  by (cases "st_ref st j") (auto simp: st_get_def st_ref_bind st_wf_def nth_append)

lemma st_ref_unbind: "st_ref (st_unbind k st) j = (if j = k then None else st_ref st j)"
  by (simp add: st_ref_def st_unbind_def delete_conv')

lemma cells_unbind [simp]: "cells (st_unbind k st) = cells st"
  by (simp add: st_unbind_def)

lemma st_wf_unbind [simp]: "st_wf st \<Longrightarrow> st_wf (st_unbind k st)"
  by (auto simp: st_wf_def st_ref_unbind split: if_splits)

lemma st_get_unbind: "st_get (st_unbind k st) j = (if j = k then None else st_get st j)"
  by (simp add: st_get_def st_ref_unbind)

lemma st_ref_write [simp]: "st_ref (st_write r v st) = st_ref st"
  by (simp add: st_ref_def st_write_def fun_eq_iff)

lemma cells_write [simp]: "cells (st_write r v st) = (cells st)[r := v]"
  by (simp add: st_write_def)

lemma st_wf_write [simp]: "st_wf (st_write r v st) = st_wf st"
  by (simp add: st_wf_def)

lemma st_get_write:
  "st_wf st \<Longrightarrow> st_get (st_write r v st) j = (if st_ref st j = Some r then Some v else st_get st j)"
  by (cases "st_ref st j") (auto simp: st_get_def st_wf_def)

lemma st_get_Some_ref: "st_get st k = Some v \<Longrightarrow> \<exists>r. st_ref st k = Some r \<and> cells st ! r = v"
  by (auto simp: st_get_def)

lemma st_get_ref: "st_ref st k = Some r \<Longrightarrow> st_get st k = Some (cells st ! r)"
  by (simp add: st_get_def)

lemma st_get_None_iff: "st_get st k = None \<longleftrightarrow> st_ref st k = None"
  by (simp add: st_get_def)

text \<open>No two placements share an object.\<close>

definition st_inj :: "'a store \<Rightarrow> bool" where
  "st_inj st \<longleftrightarrow> (\<forall>j k r. st_ref st j = Some r \<longrightarrow> st_ref st k = Some r \<longrightarrow> j = k)"

lemma st_injD: "st_inj st \<Longrightarrow> st_ref st j = Some r \<Longrightarrow> st_ref st k = Some r \<Longrightarrow> j = k"
  by (auto simp: st_inj_def)

lemma st_inj_empty [simp]: "st_inj st_empty"
  by (simp add: st_inj_def)

lemma st_inj_bind [simp]: "st_wf st \<Longrightarrow> st_inj st \<Longrightarrow> st_inj (st_bind k v st)"
  by (auto simp: st_inj_def st_wf_def st_ref_bind split: if_splits)

lemma st_inj_unbind [simp]: "st_inj st \<Longrightarrow> st_inj (st_unbind k st)"
  by (auto simp: st_inj_def st_ref_unbind split: if_splits)

lemma st_inj_write [simp]: "st_inj (st_write r v st) = st_inj st"
  by (simp add: st_inj_def)

lemmas store_simps = st_ref_bind st_get_bind st_ref_unbind st_get_unbind st_get_write

section \<open>Time\<close>

text \<open>
  Instants and durations count nanoseconds; instants start at the zero \<open>time.Time\<close>. A
  \<open>clock\<close> gives the successive readings of \<open>time.Now()\<close> within one operation.
\<close>

type_synonym instant = int
type_synonym duration = int
type_synonym clock = "nat \<Rightarrow> instant"

abbreviation second :: duration where "second \<equiv> 1000000000"

text \<open>\<open>Time.Unix()\<close>: the seconds since 1970, rounded down (Go divides towards the past).\<close>

definition unix_seconds :: "instant \<Rightarrow> int" where
  "unix_seconds t = t div second - 62135596800"

section \<open>Printing numbers\<close>

definition digit_char :: "nat \<Rightarrow> char" where
  "digit_char d = char_of (48 + d)"

fun show_nat :: "nat \<Rightarrow> string" where
  "show_nat n = (if n < 10 then [digit_char n] else show_nat (n div 10) @ [digit_char (n mod 10)])"

declare show_nat.simps [simp del]

definition show_int :: "int \<Rightarrow> string" where
  "show_int i = (if i < 0 then CHR ''-'' # show_nat (nat (- i)) else show_nat (nat i))"

definition hex_digit :: "nat \<Rightarrow> char" where
  "hex_digit d = (if d < 10 then char_of (48 + d) else char_of (87 + d))"

text \<open>\<open>hex.EncodeToString\<close>: two lower-case digits per byte.\<close>

definition hex_encode :: "8 word list \<Rightarrow> string" where
  "hex_encode bs = concat (map (\<lambda>b. [hex_digit (unat b div 16), hex_digit (unat b mod 16)]) bs)"

lemma length_hex_encode: "length (hex_encode bs) = 2 * length bs"
  by (induction bs) (auto simp: hex_encode_def)

lemma show_nat_nonempty [simp]: "show_nat n \<noteq> []"
  by (subst show_nat.simps) simp

section \<open>Lists\<close>

lemma count_list_distinct: "distinct xs \<Longrightarrow> x \<in> set xs \<Longrightarrow> count_list xs x = 1"
  by (induction xs) (auto simp: count_list_0_iff)

section \<open>Reachable states\<close>

inductive reach :: "('s \<Rightarrow> bool) \<Rightarrow> ('s \<Rightarrow> 's \<Rightarrow> bool) \<Rightarrow> 's \<Rightarrow> bool"
  for init :: "'s \<Rightarrow> bool" and step :: "'s \<Rightarrow> 's \<Rightarrow> bool" where
  reach_init: "init s \<Longrightarrow> reach init step s"
| reach_step: "reach init step s \<Longrightarrow> step s t \<Longrightarrow> reach init step t"

text \<open>
  The contract of an invariant: it holds at the start and every step keeps it. The law of
  the client is that it then holds in every reachable state.
\<close>

locale invariant_system =
  fixes init :: "'s \<Rightarrow> bool" and step :: "'s \<Rightarrow> 's \<Rightarrow> bool" and inv :: "'s \<Rightarrow> bool"
  assumes init_inv: "init s \<Longrightarrow> inv s"
    and step_inv: "step s t \<Longrightarrow> inv s \<Longrightarrow> inv t"
begin

lemma reach_inv: "reach init step s \<Longrightarrow> inv s"
  by (induction rule: reach.induct) (auto intro: init_inv step_inv)

lemma reach_from_inv: "step\<^sup>*\<^sup>* s t \<Longrightarrow> inv s \<Longrightarrow> inv t"
  by (induction rule: rtranclp_induct) (auto intro: step_inv)

end

text \<open>
  A contract of systems that come to an end by themselves: under the invariant every step makes a measure smaller,
  and a state from which no step is possible is final.
\<close>

locale terminating_system = invariant_system init step inv
  for init :: "'s \<Rightarrow> bool" and step :: "'s \<Rightarrow> 's \<Rightarrow> bool" and inv :: "'s \<Rightarrow> bool" +
  fixes rank :: "'s \<Rightarrow> nat" and final :: "'s \<Rightarrow> bool"
  assumes step_rank: "step s t \<Longrightarrow> inv s \<Longrightarrow> rank t < rank s"
    and progress: "inv s \<Longrightarrow> \<not> final s \<Longrightarrow> \<exists>t. step s t"
begin

lemma run_bounded: "(step ^^ n) s t \<Longrightarrow> inv s \<Longrightarrow> inv t \<and> rank t + n \<le> rank s"
proof (induction n arbitrary: t)
  case (Suc n)
  then obtain u where "(step ^^ n) s u" "step u t" by auto
  with Suc.IH [of u] Suc.prems(2) step_inv [of u t] step_rank [of u t] show ?case by fastforce
qed simp

lemma end_is_final: "inv s \<Longrightarrow> \<forall>t. \<not> step s t \<Longrightarrow> final s"
  using progress by blast

text \<open>Some run ends in a final state, whatever was run before.\<close>

lemma reaches_final: "inv s \<Longrightarrow> \<exists>t. step\<^sup>*\<^sup>* s t \<and> final t"
proof (induction "rank s" arbitrary: s rule: less_induct)
  case less
  show ?case
  proof (cases "final s")
    case False
    then obtain u where u: "step s u" using progress less.prems by blast
    with less.hyps [OF step_rank [OF u less.prems] step_inv [OF u less.prems]]
    show ?thesis by (meson converse_rtranclp_into_rtranclp)
  qed blast
qed

end

end
