(* ===== verification/Go_Std.thy ===== *)
theory Go_Std
  imports Prelude
begin

text \<open>
  The functions of Go's standard library that the program calls with data of its own:
  \<open>time.ParseDuration\<close> (with the float64 arithmetic of its fractions), \<open>url.Parse\<close> (whether
  it fails, and the scheme and host the proxy takes from it) and \<open>net.SplitHostPort\<close>. Strings are
  lists of bytes, as Go's are.
\<close>

section \<open>Bytes and cutting strings\<close>

abbreviation byte_of :: "char \<Rightarrow> nat" where "byte_of c \<equiv> of_char c"

definition is_digit :: "char \<Rightarrow> bool" where
  "is_digit c \<longleftrightarrow> 48 \<le> byte_of c \<and> byte_of c \<le> 57"

definition is_alpha :: "char \<Rightarrow> bool" where
  "is_alpha c \<longleftrightarrow> (97 \<le> byte_of c \<and> byte_of c \<le> 122) \<or> (65 \<le> byte_of c \<and> byte_of c \<le> 90)"

definition digit_value :: "char \<Rightarrow> nat" where
  "digit_value c = byte_of c - 48"

definition is_hex :: "char \<Rightarrow> bool" where
  "is_hex c \<longleftrightarrow> is_digit c \<or> (97 \<le> byte_of c \<and> byte_of c \<le> 102) \<or> (65 \<le> byte_of c \<and> byte_of c \<le> 70)"

definition unhex :: "char \<Rightarrow> nat" where
  "unhex c = (if is_digit c then byte_of c - 48
     else if 97 \<le> byte_of c then byte_of c - 87 else byte_of c - 55)"

text \<open>\<open>strings.ToLower\<close> on ASCII.\<close>

definition to_lower :: "char \<Rightarrow> char" where
  "to_lower c = (if 65 \<le> byte_of c \<and> byte_of c \<le> 90 then char_of (byte_of c + 32) else c)"

text \<open>\<open>strings.Cut\<close>: what stands before the first occurrence of a byte, and after it if there is one.\<close>

fun cut :: "char \<Rightarrow> string \<Rightarrow> string \<times> string option" where
  "cut c [] = ([], None)"
| "cut c (x # xs) = (if x = c then ([], Some xs) else (let (a, b) = cut c xs in (x # a, b)))"

lemma cut_None: "c \<notin> set xs \<Longrightarrow> cut c xs = (xs, None)"
  by (induction xs) auto

text \<open>\<open>strings.LastIndex\<close> of a byte: what stands before and after its last occurrence.\<close>

fun cut_last :: "char \<Rightarrow> string \<Rightarrow> (string \<times> string) option" where
  "cut_last c [] = None"
| "cut_last c (x # xs) = (case cut_last c xs of Some (a, b) \<Rightarrow> Some (x # a, b)
     | None \<Rightarrow> if x = c then Some ([], xs) else None)"

lemma cut_last_None [simp]: "cut_last c xs = None \<longleftrightarrow> c \<notin> set xs"
  by (induction xs) (auto split: option.splits)

lemma cut_last_Some: "cut_last c xs = Some (a, b) \<Longrightarrow> xs = a @ c # b \<and> c \<notin> set b"
proof (induction xs arbitrary: a b)
  case (Cons x xs)
  then show ?case
    by (cases "cut_last c xs") (auto split: if_splits simp flip: cut_last_None)
qed simp

section \<open>time.ParseDuration\<close>

text \<open>
  Rounding a positive rational \<open>n / d\<close> to the nearest float64 (53 significant bits, ties to
  even): scale it into [2^52, 2^53) by powers of two, round, and scale back. The values that
  occur lie between 1e-19 and 2^63 times an hour in nanoseconds, so neither subnormals nor overflow
  arise. The result is again a quotient.
\<close>

function scale_up :: "nat \<Rightarrow> nat \<Rightarrow> nat \<Rightarrow> nat \<times> nat" where
  "scale_up n d k = (if n = 0 \<or> 2 ^ 52 * d \<le> n then (n, k) else scale_up (2 * n) d (2 * k))"
  by pat_completeness auto
termination
  by (relation "measure (\<lambda>(n, d, k). 2 ^ 52 * d - n)") auto

function scale_down :: "nat \<Rightarrow> nat \<Rightarrow> nat \<Rightarrow> nat \<times> nat" where
  "scale_down n d k = (if d = 0 \<or> n < 2 ^ 53 * d then (d, k) else scale_down n (2 * d) (2 * k))"
  by pat_completeness auto
termination
  by (relation "measure (\<lambda>(n, d, k). n - d)") auto

declare scale_up.simps [simp del] scale_down.simps [simp del]

definition round_even :: "nat \<Rightarrow> nat \<Rightarrow> nat" where
  "round_even n d = (let q = n div d; r = n mod d
     in if d < 2 * r \<or> (2 * r = d \<and> odd q) then q + 1 else q)"

definition float64 :: "nat \<Rightarrow> nat \<Rightarrow> nat \<times> nat" where
  "float64 n d = (let (n1, up) = scale_up n d 1; (d1, down) = scale_down n1 d 1
     in (round_even n1 d1 * down, up))"

text \<open>\<open>uint64(float64(f) * (float64(unit) / scale))\<close>\<close>

definition fraction_nanos :: "nat \<Rightarrow> nat \<Rightarrow> nat \<Rightarrow> nat" where
  "fraction_nanos f unit scale =
     (let (fn, fd) = float64 f 1; (qn, qd) = float64 unit scale; (pn, pd) = float64 (fn * qn) (fd * qd)
      in pn div pd)"

definition unit_nanos :: "string \<Rightarrow> nat option" where
  "unit_nanos u = map_of
     [(''ns'', 1), (''us'', 1000),
      ([CHR 0xC2, CHR 0xB5, CHR ''s''], 1000), ([CHR 0xCE, CHR 0xBC, CHR ''s''], 1000),
      (''ms'', 1000000), (''s'', 1000000000), (''m'', 60000000000), (''h'', 3600000000000)] u"

text \<open>\<open>leadingInt\<close>: \<open>None\<close> on overflow.\<close>

fun leading_int :: "nat \<Rightarrow> string \<Rightarrow> (nat \<times> string) option" where
  "leading_int x [] = Some (x, [])"
| "leading_int x (c # cs) =
     (if \<not> is_digit c then Some (x, c # cs)
      else if 2 ^ 63 div 10 < x then None
      else if 2 ^ 63 < x * 10 + digit_value c then None
      else leading_int (x * 10 + digit_value c) cs)"

text \<open>\<open>leadingFraction\<close>: digits past the overflow are read and dropped.\<close>

fun leading_fraction :: "nat \<Rightarrow> nat \<Rightarrow> bool \<Rightarrow> string \<Rightarrow> nat \<times> nat \<times> string" where
  "leading_fraction x scale ovf [] = (x, scale, [])"
| "leading_fraction x scale ovf (c # cs) =
     (if \<not> is_digit c then (x, scale, c # cs)
      else if ovf \<or> (2 ^ 63 - 1) div 10 < x \<or> 2 ^ 63 < x * 10 + digit_value c
        then leading_fraction x scale True cs
      else leading_fraction (x * 10 + digit_value c) (scale * 10) False cs)"

datatype duration_error = Invalid_Duration | Missing_Unit | Unknown_Unit string

text \<open>
  One round of the loop: the value it adds and the rest of the string.
\<close>

definition duration_term :: "string \<Rightarrow> duration_error + (nat \<times> string)" where
  "duration_term s =
     (if s = [] \<or> \<not> (hd s = CHR ''.'' \<or> is_digit (hd s)) then Inl Invalid_Duration
      else case leading_int 0 s of None \<Rightarrow> Inl Invalid_Duration
      | Some (v, s1) \<Rightarrow>
        let pre = (length s1 \<noteq> length s);
            (f, scale, s2, post) =
              (if s1 \<noteq> [] \<and> hd s1 = CHR ''.''
               then (let (f, scale, s2) = leading_fraction 0 1 False (tl s1)
                     in (f, scale, s2, length s2 \<noteq> length (tl s1)))
               else (0, 1, s1, False));
            u = takeWhile (\<lambda>c. \<not> (c = CHR ''.'' \<or> is_digit c)) s2;
            s3 = dropWhile (\<lambda>c. \<not> (c = CHR ''.'' \<or> is_digit c)) s2
        in if \<not> pre \<and> \<not> post then Inl Invalid_Duration
           else if u = [] then Inl Missing_Unit
           else case unit_nanos u of None \<Rightarrow> Inl (Unknown_Unit u)
           | Some unit \<Rightarrow>
             if 2 ^ 63 div unit < v then Inl Invalid_Duration
             else let v' = v * unit + (if 0 < f then fraction_nanos f unit scale else 0)
                  in if 0 < f \<and> 2 ^ 63 < v' then Inl Invalid_Duration else Inr (v', s3))"

lemma leading_int_length: "leading_int x s = Some (v, s') \<Longrightarrow> length s' \<le> length s"
  by (induction x s rule: leading_int.induct) (fastforce split: if_splits)+

lemma leading_fraction_length:
  "leading_fraction x sc ovf s = (f, sc', s') \<Longrightarrow> length s' \<le> length s"
  by (induction x sc ovf s rule: leading_fraction.induct) (fastforce split: if_splits)+

lemma takeWhile_shorter:
  assumes "takeWhile P xs \<noteq> []" shows "length (dropWhile P xs) < length xs"
proof -
  have "length xs = length (takeWhile P xs) + length (dropWhile P xs)"
    by (metis length_append takeWhile_dropWhile_id)
  with assms show ?thesis by simp
qed

lemma duration_term_length:
  assumes "duration_term s = Inr (v, s')" shows "length s' < length s"
proof -
  let ?P = "\<lambda>c. \<not> (c = CHR ''.'' \<or> is_digit c)"
  from assms obtain v1 s1 where li: "leading_int 0 s = Some (v1, s1)"
    by (auto simp: duration_term_def split: if_splits option.splits)
  obtain f sc s2 where lf: "leading_fraction 0 1 False (tl s1) = (f, sc, s2)"
    by (metis prod_cases3)
  have l1: "length s1 \<le> length s" using li by (rule leading_int_length)
  have l2: "length s2 \<le> length (tl s1)" using lf by (rule leading_fraction_length)
  show ?thesis
  proof (cases "s1 \<noteq> [] \<and> hd s1 = CHR ''.''")
    case True
    with assms li lf have "takeWhile ?P s2 \<noteq> []" "s' = dropWhile ?P s2"
      by (auto simp: duration_term_def Let_def split: if_splits option.splits)
    then show ?thesis using takeWhile_shorter [of ?P s2] l1 l2 by simp
  next
    case False
    with assms li have "takeWhile ?P s1 \<noteq> []" "s' = dropWhile ?P s1"
      by (auto simp: duration_term_def Let_def split: if_splits option.splits)
    then show ?thesis using takeWhile_shorter [of ?P s1] l1 by simp
  qed
qed

text \<open>The loop; \<open>d += v\<close> is on uint64.\<close>

function duration_loop :: "nat \<Rightarrow> string \<Rightarrow> duration_error + nat" where
  "duration_loop d s =
     (if s = [] then Inr d
      else case duration_term s of Inl e \<Rightarrow> Inl e
      | Inr (v, s') \<Rightarrow>
        (let d' = (d + v) mod 2 ^ 64
         in if 2 ^ 63 < d' then Inl Invalid_Duration else duration_loop d' s'))"
  by pat_completeness auto
termination
  by (relation "measure (\<lambda>(d, s). length s)") (auto dest: duration_term_length)

declare duration_loop.simps [simp del]

definition parse_duration :: "string \<Rightarrow> duration_error + duration" where
  "parse_duration s =
     (let neg = (s \<noteq> [] \<and> hd s = CHR ''-'');
          s' = (if s \<noteq> [] \<and> (hd s = CHR ''-'' \<or> hd s = CHR ''+'') then tl s else s)
      in if s' = ''0'' then Inr 0
         else if s' = [] then Inl Invalid_Duration
         else case duration_loop 0 s' of Inl e \<Rightarrow> Inl e
         | Inr d \<Rightarrow> if neg then Inr (- int d)
             else if 2 ^ 63 - 1 < d then Inl Invalid_Duration else Inr (int d))"

lemma duration_loop_le: "duration_loop d s = Inr r \<Longrightarrow> d \<le> 2 ^ 63 \<Longrightarrow> r \<le> 2 ^ 63"
proof (induction d s rule: duration_loop.induct)
  case (1 d s)
  show ?case
  proof (cases "s = []")
    case True
    with 1 show ?thesis by (simp add: duration_loop.simps [of d "[]"])
  next
    case False
    with "1.prems"(1) obtain v s' where "duration_term s = Inr (v, s')"
        "\<not> 2 ^ 63 < (d + v) mod 2 ^ 64" "duration_loop ((d + v) mod 2 ^ 64) s' = Inr r"
      by (auto simp: duration_loop.simps [of d s] Let_def split: sum.splits if_splits)
    with "1.IH" [of "(v, s')" v s' "(d + v) mod 2 ^ 64"] False show ?thesis by simp
  qed
qed

text \<open>A parsed duration fits the int64 it is stored in.\<close>

lemma parse_duration_range:
  "parse_duration s = Inr d \<Longrightarrow> - (2 ^ 63) \<le> d \<and> d < 2 ^ 63"
  using duration_loop_le [of 0 "if s \<noteq> [] \<and> (hd s = CHR ''-'' \<or> hd s = CHR ''+'') then tl s else s"]
  by (auto simp: parse_duration_def Let_def split: if_splits sum.splits)

section \<open>url.Parse\<close>

text \<open>
  The proxy takes the scheme and the host of a parsed URL and nothing else; the other parts
  matter only where they make the parse fail.
\<close>

record parsed_url =
  url_scheme :: string
  url_host :: string

datatype url_error = Control_Byte | Missing_Scheme | Colon_In_First_Segment | Missing_Bracket
  | Invalid_Port | Invalid_Host | Invalid_Escape | Invalid_Userinfo

definition is_ctl :: "char \<Rightarrow> bool" where
  "is_ctl c \<longleftrightarrow> byte_of c < 32 \<or> byte_of c = 127"

text \<open>The scheme before a colon, if there is one, and the rest (\<open>getScheme\<close>).\<close>

fun scheme_chars :: "string \<Rightarrow> (string \<times> string) option" where
  "scheme_chars [] = None"
| "scheme_chars (c # cs) =
     (if c = CHR '':'' then Some ([], cs)
      else if is_alpha c \<or> is_digit c \<or> c \<in> set ''+-.''
        then map_option (\<lambda>(a, b). (c # a, b)) (scheme_chars cs)
      else None)"

definition get_scheme :: "string \<Rightarrow> url_error + (string \<times> string)" where
  "get_scheme s =
     (if s \<noteq> [] \<and> (is_digit (hd s) \<or> hd s \<in> set ''+-.'') then Inr ([], s)
      else if s \<noteq> [] \<and> hd s = CHR '':'' then Inl Missing_Scheme
      else case scheme_chars s of Some (a, b) \<Rightarrow> Inr (a, b) | None \<Rightarrow> Inr ([], s))"

text \<open>\<open>unescape\<close> in the modes that occur; \<open>Plain\<close> is any mode that only asks for well-formed escapes.\<close>

datatype escape_mode = Plain | Host_Mode | Zone_Mode

definition host_byte :: "char \<Rightarrow> bool" where
  "host_byte c \<longleftrightarrow> is_alpha c \<or> is_digit c
     \<or> c \<in> set ''!$&()*+,;=:[]<>-_.~'' \<or> c = CHR 0x22 \<or> c = CHR 0x27"

fun unescape :: "escape_mode \<Rightarrow> string \<Rightarrow> url_error + string" where
  "unescape m [] = Inr []"
| "unescape m (c # cs) =
     (if c = CHR ''%'' then
        (case cs of h # l # rest \<Rightarrow>
           if \<not> is_hex h \<or> \<not> is_hex l then Inl Invalid_Escape
           else if m = Host_Mode \<and> unhex h < 8 \<and> \<not> (h = CHR ''2'' \<and> l = CHR ''5'') then Inl Invalid_Escape
           else if m = Zone_Mode \<and> \<not> (h = CHR ''2'' \<and> l = CHR ''5'')
                \<and> char_of (unhex h * 16 + unhex l) \<noteq> CHR '' ''
                \<and> \<not> host_byte (char_of (unhex h * 16 + unhex l)) then Inl Invalid_Escape
           else map_sum id (\<lambda>r. char_of (unhex h * 16 + unhex l) # r) (unescape m rest)
         | _ \<Rightarrow> Inl Invalid_Escape)
      else if m \<noteq> Plain \<and> byte_of c < 128 \<and> \<not> host_byte c then Inl Invalid_Host
      else map_sum id (\<lambda>r. c # r) (unescape m cs))"

definition valid_optional_port :: "string \<Rightarrow> bool" where
  "valid_optional_port p \<longleftrightarrow> p = [] \<or> (hd p = CHR '':'' \<and> list_all is_digit (tl p))"

text \<open>Where \<open>%25\<close> starts a zone inside an IPv6 literal.\<close>

fun split_zone :: "string \<Rightarrow> (string \<times> string) option" where
  "split_zone [] = None"
| "split_zone (c # cs) =
     (if take 3 (c # cs) = ''%25'' then Some ([], c # cs)
      else map_option (\<lambda>(a, b). (c # a, b)) (split_zone cs))"

definition parse_host :: "string \<Rightarrow> url_error + string" where
  "parse_host host =
     (if host \<noteq> [] \<and> hd host = CHR ''['' then
        (case cut_last (CHR '']'') host of None \<Rightarrow> Inl Missing_Bracket
         | Some (front, after) \<Rightarrow>
           if \<not> valid_optional_port after then Inl Invalid_Port
           else case split_zone front of
             Some (h1, zone) \<Rightarrow>
               (case (unescape Host_Mode h1, unescape Zone_Mode zone, unescape Host_Mode (CHR '']'' # after))
                of (Inr a, Inr b, Inr c) \<Rightarrow> Inr (a @ b @ c)
                 | (Inl e, _, _) \<Rightarrow> Inl e | (_, Inl e, _) \<Rightarrow> Inl e | (_, _, Inl e) \<Rightarrow> Inl e)
           | None \<Rightarrow> unescape Host_Mode host)
      else (case cut_last (CHR '':'') host of
          Some (front, after) \<Rightarrow>
            if \<not> list_all is_digit after then Inl Invalid_Port else unescape Host_Mode host
        | None \<Rightarrow> unescape Host_Mode host))"

definition valid_userinfo :: "string \<Rightarrow> bool" where
  "valid_userinfo s \<longleftrightarrow>
     list_all (\<lambda>c. is_alpha c \<or> is_digit c \<or> c \<in> set ''-._:~!$&()*+,;=%@'' \<or> c = CHR 0x27) s"

definition parse_authority :: "string \<Rightarrow> url_error + string" where
  "parse_authority a =
     (case cut_last (CHR ''@'') a of None \<Rightarrow> parse_host a
      | Some (userinfo, host) \<Rightarrow>
        (case parse_host host of Inl e \<Rightarrow> Inl e
         | Inr h \<Rightarrow>
           if \<not> valid_userinfo userinfo then Inl Invalid_Userinfo
           else case unescape Plain userinfo of Inl e \<Rightarrow> Inl e | Inr _ \<Rightarrow> Inr h))"

text \<open>The part of the URL before the fragment (\<open>parse\<close> with \<open>viaRequest\<close> false).\<close>

definition parse_url_body :: "string \<Rightarrow> url_error + parsed_url" where
  "parse_url_body raw =
     (if list_ex is_ctl raw then Inl Control_Byte
      else if raw = ''*'' then Inr \<lparr>url_scheme = [], url_host = []\<rparr>
      else case get_scheme raw of Inl e \<Rightarrow> Inl e
      | Inr (sch, r) \<Rightarrow>
        let scheme = map to_lower sch; rest = fst (cut (CHR ''?'') r)
        in if (rest = [] \<or> hd rest \<noteq> CHR ''/'') \<and> scheme \<noteq> []
             then Inr \<lparr>url_scheme = scheme, url_host = []\<rparr>
           else if (rest = [] \<or> hd rest \<noteq> CHR ''/'') \<and> CHR '':'' \<in> set (fst (cut (CHR ''/'') rest))
             then Inl Colon_In_First_Segment
           else if take 2 rest = ''//'' \<and> (scheme \<noteq> [] \<or> take 3 rest \<noteq> ''///'') then
             (let auth = takeWhile (\<lambda>c. c \<noteq> CHR ''/'') (drop 2 rest);
                  path = dropWhile (\<lambda>c. c \<noteq> CHR ''/'') (drop 2 rest)
              in case parse_authority auth of Inl e \<Rightarrow> Inl e
                 | Inr h \<Rightarrow> (case unescape Plain path of Inl e \<Rightarrow> Inl e
                     | Inr _ \<Rightarrow> Inr \<lparr>url_scheme = scheme, url_host = h\<rparr>))
           else (case unescape Plain rest of Inl e \<Rightarrow> Inl e
                 | Inr _ \<Rightarrow> Inr \<lparr>url_scheme = scheme, url_host = []\<rparr>))"

definition parse_url :: "string \<Rightarrow> url_error + parsed_url" where
  "parse_url raw =
     (let (u, frag) = cut (CHR ''#'') raw
      in case parse_url_body u of Inl e \<Rightarrow> Inl e
         | Inr p \<Rightarrow> (case frag of None \<Rightarrow> Inr p
             | Some f \<Rightarrow> (case unescape Plain f of Inl e \<Rightarrow> Inl e | Inr _ \<Rightarrow> Inr p)))"

section \<open>net.SplitHostPort\<close>

text \<open>
  The host of \<open>host:port\<close>, empty when the address is malformed: the proxy drops the error and
  uses the host it got.
\<close>

definition split_host :: "string \<Rightarrow> string" where
  "split_host hp =
     (case cut_last (CHR '':'') hp of None \<Rightarrow> []
      | Some (front, port) \<Rightarrow>
        if hp \<noteq> [] \<and> hd hp = CHR ''['' then
          (case cut (CHR '']'') hp of (_, None) \<Rightarrow> []
           | (host, Some after) \<Rightarrow>
             if after \<noteq> CHR '':'' # port then []
             else if CHR ''['' \<in> set (tl hp) \<or> CHR '']'' \<in> set after then []
             else tl host)
        else if CHR '':'' \<in> set front \<or> CHR ''['' \<in> set hp \<or> CHR '']'' \<in> set hp then []
        else front)"

section \<open>Dates\<close>

text \<open>The date of a day, counted from 1 January of the year 1, in the Gregorian calendar.\<close>

definition civil_date :: "int \<Rightarrow> int \<times> int \<times> int" where
  "civil_date day =
     (let z = day + 306; era = z div 146097; doe = z mod 146097;
          yoe = (doe - doe div 1460 + doe div 36524 - doe div 146096) div 365;
          doy = doe - (365 * yoe + yoe div 4 - yoe div 100);
          mp = (5 * doy + 2) div 153;
          m = (if mp < 10 then mp + 3 else mp - 9)
      in (yoe + era * 400 + (if m \<le> 2 then 1 else 0), m, doy - (153 * mp + 2) div 5 + 1))"

definition pad :: "nat \<Rightarrow> int \<Rightarrow> string" where
  "pad n i = (let s = show_int i in replicate (n - length s) (CHR ''0'') @ s)"

text \<open>\<open>Format(time.RFC3339)\<close> in a zone \<open>offset\<close> seconds east of UTC.\<close>

definition rfc3339 :: "int \<Rightarrow> instant \<Rightarrow> string" where
  "rfc3339 offset t =
     (let s = t div second + offset; day = s div 86400; sod = s mod 86400; (y, m, d) = civil_date day; z = abs offset div 60
      in pad 4 y @ ''-'' @ pad 2 m @ ''-'' @ pad 2 d @ ''T''
         @ pad 2 (sod div 3600) @ '':'' @ pad 2 (sod div 60 mod 60) @ '':'' @ pad 2 (sod mod 60)
         @ (if offset = 0 then ''Z'' else (if offset < 0 then ''-'' else ''+'') @ pad 2 (z div 60) @ '':'' @ pad 2 (z mod 60)))"

section \<open>Evaluating these functions\<close>

text \<open>The equations that let \<open>simp\<close> run them on literals.\<close>

lemmas duration_eval = parse_duration_def duration_loop.simps duration_term_def is_digit_def
  digit_value_def unit_nanos_def

lemmas url_eval = parse_url_def parse_url_body_def get_scheme_def parse_authority_def parse_host_def
  valid_optional_port_def valid_userinfo_def host_byte_def is_ctl_def is_digit_def is_alpha_def
  is_hex_def unhex_def to_lower_def

end
