(* ===== verification/Config.thy ===== *)
theory Config
  imports Go_Std
begin

text \<open>
  \<open>internal/config/config.go\<close>: the routing configuration in its two formats (the legacy
  \<open>cellEndpoints\<close> map and the \<open>placements\<close> with resilience settings), its accessors, the
  parsers of its durations and \<open>Validate\<close>, which is shown equivalent to a declarative
  specification of a well-formed configuration.
\<close>

section \<open>Data\<close>

record health_check_config =
  hc_path :: string
  hc_interval :: string
  hc_timeout :: string

record parsed_health_check_config =
  phc_path :: string
  phc_interval :: duration
  phc_timeout :: duration

record circuit_breaker_config =
  cb_failure_threshold :: int
  cb_timeout :: string

record parsed_circuit_breaker_config =
  pcb_failure_threshold :: "32 word"
  pcb_timeout :: duration

record placement_config =
  pl_url :: string
  pl_fallback :: string
  pl_health_check :: "health_check_config option"
  pl_circuit_breaker :: "circuit_breaker_config option"
  pl_concurrency_limit :: int
  pl_max_request_body_bytes :: int

text \<open>The values of \<open>Placements\<close> are pointers; \<open>None\<close> is a nil one (JSON \<open>null\<close>).\<close>

record config =
  version :: string
  routing_table :: "(string, string) gomap"
  cell_endpoints :: "(string, string) gomap"
  placements :: "(string, placement_config option) gomap"
  default_placement :: string

datatype config_error =
    Bad_Interval duration_error
  | Bad_Timeout duration_error
  | Bad_Breaker_Timeout duration_error
  | Version_Empty
  | Default_Not_Found string
  | Unknown_Placement string string
  | Invalid_URL string url_error
  | Unknown_Fallback string string
  | In_Placement string config_error

section \<open>Parsing the durations\<close>

definition parse_health_check :: "health_check_config \<Rightarrow> config_error + parsed_health_check_config" where
  "parse_health_check h =
     (case parse_duration (hc_interval h) of Inl e \<Rightarrow> Inl (Bad_Interval e)
      | Inr interval \<Rightarrow>
        (case parse_duration (hc_timeout h) of Inl e \<Rightarrow> Inl (Bad_Timeout e)
         | Inr timeout \<Rightarrow>
           Inr \<lparr>phc_path = hc_path h, phc_interval = interval, phc_timeout = timeout\<rparr>))"

text \<open>\<open>uint32(c.FailureThreshold)\<close> keeps the low 32 bits.\<close>

definition parse_circuit_breaker ::
    "circuit_breaker_config \<Rightarrow> config_error + parsed_circuit_breaker_config" where
  "parse_circuit_breaker c =
     (case parse_duration (cb_timeout c) of Inl e \<Rightarrow> Inl (Bad_Breaker_Timeout e)
      | Inr timeout \<Rightarrow>
        Inr \<lparr>pcb_failure_threshold = word_of_int (cb_failure_threshold c), pcb_timeout = timeout\<rparr>)"

section \<open>Accessors\<close>

definition get_version :: "config \<Rightarrow> string" where
  "get_version c = version c"

definition get_routing_table :: "config \<Rightarrow> (string, string) gomap" where
  "get_routing_table c = routing_table c"

text \<open>The loop over \<open>Placements\<close>; dereferencing a nil placement panics.\<close>

fun collect_urls ::
    "(string \<times> placement_config option) list \<Rightarrow> (string \<times> string) list \<Rightarrow> (string \<times> string) list outcome" where
  "collect_urls [] acc = Ret acc"
| "collect_urls ((k, None) # ps) acc = Panic Nil_Deref"
| "collect_urls ((k, Some p) # ps) acc = collect_urls ps (AList.update k (pl_url p) acc)"

definition get_cell_endpoints :: "config \<Rightarrow> (string, string) gomap outcome" where
  "get_cell_endpoints c =
     (if 0 < length (entries (cell_endpoints c)) then Ret (cell_endpoints c)
      else omap Some (collect_urls (entries (placements c)) []))"

definition get_default_placement :: "config \<Rightarrow> string" where
  "get_default_placement c = default_placement c"

text \<open>The pointer and whether the key exists; \<open>(None, True)\<close> is an entry holding a nil pointer.\<close>

definition get_placement_config :: "config \<Rightarrow> string \<Rightarrow> placement_config option \<times> bool" where
  "get_placement_config c k =
     (if placements c = None then (None, False)
      else case lookup (placements c) k of None \<Rightarrow> (None, False) | Some p \<Rightarrow> (p, True))"

section \<open>Validate\<close>

fun validate_table ::
    "(string, string) gomap \<Rightarrow> (string \<times> string) list \<Rightarrow> config_error option" where
  "validate_table eps [] = None"
| "validate_table eps ((rk, pk) # es) =
     (if lookup eps pk = None then Some (Unknown_Placement rk pk) else validate_table eps es)"

fun validate_urls :: "(string \<times> string) list \<Rightarrow> config_error option" where
  "validate_urls [] = None"
| "validate_urls ((k, u) # es) =
     (case parse_url u of Inl e \<Rightarrow> Some (Invalid_URL k e) | Inr _ \<Rightarrow> validate_urls es)"

definition validate_placement ::
    "(string, string) gomap \<Rightarrow> string \<Rightarrow> placement_config \<Rightarrow> config_error option" where
  "validate_placement eps k p =
     (if pl_fallback p \<noteq> [] \<and> lookup eps (pl_fallback p) = None
        then Some (Unknown_Fallback k (pl_fallback p))
      else case (case pl_health_check p of None \<Rightarrow> None
                 | Some h \<Rightarrow> (case parse_health_check h of Inl e \<Rightarrow> Some (In_Placement k e) | Inr _ \<Rightarrow> None))
        of Some e \<Rightarrow> Some e
         | None \<Rightarrow>
           (case pl_circuit_breaker p of None \<Rightarrow> None
            | Some cb \<Rightarrow> (case parse_circuit_breaker cb of Inl e \<Rightarrow> Some (In_Placement k e)
                          | Inr _ \<Rightarrow> None)))"

fun validate_placements ::
    "(string, string) gomap \<Rightarrow> (string \<times> placement_config option) list \<Rightarrow> config_error option outcome" where
  "validate_placements eps [] = Ret None"
| "validate_placements eps ((k, None) # ps) = Panic Nil_Deref"
| "validate_placements eps ((k, Some p) # ps) =
     (case validate_placement eps k p of Some e \<Rightarrow> Ret (Some e) | None \<Rightarrow> validate_placements eps ps)"

text \<open>\<open>Ret None\<close> is the nil error.\<close>

definition validate :: "config \<Rightarrow> config_error option outcome" where
  "validate c =
     (if version c = [] then Ret (Some Version_Empty)
      else obind (get_cell_endpoints c) (\<lambda>eps.
        if lookup eps (default_placement c) = None
          then Ret (Some (Default_Not_Found (default_placement c)))
        else case validate_table eps (entries (routing_table c)) of Some e \<Rightarrow> Ret (Some e)
        | None \<Rightarrow>
          (case validate_urls (entries eps) of Some e \<Rightarrow> Ret (Some e)
           | None \<Rightarrow> validate_placements eps (entries (placements c)))))"

section \<open>What a well-formed configuration is\<close>

definition url_ok :: "string \<Rightarrow> bool" where
  "url_ok u \<longleftrightarrow> \<not> isl (parse_url u)"

definition duration_ok :: "string \<Rightarrow> bool" where
  "duration_ok s \<longleftrightarrow> \<not> isl (parse_duration s)"

definition placement_ok :: "string set \<Rightarrow> placement_config option \<Rightarrow> bool" where
  "placement_ok eps po \<longleftrightarrow> (case po of None \<Rightarrow> False
     | Some p \<Rightarrow> (pl_fallback p = [] \<or> pl_fallback p \<in> eps)
       \<and> (case pl_health_check p of None \<Rightarrow> True
          | Some h \<Rightarrow> duration_ok (hc_interval h) \<and> duration_ok (hc_timeout h))
       \<and> (case pl_circuit_breaker p of None \<Rightarrow> True | Some cb \<Rightarrow> duration_ok (cb_timeout cb)))"

text \<open>
  The endpoints a configuration means: the legacy map if it has entries, otherwise the URLs of
  the placements.
\<close>

definition endpoint_of :: "config \<Rightarrow> string \<Rightarrow> string option" where
  "endpoint_of c k =
     (if entries (cell_endpoints c) \<noteq> [] then lookup (cell_endpoints c) k
      else Option.bind (lookup (placements c) k) (map_option pl_url))"

definition valid_config :: "config \<Rightarrow> bool" where
  "valid_config c \<longleftrightarrow>
     version c \<noteq> []
     \<and> endpoint_of c (default_placement c) \<noteq> None
     \<and> (\<forall>(rk, pk) \<in> set (entries (routing_table c)). endpoint_of c pk \<noteq> None)
     \<and> (\<forall>k \<in> keys (cell_endpoints c) \<union> keys (placements c). pred_option url_ok (endpoint_of c k))
     \<and> (\<forall>(k, p) \<in> set (entries (placements c)). placement_ok (dom (endpoint_of c)) p)"

definition config_wf :: "config \<Rightarrow> bool" where
  "config_wf c \<longleftrightarrow> gomap_wf (routing_table c) \<and> gomap_wf (cell_endpoints c) \<and> gomap_wf (placements c)"

section \<open>Endpoints\<close>

lemma collect_urls_Ret:
  "collect_urls ps acc = Ret es \<Longrightarrow> \<forall>(k, p) \<in> set ps. p \<noteq> None"
  by (induction ps acc rule: collect_urls.induct) auto

lemma collect_urls_total:
  "\<forall>(k, p) \<in> set ps. p \<noteq> None \<Longrightarrow> \<exists>es. collect_urls ps acc = Ret es"
  by (induction ps acc rule: collect_urls.induct) auto

lemma collect_urls_lookup:
  "collect_urls ps acc = Ret es \<Longrightarrow> distinct (map fst ps) \<Longrightarrow>
   map_of es k = (case map_of ps k of Some p \<Rightarrow> map_option pl_url p | None \<Rightarrow> map_of acc k)"
proof (induction ps acc rule: collect_urls.induct)
  case (3 k' p ps acc)
  then have "map_of ps k' = None" by (auto simp: map_of_eq_None_iff)
  with 3 show ?case by (auto simp: update_conv' split: option.splits)
qed auto

lemma collect_urls_distinct:
  "collect_urls ps acc = Ret es \<Longrightarrow> distinct (map fst acc) \<Longrightarrow> distinct (map fst es)"
  by (induction ps acc rule: collect_urls.induct) (auto simp: distinct_update)

lemma get_cell_endpoints_lookup:
  assumes "get_cell_endpoints c = Ret eps" "config_wf c"
  shows "lookup eps k = endpoint_of c k"
proof (cases "entries (cell_endpoints c) = []")
  case False
  with assms(1) show ?thesis by (simp add: get_cell_endpoints_def endpoint_of_def)
next
  case True
  with assms(1) obtain es where es: "collect_urls (entries (placements c)) [] = Ret es" "eps = Some es"
    by (auto simp: get_cell_endpoints_def)
  from assms(2) have "distinct (map fst (entries (placements c)))"
    by (simp add: config_wf_def gomap_wf_def)
  from collect_urls_lookup [OF es(1) this] True es(2) show ?thesis
    by (auto simp: endpoint_of_def lookup_def [of "placements c"] split: option.splits)
qed

lemma get_cell_endpoints_wf:
  "get_cell_endpoints c = Ret eps \<Longrightarrow> config_wf c \<Longrightarrow> gomap_wf eps"
  by (auto simp: get_cell_endpoints_def config_wf_def split: if_splits dest: collect_urls_distinct)

lemma get_cell_endpoints_total:
  "(\<exists>eps. get_cell_endpoints c = Ret eps) \<longleftrightarrow>
   entries (cell_endpoints c) \<noteq> [] \<or> (\<forall>(k, p) \<in> set (entries (placements c)). p \<noteq> None)"
  using collect_urls_total [of "entries (placements c)" "[]"]
  by (auto simp: get_cell_endpoints_def dest!: collect_urls_Ret)

section \<open>Validation is equivalent to the specification\<close>

lemma validate_table_None:
  "validate_table eps es = None \<longleftrightarrow> (\<forall>(rk, pk) \<in> set es. lookup eps pk \<noteq> None)"
  by (induction eps es rule: validate_table.induct) auto

lemma validate_urls_None:
  "validate_urls es = None \<longleftrightarrow> (\<forall>(k, u) \<in> set es. url_ok u)"
  by (induction es rule: validate_urls.induct) (auto simp: url_ok_def split: sum.splits)

lemma parse_health_check_isl [simp]:
  "isl (parse_health_check h) \<longleftrightarrow> \<not> (duration_ok (hc_interval h) \<and> duration_ok (hc_timeout h))"
  by (auto simp: parse_health_check_def duration_ok_def split: sum.splits)

lemma parse_circuit_breaker_isl [simp]:
  "isl (parse_circuit_breaker cb) \<longleftrightarrow> \<not> duration_ok (cb_timeout cb)"
  by (auto simp: parse_circuit_breaker_def duration_ok_def split: sum.splits)

lemma validate_placement_None:
  "validate_placement eps k p = None \<longleftrightarrow> placement_ok (keys eps) (Some p)"
  by (auto simp: validate_placement_def placement_ok_def parse_health_check_def
      parse_circuit_breaker_def duration_ok_def lookup_eq_None_iff
      split: option.splits sum.splits)

lemma placement_ok_None [simp]: "\<not> placement_ok eps None"
  by (simp add: placement_ok_def)

lemma validate_placements_None:
  "validate_placements eps ps = Ret None \<longleftrightarrow> (\<forall>(k, p) \<in> set ps. placement_ok (keys eps) p)"
proof (induction eps ps rule: validate_placements.induct)
  case (3 eps k p ps)
  then show ?case
    using validate_placement_None [of eps k p] by (cases "validate_placement eps k p") auto
qed auto

lemma endpoint_of_None_placement:
  "entries (cell_endpoints c) = [] \<Longrightarrow> config_wf c \<Longrightarrow> (k, None) \<in> set (entries (placements c)) \<Longrightarrow>
   \<not> placement_ok E (the (lookup (placements c) k))"
  by (simp add: config_wf_def in_entries_lookup)

lemma endpoint_keys:
  assumes "get_cell_endpoints c = Ret eps" "config_wf c"
  shows "keys eps = dom (endpoint_of c)"
  using get_cell_endpoints_lookup [OF assms] lookup_eq_None_iff [of eps] by (auto simp: dom_def)

lemma endpoint_of_key:
  "endpoint_of c k = Some u \<Longrightarrow> k \<in> keys (cell_endpoints c) \<union> keys (placements c)"
  by (auto simp: endpoint_of_def split: if_splits Option.bind_splits
      dest: lookup_in_entries in_entries_keys)

lemma endpoint_urls:
  assumes "get_cell_endpoints c = Ret eps" "config_wf c"
  shows "(\<forall>(k, u) \<in> set (entries eps). url_ok u) \<longleftrightarrow>
    (\<forall>k \<in> keys (cell_endpoints c) \<union> keys (placements c). pred_option url_ok (endpoint_of c k))"
proof -
  have eq: "(k, u) \<in> set (entries eps) \<longleftrightarrow> endpoint_of c k = Some u" for k u
    using get_cell_endpoints_lookup [OF assms] get_cell_endpoints_wf [OF assms]
      in_entries_lookup lookup_in_entries by metis
  have "(\<forall>(k, u) \<in> set (entries eps). url_ok u) \<longleftrightarrow> (\<forall>k u. endpoint_of c k = Some u \<longrightarrow> url_ok u)"
    by (auto simp: eq)
  then show ?thesis by (auto simp: pred_option_def elem_set dest: endpoint_of_key)
qed

lemma validate_Ret_None:
  "validate c = Ret None \<longleftrightarrow> version c \<noteq> [] \<and> (\<exists>eps. get_cell_endpoints c = Ret eps
     \<and> lookup eps (default_placement c) \<noteq> None
     \<and> validate_table eps (entries (routing_table c)) = None
     \<and> validate_urls (entries eps) = None
     \<and> validate_placements eps (entries (placements c)) = Ret None)"
  by (auto simp: validate_def split: option.splits)

lemma validate_iff:
  assumes "config_wf c"
  shows "validate c = Ret None \<longleftrightarrow> valid_config c"
proof (cases "get_cell_endpoints c")
  case (Panic p)
  then have "entries (cell_endpoints c) = []" "\<exists>k. (k, None) \<in> set (entries (placements c))"
    using get_cell_endpoints_total [of c] by fastforce+
  then have "\<not> valid_config c" by (fastforce simp: valid_config_def)
  with Panic show ?thesis by (auto simp: validate_def)
next
  case (Ret eps)
  note facts = get_cell_endpoints_lookup [OF Ret assms] endpoint_keys [OF Ret assms]
    endpoint_urls [OF Ret assms] validate_table_None validate_urls_None validate_placements_None
  show ?thesis
    by (simp add: validate_Ret_None valid_config_def Ret facts)
qed

text \<open>
  Property C6. \<open>Validate\<close> returns the nil error exactly for the well-formed configurations:
  a version, a default placement and routing targets among the endpoints, parsable endpoint
  URLs, and placements that are not nil, fall back to endpoints and carry parsable durations. In
  particular acceptance does not depend on the order in which the map loops run. A URL is parsable when
  \<open>url.Parse\<close> takes it: scheme and host are not looked at, so the rule of \<open>docs/milestones/milestone-2.md\<close> that endpoints
  are HTTP or HTTPS URLs is not enforced (\<open>validate_accepts_any_scheme\<close>).
\<close>

theorem validate_iff_valid:
  assumes "config_wf c"
  shows "validate c = Ret None \<longleftrightarrow> valid_config c"
  by (rule validate_iff [OF assms])

text \<open>Configurations of both formats, cut down from \<open>config/routing.json\<close> and \<open>config/routing-m4.json\<close>.\<close>

definition sample_legacy :: config where
  "sample_legacy = \<lparr>version = ''1.0.0'',
     routing_table = Some [(''acme'', ''tier1''), (''visa'', ''visa'')],
     cell_endpoints = Some [(''tier1'', ''http://cell-tier1:9001''), (''tier3'', ''http://cell-tier3:9003''),
       (''visa'', ''http://cell-visa:9004'')],
     placements = None, default_placement = ''tier3''\<rparr>"

definition sample_health :: health_check_config where
  "sample_health = \<lparr>hc_path = ''/health'', hc_interval = ''10s'', hc_timeout = ''2s''\<rparr>"

definition sample_placement :: "string \<Rightarrow> string \<Rightarrow> int \<Rightarrow> placement_config" where
  "sample_placement url fallback limit = \<lparr>pl_url = url, pl_fallback = fallback,
     pl_health_check = Some sample_health,
     pl_circuit_breaker = Some \<lparr>cb_failure_threshold = 3, cb_timeout = ''60s''\<rparr>,
     pl_concurrency_limit = limit, pl_max_request_body_bytes = 1000\<rparr>"

definition sample_m4 :: config where
  "sample_m4 = \<lparr>version = ''2.0.0'',
     routing_table = Some [(''acme'', ''tier1''), (''visa'', ''visa'')],
     cell_endpoints = None,
     placements = Some [(''tier1'', Some (sample_placement ''http://cell-tier1:9001'' ''tier3'' 100)),
       (''tier3'', Some (sample_placement ''http://cell-tier3:9003'' [] 200)),
       (''visa'', Some (sample_placement ''http://cell-visa:9004'' ''tier3'' 50))],
     default_placement = ''tier3''\<rparr>"

lemma config_wf_samples [simp]: "config_wf sample_legacy" "config_wf sample_m4"
  by (simp_all add: config_wf_def sample_legacy_def sample_m4_def)

lemma validate_samples [simp]: "validate sample_legacy = Ret None" "validate sample_m4 = Ret None"
  by (simp_all add: validate_def sample_legacy_def sample_m4_def get_cell_endpoints_def
      sample_placement_def sample_health_def validate_placement_def parse_health_check_def
      parse_circuit_breaker_def duration_eval url_eval)

theorem validate_iff_valid_witness: "config_wf sample_m4 \<and> valid_config sample_m4"
  using validate_iff_valid [of sample_m4] by simp

text \<open>An empty endpoint URL, one without a scheme and one of another scheme are accepted.\<close>

lemma validate_accepts_any_scheme:
  "validate (sample_legacy\<lparr>cell_endpoints := Some [(''tier1'', []), (''tier3'', ''cell-tier3''), (''visa'', ''ftp://cell-visa'')]\<rparr>)
    = Ret None"
  by (simp add: validate_def sample_legacy_def get_cell_endpoints_def duration_eval url_eval)

section \<open>Errors and panics of validation\<close>

text \<open>What each error asserts about the configuration.\<close>

fun error_holds :: "config \<Rightarrow> config_error \<Rightarrow> bool" where
  "error_holds c Version_Empty \<longleftrightarrow> version c = []"
| "error_holds c (Default_Not_Found d) \<longleftrightarrow> d = default_placement c \<and> endpoint_of c d = None"
| "error_holds c (Unknown_Placement rk pk) \<longleftrightarrow>
     (rk, pk) \<in> set (entries (routing_table c)) \<and> endpoint_of c pk = None"
| "error_holds c (Invalid_URL k e) \<longleftrightarrow> (\<exists>u. endpoint_of c k = Some u \<and> parse_url u = Inl e)"
| "error_holds c (Unknown_Fallback k f) \<longleftrightarrow>
     (\<exists>p. (k, Some p) \<in> set (entries (placements c)) \<and> pl_fallback p = f)
     \<and> f \<noteq> [] \<and> endpoint_of c f = None"
| "error_holds c (In_Placement k e) \<longleftrightarrow> (\<exists>p. (k, Some p) \<in> set (entries (placements c))
     \<and> ((\<exists>h. pl_health_check p = Some h \<and> parse_health_check h = Inl e)
        \<or> (\<exists>cb. pl_circuit_breaker p = Some cb \<and> parse_circuit_breaker cb = Inl e)))"
| "error_holds c _ \<longleftrightarrow> False"

lemma validate_table_Some:
  "validate_table eps es = Some e \<Longrightarrow> \<exists>rk pk. (rk, pk) \<in> set es \<and> lookup eps pk = None \<and> e = Unknown_Placement rk pk"
  by (induction eps es rule: validate_table.induct) (auto split: if_splits)

lemma validate_urls_Some:
  "validate_urls es = Some e \<Longrightarrow> \<exists>k u e'. (k, u) \<in> set es \<and> parse_url u = Inl e' \<and> e = Invalid_URL k e'"
  by (induction es rule: validate_urls.induct) (auto split: sum.splits)

lemma validate_placements_Some:
  "validate_placements eps ps = Ret (Some e) \<Longrightarrow>
   \<exists>k p. (k, Some p) \<in> set ps \<and> validate_placement eps k p = Some e"
  by (induction eps ps rule: validate_placements.induct) (auto split: option.splits)

lemma validate_placement_holds:
  assumes "validate_placement eps k p = Some e" "(k, Some p) \<in> set (entries (placements c))"
    and "\<And>j. lookup eps j = endpoint_of c j"
  shows "error_holds c e"
  using assms by (auto simp: validate_placement_def split: if_splits option.splits sum.splits) (blast+)

text \<open>
  Property C34. An error that \<open>Validate\<close> returns is true of the configuration: it names an
  offending entry and that entry does offend.
\<close>

theorem validate_error_holds:
  assumes "config_wf c" "validate c = Ret (Some e)"
  shows "error_holds c e"
proof (cases "version c = []")
  case True
  with assms(2) show ?thesis by (simp add: validate_def)
next
  case False
  with assms(2) obtain eps where eps: "get_cell_endpoints c = Ret eps"
    by (auto simp: validate_def)
  note lk = get_cell_endpoints_lookup [OF eps assms(1)]
  note wf = get_cell_endpoints_wf [OF eps assms(1)]
  have "lookup eps (default_placement c) = None \<and> e = Default_Not_Found (default_placement c)
    \<or> validate_table eps (entries (routing_table c)) = Some e
    \<or> validate_urls (entries eps) = Some e
    \<or> validate_placements eps (entries (placements c)) = Ret (Some e)"
    using False assms(2) eps by (simp add: validate_def split: if_split_asm option.split_asm)
  then consider
      (dflt) "lookup eps (default_placement c) = None" "e = Default_Not_Found (default_placement c)"
    | (table) "validate_table eps (entries (routing_table c)) = Some e"
    | (urls) "validate_urls (entries eps) = Some e"
    | (pls) "validate_placements eps (entries (placements c)) = Ret (Some e)"
    by metis
  then show ?thesis
  proof cases
    case dflt
    with lk show ?thesis by simp
  next
    case table
    from validate_table_Some [OF this] lk show ?thesis by auto
  next
    case urls
    from validate_urls_Some [OF this] obtain k u e'
      where u: "(k, u) \<in> set (entries eps)" "parse_url u = Inl e'" "e = Invalid_URL k e'" by blast
    with in_entries_lookup [OF wf u(1)] lk show ?thesis by simp
  next
    case pls
    from validate_placements_Some [OF this] obtain k p
      where p: "(k, Some p) \<in> set (entries (placements c))" "validate_placement eps k p = Some e" by blast
    show ?thesis by (rule validate_placement_holds [OF p(2,1) lk])
  qed
qed

theorem validate_error_holds_witness:
  "error_holds (sample_legacy\<lparr>default_placement := ''tier9''\<rparr>) (Default_Not_Found ''tier9'')"
proof -
  have wf: "config_wf (sample_legacy\<lparr>default_placement := ''tier9''\<rparr>)"
    by (simp add: config_wf_def sample_legacy_def)
  have "validate (sample_legacy\<lparr>default_placement := ''tier9''\<rparr>) = Ret (Some (Default_Not_Found ''tier9''))"
    by (simp add: validate_def sample_legacy_def get_cell_endpoints_def)
  from validate_error_holds [OF wf this] show ?thesis .
qed

lemma collect_urls_Panic:
  "collect_urls ps acc = Panic q \<longleftrightarrow> q = Nil_Deref \<and> (\<exists>k. (k, None) \<in> set ps)"
  by (induction ps acc rule: collect_urls.induct) auto

lemma get_cell_endpoints_Panic:
  "get_cell_endpoints c = Panic q \<longleftrightarrow>
   q = Nil_Deref \<and> entries (cell_endpoints c) = [] \<and> (\<exists>k. (k, None) \<in> set (entries (placements c)))"
proof (cases "collect_urls (entries (placements c)) []")
  case (Ret es)
  then show ?thesis by (auto simp: get_cell_endpoints_def dest: collect_urls_Ret)
next
  case (Panic q')
  then have "q' = Nil_Deref" "\<exists>k. (k, None) \<in> set (entries (placements c))"
    by (simp_all add: collect_urls_Panic)
  with Panic show ?thesis by (auto simp: get_cell_endpoints_def simp del: collect_urls.simps)
qed

text \<open>
  Property C35. A configuration in the placements format with a version and a null placement
  does not fail validation, it panics: the endpoints are read from every placement before any
  check, through a nil pointer. (Every other configuration of this format returns.)
\<close>

theorem validate_panics_on_null_placement:
  assumes "entries (cell_endpoints c) = []" "config_wf c"
  shows "validate c = Panic Nil_Deref \<longleftrightarrow>
    version c \<noteq> [] \<and> (\<exists>k. (k, None) \<in> set (entries (placements c)))"
proof -
  have no: "validate_placements eps ps \<noteq> Panic q" if "\<forall>(k, p) \<in> set ps. p \<noteq> None" for eps ps q
    using that by (induction eps ps rule: validate_placements.induct) (auto split: option.splits)
  show ?thesis
  proof (cases "get_cell_endpoints c")
    case (Panic q)
    with assms(1) show ?thesis
      using get_cell_endpoints_Panic [of c q] by (auto simp: validate_def)
  next
    case (Ret eps)
    then have "\<forall>(k, p) \<in> set (entries (placements c)). p \<noteq> None"
      using assms(1) get_cell_endpoints_total [of c] by auto
    with Ret show ?thesis
      using no by (auto simp: validate_def split: option.splits)
  qed
qed

theorem validate_panics_on_null_placement_witness:
  "validate (sample_m4\<lparr>placements := Some [(''tier1'', None)]\<rparr>) = Panic Nil_Deref"
proof -
  let ?c = "sample_m4\<lparr>placements := Some [(''tier1'', None)]\<rparr>"
  have e: "entries (cell_endpoints ?c) = []" and wf: "config_wf ?c"
    by (simp_all add: sample_m4_def config_wf_def)
  show ?thesis
    by (subst validate_panics_on_null_placement [OF e wf]) (simp add: sample_m4_def)
qed

end
