(* ===== verification/Routing.thy ===== *)
theory Routing
  imports Config
begin

text \<open>
  \<open>internal/routing/router.go\<close>: the routing decision. A \<open>ConfigProvider\<close> is three getters over
  a provider state; \<open>Route\<close> calls them one after the other, so each call has the provider
  state of its own moment. The locale \<open>config_provider\<close> states what a provider must promise for the
  decision to be right, and is interpreted on the static provider.
\<close>

section \<open>Providers and decisions\<close>

record 's provider =
  get_table :: "'s \<Rightarrow> (string, string) gomap outcome"
  get_endpoints :: "'s \<Rightarrow> (string, string) gomap outcome"
  get_default :: "'s \<Rightarrow> string outcome"

datatype route_reason = Reason_Dedicated | Reason_Tier | Reason_Default

fun reason_text :: "route_reason \<Rightarrow> string" where
  "reason_text Reason_Dedicated = ''dedicated''"
| "reason_text Reason_Tier = ''tier''"
| "reason_text Reason_Default = ''default''"

record routing_decision =
  placement_key :: string
  reason :: route_reason
  endpoint_url :: string

datatype route_error = No_Endpoint string

definition is_tier :: "string \<Rightarrow> bool" where
  "is_tier pk \<longleftrightarrow> pk = ''tier1'' \<or> pk = ''tier2'' \<or> pk = ''tier3''"

definition determine_reason :: "string \<Rightarrow> string \<Rightarrow> bool \<Rightarrow> route_reason" where
  "determine_reason key pk found =
     (if \<not> found \<or> key = [] then Reason_Default
      else if is_tier pk then Reason_Tier else Reason_Dedicated)"

text \<open>The decision on the three values read.\<close>

definition decide ::
    "(string, string) gomap \<Rightarrow> (string, string) gomap \<Rightarrow> string \<Rightarrow> string \<Rightarrow> route_error + routing_decision" where
  "decide table eps dflt key =
     (let found = (lookup table key \<noteq> None);
          pk0 = (case lookup table key of None \<Rightarrow> [] | Some p \<Rightarrow> p);
          pk = (if \<not> found \<or> key = [] then dflt else pk0);
          r = determine_reason key pk found
      in case lookup eps pk of None \<Rightarrow> Inl (No_Endpoint pk)
         | Some url \<Rightarrow> Inr \<lparr>placement_key = pk, reason = r, endpoint_url = url\<rparr>)"

text \<open>\<open>Route\<close>: the provider is in state \<open>s1\<close>, \<open>s2\<close>, \<open>s3\<close> when the three getters run.\<close>

definition route ::
    "'s provider \<Rightarrow> 's \<Rightarrow> 's \<Rightarrow> 's \<Rightarrow> string \<Rightarrow> (route_error + routing_decision) outcome" where
  "route P s1 s2 s3 key =
     obind (get_table P s1) (\<lambda>table.
     obind (get_endpoints P s2) (\<lambda>eps.
     obind (get_default P s3) (\<lambda>dflt. Ret (decide table eps dflt key))))"

record static_config =
  sc_routing_table :: "(string, string) gomap"
  sc_cell_endpoints :: "(string, string) gomap"
  sc_default_placement :: string

definition static_provider :: "static_config provider" where
  "static_provider = \<lparr>get_table = (\<lambda>s. Ret (sc_routing_table s)),
     get_endpoints = (\<lambda>s. Ret (sc_cell_endpoints s)),
     get_default = (\<lambda>s. Ret (sc_default_placement s))\<rparr>"

text \<open>\<open>NewRouterWithMaps\<close>: a router over maps that never change.\<close>

definition new_router_with_maps ::
    "(string, string) gomap \<Rightarrow> (string, string) gomap \<Rightarrow> string \<Rightarrow> static_config" where
  "new_router_with_maps table eps dflt =
     \<lparr>sc_routing_table = table, sc_cell_endpoints = eps, sc_default_placement = dflt\<rparr>"

section \<open>The decision\<close>

text \<open>
  The specification: a placement for every key (its entry of the table, or the default for
  an unknown or empty key), a reason that tells these cases apart, and the endpoint of the placement.
\<close>

definition placement_for :: "(string, string) gomap \<Rightarrow> string \<Rightarrow> string \<Rightarrow> string" where
  "placement_for table dflt key =
     (case lookup table key of Some pk \<Rightarrow> if key = [] then dflt else pk | None \<Rightarrow> dflt)"

definition reason_for :: "(string, string) gomap \<Rightarrow> string \<Rightarrow> route_reason" where
  "reason_for table key =
     (case lookup table key of None \<Rightarrow> Reason_Default
      | Some pk \<Rightarrow> if key = [] then Reason_Default
          else if pk \<in> {''tier1'', ''tier2'', ''tier3''} then Reason_Tier else Reason_Dedicated)"

lemma decide_spec:
  "decide table eps dflt key =
     (case lookup eps (placement_for table dflt key) of
        None \<Rightarrow> Inl (No_Endpoint (placement_for table dflt key))
      | Some url \<Rightarrow> Inr \<lparr>placement_key = placement_for table dflt key,
          reason = reason_for table key, endpoint_url = url\<rparr>)"
  by (auto simp: decide_def placement_for_def reason_for_def determine_reason_def is_tier_def Let_def
      split: option.splits)

lemma placement_for_cases:
  "placement_for table dflt key = dflt \<or> (key, placement_for table dflt key) \<in> set (entries table)"
  by (auto simp: placement_for_def dest: lookup_in_entries split: option.splits)

text \<open>A table whose targets, and a default that, have endpoints never makes a decision fail.\<close>

lemma decide_total:
  assumes "lookup eps dflt \<noteq> None" "\<And>k p. (k, p) \<in> set (entries table) \<Longrightarrow> lookup eps p \<noteq> None"
  shows "\<exists>d. decide table eps dflt key = Inr d"
  using assms placement_for_cases [of table dflt key]
  by (fastforce simp: decide_spec split: option.splits)

section \<open>The provider interface\<close>

text \<open>
  What \<open>Route\<close> needs of a provider that stays in one state: the getters return, and every
  placement they name has an endpoint.
\<close>

locale config_provider =
  fixes P :: "'s provider" and inv :: "'s \<Rightarrow> bool"
    and table :: "'s \<Rightarrow> (string, string) gomap" and eps :: "'s \<Rightarrow> (string, string) gomap"
    and dflt :: "'s \<Rightarrow> string"
  assumes table_law: "inv s \<Longrightarrow> get_table P s = Ret (table s)"
    and endpoints_law: "inv s \<Longrightarrow> get_endpoints P s = Ret (eps s)"
    and default_law: "inv s \<Longrightarrow> get_default P s = Ret (dflt s)"
    and default_closed: "inv s \<Longrightarrow> lookup (eps s) (dflt s) \<noteq> None"
    and table_closed: "inv s \<Longrightarrow> (k, p) \<in> set (entries (table s)) \<Longrightarrow> lookup (eps s) p \<noteq> None"
begin

lemma route_eq:
  "inv s1 \<Longrightarrow> inv s2 \<Longrightarrow> inv s3 \<Longrightarrow> route P s1 s2 s3 key = Ret (decide (table s1) (eps s2) (dflt s3) key)"
  by (simp add: route_def table_law endpoints_law default_law)

lemma route_stable_total:
  assumes "inv s"
  shows "\<exists>d. route P s s s key = Ret (Inr d)
    \<and> placement_key d = placement_for (table s) (dflt s) key
    \<and> reason d = reason_for (table s) key
    \<and> lookup (eps s) (placement_key d) = Some (endpoint_url d)"
proof -
  obtain d where d: "decide (table s) (eps s) (dflt s) key = Inr d"
    using decide_total [of "eps s" "dflt s" "table s"] default_closed [OF assms] table_closed [OF assms]
    by blast
  then have "placement_key d = placement_for (table s) (dflt s) key \<and> reason d = reason_for (table s) key
      \<and> lookup (eps s) (placement_key d) = Some (endpoint_url d)"
    by (auto simp: decide_spec split: option.splits)
  moreover have "route P s s s key = Ret (Inr d)" by (simp add: route_eq assms d)
  ultimately show ?thesis by blast
qed

end

definition static_closed :: "static_config \<Rightarrow> bool" where
  "static_closed s \<longleftrightarrow> lookup (sc_cell_endpoints s) (sc_default_placement s) \<noteq> None
     \<and> (\<forall>(k, p) \<in> set (entries (sc_routing_table s)). lookup (sc_cell_endpoints s) p \<noteq> None)"

interpretation static: config_provider static_provider static_closed
    sc_routing_table sc_cell_endpoints sc_default_placement
  by unfold_locales (auto simp: static_provider_def static_closed_def)

text \<open>
  Over fixed maps that are closed (the default and all targets have endpoints),
  \<open>Route\<close> returns a decision for every key, the empty and the unknown ones included: the
  placement of the table or the default, the reason that distinguishes them, and the placement's endpoint.
\<close>

theorem route_static_total:
  assumes "static_closed s"
  shows "\<exists>d. route static_provider s s s key = Ret (Inr d)
    \<and> placement_key d = placement_for (sc_routing_table s) (sc_default_placement s) key
    \<and> reason d = reason_for (sc_routing_table s) key
    \<and> lookup (sc_cell_endpoints s) (placement_key d) = Some (endpoint_url d)"
  by (rule static.route_stable_total [OF assms])

definition sample_static :: static_config where
  "sample_static = new_router_with_maps (Some [(''acme'', ''tier1''), (''visa'', ''visa'')])
     (Some [(''tier1'', ''http://cell-tier1:9001''), (''tier3'', ''http://cell-tier3:9003''),
       (''visa'', ''http://cell-visa:9004'')]) ''tier3''"

theorem route_static_total_witness:
  "\<exists>d. route static_provider sample_static sample_static sample_static ''visa'' = Ret (Inr d)
    \<and> placement_key d = ''visa'' \<and> reason d = Reason_Dedicated"
proof -
  have "static_closed sample_static"
    by (simp add: static_closed_def sample_static_def new_router_with_maps_def)
  from route_static_total [OF this, of "''visa''"] show ?thesis
    by (auto simp: sample_static_def new_router_with_maps_def placement_for_def reason_for_def)
qed

end
