(* ===== verification/Logging.thy ===== *)
theory Logging
  imports Prelude
begin

text \<open>
  \<open>internal/logging/logger.go\<close>: the structured log. A line is the JSON object the logger
  prints, kept as its fields; the components return the lines they write. \<open>Log_Text\<close> prints them.
\<close>

text \<open>Values of log fields; \<open>Log_Millis\<close> carries the microseconds a duration in milliseconds was made of.\<close>

datatype log_value = Log_Str string | Log_Int int | Log_Time instant | Log_Millis int

type_synonym log_fields = "(string \<times> log_value) list"
type_synonym log_line = log_fields

text \<open>The loop \<open>for k, v := range fields { logData[k] = v }\<close>.\<close>

fun add_fields :: "log_fields \<Rightarrow> log_fields \<Rightarrow> log_fields" where
  "add_fields line [] = line"
| "add_fields line ((k, v) # fs) = add_fields (AList.update k v line) fs"

definition log_info :: "instant \<Rightarrow> string \<Rightarrow> log_fields \<Rightarrow> log_line" where
  "log_info now msg fs =
     add_fields [(''timestamp'', Log_Time now), (''level'', Log_Str ''info''), (''message'', Log_Str msg)]
       fs"

definition log_error :: "instant \<Rightarrow> string \<Rightarrow> string option \<Rightarrow> log_fields \<Rightarrow> log_line" where
  "log_error now msg err fs =
     (let base = [(''timestamp'', Log_Time now), (''level'', Log_Str ''error''), (''message'', Log_Str msg)];
          line = (case err of None \<Rightarrow> base | Some e \<Rightarrow> AList.update ''error'' (Log_Str e) base)
      in add_fields line fs)"

record request_log =
  rl_request_id :: string
  rl_method :: string
  rl_path :: string
  rl_routing_key :: string
  rl_placement_key :: string
  rl_route_reason :: string
  rl_upstream_url :: string
  rl_status_code :: int
  rl_duration_us :: int

text \<open>\<open>routing_key\<close> is \<open>omitempty\<close>.\<close>

definition log_request :: "instant \<Rightarrow> request_log \<Rightarrow> log_line" where
  "log_request now r =
     [(''timestamp'', Log_Time now), (''request_id'', Log_Str (rl_request_id r)),
      (''method'', Log_Str (rl_method r)), (''path'', Log_Str (rl_path r))]
     @ (if rl_routing_key r = [] then [] else [(''routing_key'', Log_Str (rl_routing_key r))])
     @ [(''placement_key'', Log_Str (rl_placement_key r)), (''route_reason'', Log_Str (rl_route_reason r)),
        (''upstream_url'', Log_Str (rl_upstream_url r)), (''status_code'', Log_Int (rl_status_code r)),
        (''duration_ms'', Log_Millis (rl_duration_us r))]"

definition log_field :: "log_line \<Rightarrow> string \<Rightarrow> log_value option" where
  "log_field line k = map_of line k"

lemma map_of_add_fields:
  "map_of (add_fields line fs) k = (case map_of (rev fs) k of Some v \<Rightarrow> Some v | None \<Rightarrow> map_of line k)"
  by (induction line fs rule: add_fields.induct) (auto simp: update_conv' map_add_def split: option.splits)

text \<open>A caller's field wins over the logger's own fields of the same name.\<close>

lemma log_info_field:
  "log_field (log_info now msg fs) k =
     (case map_of (rev fs) k of Some v \<Rightarrow> Some v
      | None \<Rightarrow> map_of [(''timestamp'', Log_Time now), (''level'', Log_Str ''info''), (''message'', Log_Str msg)] k)"
  by (simp add: log_info_def log_field_def map_of_add_fields)

lemma log_error_field:
  "log_field (log_error now msg err fs) k =
     (case map_of (rev fs) k of Some v \<Rightarrow> Some v
      | None \<Rightarrow> if k = ''error'' then map_option Log_Str err
          else map_of [(''timestamp'', Log_Time now), (''level'', Log_Str ''error''), (''message'', Log_Str msg)] k)"
  by (simp add: log_error_def Let_def log_field_def map_of_add_fields split: option.splits)

end
