(* ===== verification/Circuit.thy ===== *)
theory Circuit
  imports Logging
begin

text \<open>
  \<open>internal/circuit/breaker.go\<close>: the circuit breaker of one placement and the manager that
  creates one breaker per placement. The mutex makes every method atomic, so a method is
  a function on the breaker; the log lines it writes are part of its result. The locale
  \<open>circuit_breaker\<close> is the contract (a three-state machine with a count and a retry time) and holds the
  facts its clients use; the model of the code is an interpretation of it.
\<close>

section \<open>The breaker\<close>

datatype cb_state = State_Closed | State_Open | State_Half_Open

fun state_text :: "cb_state \<Rightarrow> string" where
  "state_text State_Closed = ''closed''"
| "state_text State_Open = ''open''"
| "state_text State_Half_Open = ''half_open''"

record breaker_config =
  failure_threshold :: "32 word"
  open_timeout :: duration

record breaker =
  br_placement :: string
  br_config :: breaker_config
  br_state :: cb_state
  br_failures :: "32 word"
  br_last_change :: instant
  br_next_retry :: instant

definition new_breaker :: "clock \<Rightarrow> string \<Rightarrow> breaker_config \<Rightarrow> breaker" where
  "new_breaker clk pk cfg = \<lparr>br_placement = pk, br_config = cfg, br_state = State_Closed,
     br_failures = 0, br_last_change = clk 0, br_next_retry = 0\<rparr>"

text \<open>The clock is read for the change, for the field of the line and by the logger.\<close>

definition transition_to ::
    "instant \<Rightarrow> instant \<Rightarrow> instant \<Rightarrow> cb_state \<Rightarrow> string \<Rightarrow> breaker \<Rightarrow> breaker \<times> log_line list" where
  "transition_to t1 t2 t3 new why b =
     (if br_state b = new then (b, [])
      else (b\<lparr>br_state := new, br_last_change := t1\<rparr>,
        [log_info t3
          (''circuit breaker state transition: '' @ state_text (br_state b) @ '' -> '' @ state_text new)
          [(''placement'', Log_Str (br_placement b)), (''old_state'', Log_Str (state_text (br_state b))),
           (''new_state'', Log_Str (state_text new)), (''failures'', Log_Int (uint (br_failures b))),
           (''reason'', Log_Str why), (''timestamp'', Log_Int (unix_seconds t2))]]))"

definition allow :: "clock \<Rightarrow> breaker \<Rightarrow> bool \<times> breaker \<times> log_line list" where
  "allow clk b =
     (case br_state b of
        State_Closed \<Rightarrow> (True, b, [])
      | State_Open \<Rightarrow>
          if br_next_retry b < clk 0
            then (True, transition_to (clk 1) (clk 2) (clk 3) State_Half_Open ''timeout_elapsed'' b)
          else (False, b, [])
      | State_Half_Open \<Rightarrow> (True, b, []))"

definition record_success :: "clock \<Rightarrow> breaker \<Rightarrow> breaker \<times> log_line list" where
  "record_success clk b =
     (case br_state b of
        State_Closed \<Rightarrow> (b\<lparr>br_failures := 0\<rparr>, [])
      | State_Half_Open \<Rightarrow>
          transition_to (clk 0) (clk 1) (clk 2) State_Closed ''recovery_successful'' (b\<lparr>br_failures := 0\<rparr>)
      | State_Open \<Rightarrow> (b, []))"

definition record_failure :: "clock \<Rightarrow> breaker \<Rightarrow> breaker \<times> log_line list" where
  "record_failure clk b0 =
     (let b = b0\<lparr>br_failures := br_failures b0 + 1\<rparr>
      in case br_state b of
        State_Closed \<Rightarrow>
          if failure_threshold (br_config b) \<le> br_failures b
            then transition_to (clk 1) (clk 2) (clk 3) State_Open
              (''failure_threshold_reached: '' @ show_nat (unat (br_failures b)))
              (b\<lparr>br_next_retry := clk 0 + open_timeout (br_config b)\<rparr>)
          else (b, [])
      | State_Half_Open \<Rightarrow>
          transition_to (clk 1) (clk 2) (clk 3) State_Open ''half_open_failure''
            (b\<lparr>br_next_retry := clk 0 + open_timeout (br_config b)\<rparr>)
      | State_Open \<Rightarrow> (b, []))"

definition get_state :: "breaker \<Rightarrow> cb_state" where
  "get_state b = br_state b"

definition get_failure_count :: "breaker \<Rightarrow> 32 word" where
  "get_failure_count b = br_failures b"

section \<open>The manager\<close>

record circuit_manager =
  cm_breakers :: "breaker store"
  cm_config :: breaker_config

definition new_circuit_manager :: "breaker_config \<Rightarrow> circuit_manager" where
  "new_circuit_manager cfg = \<lparr>cm_breakers = st_empty, cm_config = cfg\<rparr>"

text \<open>
  \<open>GetBreaker\<close> takes the read lock, and the write lock only when it found nothing; another call
  may run in between, which is why the second half looks again.
\<close>

definition get_breaker_read :: "string \<Rightarrow> circuit_manager \<Rightarrow> nat option" where
  "get_breaker_read pk m = st_ref (cm_breakers m) pk"

definition get_breaker_write :: "clock \<Rightarrow> string \<Rightarrow> circuit_manager \<Rightarrow> nat \<times> circuit_manager" where
  "get_breaker_write clk pk m =
     (case st_ref (cm_breakers m) pk of Some r \<Rightarrow> (r, m)
      | None \<Rightarrow> (length (cells (cm_breakers m)),
          m\<lparr>cm_breakers := st_bind pk (new_breaker clk pk (cm_config m)) (cm_breakers m)\<rparr>))"

definition get_breaker :: "clock \<Rightarrow> string \<Rightarrow> circuit_manager \<Rightarrow> nat \<times> circuit_manager" where
  "get_breaker clk pk m =
     (case get_breaker_read pk m of Some r \<Rightarrow> (r, m) | None \<Rightarrow> get_breaker_write clk pk m)"

definition remove_breaker :: "string \<Rightarrow> circuit_manager \<Rightarrow> circuit_manager" where
  "remove_breaker pk m = m\<lparr>cm_breakers := st_unbind pk (cm_breakers m)\<rparr>"

section \<open>The contract: a three-state machine\<close>

text \<open>
  The abstract breaker: closed with the number of failures since the last success, open
  until an instant, or half open.
\<close>

datatype machine = Closed nat | Open instant | Half_Open

fun machine_allows :: "instant \<Rightarrow> machine \<Rightarrow> bool" where
  "machine_allows now (Open t) \<longleftrightarrow> t < now"
| "machine_allows now _ \<longleftrightarrow> True"

fun machine_allow :: "instant \<Rightarrow> machine \<Rightarrow> machine" where
  "machine_allow now (Open t) = (if t < now then Half_Open else Open t)"
| "machine_allow now m = m"

fun machine_success :: "machine \<Rightarrow> machine" where
  "machine_success (Open t) = Open t"
| "machine_success _ = Closed 0"

fun machine_failure :: "nat \<Rightarrow> duration \<Rightarrow> instant \<Rightarrow> machine \<Rightarrow> machine" where
  "machine_failure th d now (Closed n) = (if th \<le> n + 1 then Open (now + d) else Closed (n + 1))"
| "machine_failure th d now Half_Open = Open (now + d)"
| "machine_failure th d now (Open t) = Open t"

text \<open>What a client does to a breaker.\<close>

datatype (discs_sels) event = Ask clock | Success clock | Failure clock

fun event_time :: "event \<Rightarrow> instant" where
  "event_time (Ask clk) = clk 0"
| "event_time (Success clk) = clk 0"
| "event_time (Failure clk) = clk 0"

fun machine_step :: "nat \<Rightarrow> duration \<Rightarrow> event \<Rightarrow> machine \<Rightarrow> machine" where
  "machine_step th d (Ask clk) m = machine_allow (clk 0) m"
| "machine_step th d (Success clk) m = machine_success m"
| "machine_step th d (Failure clk) m = machine_failure th d (clk 0) m"

fun client_step ::
    "(clock \<Rightarrow> 'b \<Rightarrow> bool \<times> 'b) \<Rightarrow> (clock \<Rightarrow> 'b \<Rightarrow> 'b) \<Rightarrow> (clock \<Rightarrow> 'b \<Rightarrow> 'b) \<Rightarrow> event \<Rightarrow> 'b \<Rightarrow> 'b" where
  "client_step ask success failure (Ask clk) b = snd (ask clk b)"
| "client_step ask success failure (Success clk) b = success clk b"
| "client_step ask success failure (Failure clk) b = failure clk b"

text \<open>The answers that the calls of \<open>Allow\<close> in a sequence of calls get, from the client's side and from the machine.\<close>

fun client_answers ::
    "(clock \<Rightarrow> 'b \<Rightarrow> bool \<times> 'b) \<Rightarrow> (clock \<Rightarrow> 'b \<Rightarrow> 'b) \<Rightarrow> (clock \<Rightarrow> 'b \<Rightarrow> 'b) \<Rightarrow> event list \<Rightarrow> 'b \<Rightarrow> bool list" where
  "client_answers ask success failure [] b = []"
| "client_answers ask success failure (e # es) b =
     (case e of Ask clk \<Rightarrow> [fst (ask clk b)] | _ \<Rightarrow> [])
     @ client_answers ask success failure es (client_step ask success failure e b)"

fun machine_answers :: "nat \<Rightarrow> duration \<Rightarrow> event list \<Rightarrow> machine \<Rightarrow> bool list" where
  "machine_answers th d [] m = []"
| "machine_answers th d (e # es) m =
     (case e of Ask clk \<Rightarrow> [machine_allows (clk 0) m] | _ \<Rightarrow> []) @ machine_answers th d es (machine_step th d e m)"

text \<open>The failures recorded since the last success: calls of \<open>Allow\<close> do not count.\<close>

definition failures_in_a_row :: "event list \<Rightarrow> nat" where
  "failures_in_a_row es = length (takeWhile is_Failure (rev (filter (\<lambda>e. \<not> is_Ask e) es)))"

lemma failures_in_a_row_Nil [simp]: "failures_in_a_row [] = 0"
  by (simp add: failures_in_a_row_def)

lemma failures_in_a_row_snoc [simp]:
  "failures_in_a_row (es @ [e]) = (if is_Ask e then failures_in_a_row es
     else if is_Failure e then Suc (failures_in_a_row es) else 0)"
  by (cases e) (simp_all add: failures_in_a_row_def)

text \<open>While the machine is closed, its count is the failures in a row, whatever it went through before.\<close>

lemma machine_count:
  "fold (machine_step th d) es (Closed 0) = Closed n \<Longrightarrow> n = failures_in_a_row es"
proof (induction es arbitrary: n rule: rev_induct)
  case (snoc e es)
  then show ?case
    by (cases "fold (machine_step th d) es (Closed 0)"; cases e) (auto split: if_splits)
qed simp

locale circuit_breaker =
  fixes ask :: "clock \<Rightarrow> 'b \<Rightarrow> bool \<times> 'b" and success :: "clock \<Rightarrow> 'b \<Rightarrow> 'b"
    and failure :: "clock \<Rightarrow> 'b \<Rightarrow> 'b" and view :: "'b \<Rightarrow> machine" and inv :: "'b \<Rightarrow> bool"
    and threshold :: "'b \<Rightarrow> nat" and cooldown :: "'b \<Rightarrow> duration"
  assumes ask_answer: "inv b \<Longrightarrow> fst (ask clk b) = machine_allows (clk 0) (view b)"
    and ask_view: "inv b \<Longrightarrow> view (snd (ask clk b)) = machine_allow (clk 0) (view b)"
    and success_view: "inv b \<Longrightarrow> view (success clk b) = machine_success (view b)"
    and failure_view: "inv b \<Longrightarrow>
      view (failure clk b) = machine_failure (threshold b) (cooldown b) (clk 0) (view b)"
    and kept_inv: "inv b \<Longrightarrow> inv (snd (ask clk b)) \<and> inv (success clk b) \<and> inv (failure clk b)"
    and kept_threshold: "threshold (snd (ask clk b)) = threshold b \<and> threshold (success clk b) = threshold b
      \<and> threshold (failure clk b) = threshold b"
    and kept_cooldown: "cooldown (snd (ask clk b)) = cooldown b \<and> cooldown (success clk b) = cooldown b
      \<and> cooldown (failure clk b) = cooldown b"
begin

abbreviation perform :: "event \<Rightarrow> 'b \<Rightarrow> 'b" where
  "perform \<equiv> client_step ask success failure"

lemma perform_inv: "inv b \<Longrightarrow> inv (perform e b)"
  using kept_inv by (cases e) auto

lemma perform_kept: "threshold (perform e b) = threshold b" "cooldown (perform e b) = cooldown b"
  using kept_threshold kept_cooldown by (cases e; auto)+

lemma perform_view: "inv b \<Longrightarrow> view (perform e b) = machine_step (threshold b) (cooldown b) e (view b)"
  by (cases e) (simp_all add: ask_view success_view failure_view)

lemma run_inv: "inv b \<Longrightarrow> inv (fold perform es b)"
  by (induction es arbitrary: b) (simp_all add: perform_inv)

lemma run_view:
  "inv b \<Longrightarrow> view (fold perform es b) = fold (machine_step (threshold b) (cooldown b)) es (view b)"
  by (induction es arbitrary: b) (simp_all add: perform_inv perform_kept perform_view)

lemma run_answers:
  "inv b \<Longrightarrow> client_answers ask success failure es b = machine_answers (threshold b) (cooldown b) es (view b)"
  by (induction es arbitrary: b) (simp_all add: perform_inv perform_kept perform_view ask_answer split: event.split)

lemma closed_count:
  assumes "inv b" "view b = Closed 0" "view (fold perform es b) = Closed n"
  shows "n = failures_in_a_row es"
  using machine_count [of "threshold b" "cooldown b" es n] assms by (simp add: run_view)

lemma opens_iff:
  assumes "inv b" "\<nexists>t. view b = Open t"
  shows "(\<exists>t. view (perform e b) = Open t)
    \<longleftrightarrow> is_Failure e \<and> (view b = Half_Open \<or> (\<exists>n. view b = Closed n \<and> threshold b \<le> n + 1))"
  using assms by (cases "view b"; cases e) (auto simp: ask_view success_view failure_view)

lemma stays_open:
  assumes "inv b" "view b = Open t" "\<forall>e \<in> set es. event_time e \<le> t"
  shows "view (fold perform es b) = Open t"
proof -
  have "fold (machine_step th d) es (Open t) = Open t" for th d
    using assms(3)
  proof (induction es)
    case (Cons e es)
    then show ?case by (cases e) auto
  qed simp
  with assms(1,2) show ?thesis by (simp add: run_view)
qed

lemma refuses_while_open:
  assumes "inv b" "view b = Open t" "\<forall>e \<in> set es. event_time e \<le> t" "clk 0 \<le> t"
  shows "\<not> fst (ask clk (fold perform es b))"
  using assms by (simp add: ask_answer run_inv stays_open)

end

section \<open>The code's breaker implements the contract\<close>

definition view :: "breaker \<Rightarrow> machine" where
  "view b = (case br_state b of State_Closed \<Rightarrow> Closed (unat (br_failures b))
     | State_Open \<Rightarrow> Open (br_next_retry b) | State_Half_Open \<Rightarrow> Half_Open)"

text \<open>A closed breaker has not reached its threshold (a threshold of 0 acts as 1), so the count never wraps there.\<close>

definition breaker_inv :: "breaker \<Rightarrow> bool" where
  "breaker_inv b \<longleftrightarrow> br_state b = State_Closed \<longrightarrow>
     br_failures b = 0 \<or> br_failures b < failure_threshold (br_config b)"

definition ask :: "clock \<Rightarrow> breaker \<Rightarrow> bool \<times> breaker" where
  "ask clk b = (case allow clk b of (ok, b', logs) \<Rightarrow> (ok, b'))"

definition success :: "clock \<Rightarrow> breaker \<Rightarrow> breaker" where
  "success clk b = fst (record_success clk b)"

definition failure :: "clock \<Rightarrow> breaker \<Rightarrow> breaker" where
  "failure clk b = fst (record_failure clk b)"

lemmas breaker_defs [op_defs] = ask_def allow_def success_def record_success_def failure_def
  record_failure_def transition_to_def Let_def

lemma breaker_config_kept [simp]:
  "br_config (snd (ask clk b)) = br_config b" "br_config (success clk b) = br_config b"
  "br_config (failure clk b) = br_config b"
  by (auto simp: breaker_defs split: cb_state.splits)

lemma breaker_placement_kept [simp]:
  "br_placement (snd (ask clk b)) = br_placement b" "br_placement (success clk b) = br_placement b"
  "br_placement (failure clk b) = br_placement b"
  by (auto simp: breaker_defs split: cb_state.splits)

lemma breaker_inv_no_wrap:
  fixes f th :: "32 word"
  assumes "f = 0 \<or> f < th"
  shows "unat (f + 1) = unat f + 1"
proof -
  have "unat f + 1 < 2 ^ 32"
  proof -
    have "unat th < 2 ^ 32" using unsigned_less [of th] by simp
    with assms show ?thesis by (auto simp: word_less_nat_alt)
  qed
  then show ?thesis by (simp add: unat_word_ariths)
qed

interpretation br: circuit_breaker ask success failure view breaker_inv
    "\<lambda>b. unat (failure_threshold (br_config b))" "\<lambda>b. open_timeout (br_config b)"
proof unfold_locales
  fix b clk
  assume inv: "breaker_inv b"
  show "fst (ask clk b) = machine_allows (clk 0) (view b)"
    and "view (snd (ask clk b)) = machine_allow (clk 0) (view b)"
    and "view (success clk b) = machine_success (view b)"
    by (auto simp: breaker_defs view_def split: cb_state.splits)
  show "view (failure clk b)
      = machine_failure (unat (failure_threshold (br_config b))) (open_timeout (br_config b)) (clk 0) (view b)"
    using inv breaker_inv_no_wrap [of "br_failures b" "failure_threshold (br_config b)"]
    by (auto simp: breaker_defs view_def breaker_inv_def word_le_nat_alt split: cb_state.splits)
  show "breaker_inv (snd (ask clk b)) \<and> breaker_inv (success clk b) \<and> breaker_inv (failure clk b)"
    using inv by (auto simp: breaker_defs breaker_inv_def split: cb_state.splits)
qed auto

lemma breaker_inv_new [simp]: "breaker_inv (new_breaker clk pk cfg)"
  by (simp add: new_breaker_def breaker_inv_def)

lemma view_new [simp]: "view (new_breaker clk pk cfg) = Closed 0"
  by (simp add: new_breaker_def view_def)

lemma new_breaker_fields [simp]:
  "br_config (new_breaker clk pk cfg) = cfg" "br_placement (new_breaker clk pk cfg) = pk"
  by (simp_all add: new_breaker_def)

definition use :: "event list \<Rightarrow> breaker \<Rightarrow> breaker" where
  "use es b = fold (client_step ask success failure) es b"

lemma view_Open_iff: "br_state b = State_Open \<longleftrightarrow> (\<exists>t. view b = Open t)"
  by (auto simp: view_def split: cb_state.splits)

definition answers :: "event list \<Rightarrow> breaker \<Rightarrow> bool list" where
  "answers es b = client_answers ask success failure es b"

lemma use_config [simp]: "br_config (use es b) = br_config b"
proof (induction es rule: rev_induct)
  case (snoc e es)
  then show ?case by (cases e) (simp_all add: use_def)
qed (simp add: use_def)

lemma use_snoc: "use (es @ [e]) b = use [e] (use es b)"
  by (simp add: use_def)

lemma use_inv: "breaker_inv b \<Longrightarrow> breaker_inv (use es b)"
  unfolding use_def by (rule br.run_inv)

text \<open>
  Property C7. Refinement: whatever calls a client makes to a new breaker, in whatever order and at whatever times,
  its calls of \<open>Allow\<close> get the answers that the three-state machine gives to the same calls, and the
  breaker ends in the state, with the count and the retry time, of the machine (the 32-bit counter and the
  bookkeeping of the code change nothing).
\<close>

theorem breaker_refines_machine:
  "answers es (new_breaker clk pk cfg)
      = machine_answers (unat (failure_threshold cfg)) (open_timeout cfg) es (Closed 0)
    \<and> view (use es (new_breaker clk pk cfg))
      = fold (machine_step (unat (failure_threshold cfg)) (open_timeout cfg)) es (Closed 0)"
  using br.run_view [of "new_breaker clk pk cfg" es] br.run_answers [of "new_breaker clk pk cfg" es]
  by (simp add: use_def answers_def)

text \<open>
  Property C22. When a breaker opens. After any calls whatever, those of \<open>Allow\<close> included: a closed breaker has
  counted the failures since the last success, and the next call opens a breaker that is not open
  exactly if it records a failure and either the breaker is half open or the failure completes a run as long as the
  threshold (one failure is enough for the thresholds 0 and 1).
\<close>

theorem breaker_opens_iff_run:
  fixes es e clk pk cfg
  defines "b \<equiv> use es (new_breaker clk pk cfg)"
  shows "(get_state b = State_Closed \<longrightarrow> unat (get_failure_count b) = failures_in_a_row es)
    \<and> (get_state b \<noteq> State_Open \<longrightarrow> (get_state (use [e] b) = State_Open \<longleftrightarrow>
        is_Failure e \<and> (get_state b = State_Half_Open \<or> unat (failure_threshold cfg) \<le> failures_in_a_row es + 1)))"
proof -
  have inv: "breaker_inv b" by (simp add: b_def use_inv)
  have th: "unat (failure_threshold (br_config b)) = unat (failure_threshold cfg)" by (simp add: b_def)
  have count: "view b = Closed n \<Longrightarrow> n = failures_in_a_row es" for n
    using br.closed_count [of "new_breaker clk pk cfg" es n] by (simp add: b_def use_def)
  have opens: "(\<nexists>t. view b = Open t) \<Longrightarrow> (\<exists>t. view (use [e] b) = Open t) \<longleftrightarrow>
      is_Failure e \<and> (view b = Half_Open \<or> (\<exists>n. view b = Closed n \<and> unat (failure_threshold cfg) \<le> n + 1))"
    using br.opens_iff [OF inv, of e] by (simp add: use_def th)
  show ?thesis
    using count opens by (auto simp: view_Open_iff get_state_def get_failure_count_def) (auto simp: view_def split: cb_state.splits)
qed

definition sample_breaker_config :: breaker_config where
  "sample_breaker_config = \<lparr>failure_threshold = 2, open_timeout = 30 * second\<rparr>"

text \<open>One failure after a question does not open it, a second one does, and one alone does once it is half open.\<close>

theorem breaker_opens_iff_run_witness:
  "get_state (use [Failure (\<lambda>_. 9)] (use [Ask (\<lambda>_. 9)] (new_breaker (\<lambda>_. 1) ''visa'' sample_breaker_config))) \<noteq> State_Open
   \<and> get_state (use [Failure (\<lambda>_. 10)] (use [Success (\<lambda>_. 6), Failure (\<lambda>_. 7), Ask (\<lambda>_. 9)]
       (new_breaker (\<lambda>_. 1) ''visa'' sample_breaker_config))) = State_Open
   \<and> get_state (use [Failure (\<lambda>_. 40 * second)] (use [Failure (\<lambda>_. 5), Failure (\<lambda>_. 8), Ask (\<lambda>_. 31 * second)]
       (new_breaker (\<lambda>_. 1) ''visa'' sample_breaker_config))) = State_Open"
proof -
  let ?new = "new_breaker (\<lambda>_. 1) ''visa'' sample_breaker_config"
  note eval = use_def breaker_defs sample_breaker_config_def new_breaker_def get_state_def word_le_nat_alt
  have th: "unat (failure_threshold sample_breaker_config) = 2" by (simp add: sample_breaker_config_def)
  have s: "get_state (use [Success (\<lambda>_. 6), Failure (\<lambda>_. 7), Ask (\<lambda>_. 9)] ?new) = State_Closed"
    "get_state (use [Ask (\<lambda>_. 9)] ?new) = State_Closed"
    "get_state (use [Failure (\<lambda>_. 5), Failure (\<lambda>_. 8), Ask (\<lambda>_. 31 * second)] ?new) = State_Half_Open"
    by (simp_all add: eval)
  have n: "failures_in_a_row [Success (\<lambda>_. 6), Failure (\<lambda>_. 7), Ask (\<lambda>_. 9)] = 1" "failures_in_a_row [Ask (\<lambda>_. 9)] = 0"
    by (simp_all add: failures_in_a_row_def)
  show ?thesis
    using breaker_opens_iff_run [of "[Ask (\<lambda>_. 9)]" "\<lambda>_. 1" "''visa''" sample_breaker_config "Failure (\<lambda>_. 9)"]
      breaker_opens_iff_run [of "[Success (\<lambda>_. 6), Failure (\<lambda>_. 7), Ask (\<lambda>_. 9)]" "\<lambda>_. 1" "''visa''" sample_breaker_config "Failure (\<lambda>_. 10)"]
      breaker_opens_iff_run [of "[Failure (\<lambda>_. 5), Failure (\<lambda>_. 8), Ask (\<lambda>_. 31 * second)]" "\<lambda>_. 1" "''visa''" sample_breaker_config "Failure (\<lambda>_. 40 * second)"]
      s n th by simp
qed

text \<open>
  Property C21. An open breaker refuses every request until its retry time has passed, whatever
  results of earlier requests arrive meanwhile (they neither close it nor extend the time).
\<close>

theorem breaker_refuses_until_retry:
  assumes "breaker_inv b" "br_state b = State_Open"
    and "\<forall>e \<in> set es. event_time e \<le> br_next_retry b" "clk 0 \<le> br_next_retry b"
  shows "\<not> fst (allow clk (use es b)) \<and> br_state (use es b) = State_Open
    \<and> br_next_retry (use es b) = br_next_retry b"
proof -
  have v: "view b = Open (br_next_retry b)" using assms(2) by (simp add: view_def)
  have "view (use es b) = Open (br_next_retry b)"
    unfolding use_def by (rule br.stays_open [OF assms(1) v assms(3)])
  moreover have "\<not> fst (ask clk (use es b))"
    unfolding use_def by (rule br.refuses_while_open [where clk = clk, OF assms(1) v assms(3,4)])
  ultimately show ?thesis
    by (auto simp: ask_def view_def split: cb_state.splits prod.splits)
qed

definition sample_open_breaker :: breaker where
  "sample_open_breaker = use [Failure (\<lambda>_. 5), Failure (\<lambda>_. 8)] (new_breaker (\<lambda>_. 1) ''visa'' sample_breaker_config)"

lemma sample_open_breaker_fields [simp]:
  "breaker_inv sample_open_breaker" "br_state sample_open_breaker = State_Open"
  "br_next_retry sample_open_breaker = 30 * second + 8"
  by (simp_all add: sample_open_breaker_def use_def breaker_inv_def failure_def record_failure_def
      transition_to_def new_breaker_def sample_breaker_config_def Let_def word_le_nat_alt)

theorem breaker_refuses_until_retry_witness:
  "\<not> fst (allow (\<lambda>_. 100) (use [Success (\<lambda>_. 50), Failure (\<lambda>_. 60)] sample_open_breaker))"
proof -
  have "\<forall>e \<in> set [Success (\<lambda>_. 50), Failure (\<lambda>_. 60)]. event_time e \<le> br_next_retry sample_open_breaker"
    and "(\<lambda>_::nat. 100 :: int) 0 \<le> br_next_retry sample_open_breaker" by simp_all
  from breaker_refuses_until_retry [OF sample_open_breaker_fields(1,2) this] show ?thesis by simp
qed

text \<open>
  Once the retry time has passed the breaker admits the next request and turns
  half open; from then on it admits every further request as well, any number of them, until the
  result of one is recorded.
\<close>

theorem half_open_admits_all:
  assumes "br_state b = State_Open" "br_next_retry b < clk 0"
  shows "fst (allow clk b) \<and> br_state (snd (ask clk b)) = State_Half_Open
    \<and> (\<forall>cs clk'. fst (allow clk' (use (map Ask cs) (snd (ask clk b)))))"
proof -
  have half: "br_state (snd (ask clk b)) = State_Half_Open"
    using assms by (simp add: breaker_defs)
  have "use (map Ask cs) b' = b'" if "br_state b' = State_Half_Open" for cs b'
    using that by (induction cs) (simp_all add: use_def breaker_defs)
  with half assms show ?thesis
    by (simp add: allow_def)
qed

theorem half_open_admits_all_witness:
  "fst (allow (\<lambda>_. 31 * second) sample_open_breaker)
   \<and> fst (allow (\<lambda>_. 32 * second) (use (map Ask [\<lambda>_. 31 * second, \<lambda>_. 31 * second])
        (snd (ask (\<lambda>_. 31 * second) sample_open_breaker))))"
proof -
  have "br_state sample_open_breaker = State_Open" "br_next_retry sample_open_breaker < 31 * second"
    by simp_all
  from half_open_admits_all [where clk = "\<lambda>_. 31 * second", OF this] show ?thesis by blast
qed

definition edge :: "cb_state \<Rightarrow> event \<Rightarrow> cb_state \<Rightarrow> bool" where
  "edge s e t \<longleftrightarrow> (s, t) \<in> (if is_Ask e then {(State_Open, State_Half_Open)}
     else if is_Failure e then {(State_Closed, State_Open), (State_Half_Open, State_Open)}
     else {(State_Half_Open, State_Closed)})"

fun event_logs :: "event \<Rightarrow> breaker \<Rightarrow> log_line list" where
  "event_logs (Ask clk) b = snd (snd (allow clk b))"
| "event_logs (Success clk) b = snd (record_success clk b)"
| "event_logs (Failure clk) b = snd (record_failure clk b)"

text \<open>
  One call changes the state only along the edges closed to open (the threshold
  reached), open to half open (the retry time passed), half open to closed (a success) and half
  open to open (a failure), and it writes one log line exactly if it changes the state.
\<close>

theorem breaker_edges:
  "(br_state (use [e] b) = br_state b \<and> event_logs e b = [])
   \<or> (edge (br_state b) e (br_state (use [e] b)) \<and> length (event_logs e b) = 1
      \<and> log_field (hd (event_logs e b)) ''new_state'' = Some (Log_Str (state_text (br_state (use [e] b))))
      \<and> log_field (hd (event_logs e b)) ''old_state'' = Some (Log_Str (state_text (br_state b))))"
  by (cases e; cases "br_state b") (auto simp: use_def breaker_defs edge_def log_info_field)

section \<open>The manager's breakers\<close>

text \<open>The steps other goroutines can take on a manager; the last one is never taken by the router.\<close>

inductive manager_step :: "circuit_manager \<Rightarrow> circuit_manager \<Rightarrow> bool" where
  ms_get: "manager_step m (snd (get_breaker_write clk pk m))"
| ms_use: "r < length (cells (cm_breakers m)) \<Longrightarrow>
    manager_step m (m\<lparr>cm_breakers := st_write r (use [e] (cells (cm_breakers m) ! r)) (cm_breakers m)\<rparr>)"

inductive manager_admin_step :: "circuit_manager \<Rightarrow> circuit_manager \<Rightarrow> bool" where
  mas_step: "manager_step m m' \<Longrightarrow> manager_admin_step m m'"
| mas_remove: "manager_admin_step m (remove_breaker pk m)"

inductive_cases manager_stepE: "manager_step m m'"
inductive_cases manager_admin_stepE: "manager_admin_step m m'"

text \<open>Every placement has a breaker of its own, made for it, in a legal state.\<close>

definition manager_inv :: "circuit_manager \<Rightarrow> bool" where
  "manager_inv m \<longleftrightarrow> st_wf (cm_breakers m)
     \<and> (\<forall>b \<in> set (cells (cm_breakers m)). breaker_inv b)
     \<and> (\<forall>pk r. st_ref (cm_breakers m) pk = Some r \<longrightarrow> br_placement (cells (cm_breakers m) ! r) = pk)"

lemma manager_inv_new: "manager_inv (new_circuit_manager cfg)"
  by (simp add: manager_inv_def new_circuit_manager_def st_empty_def st_wf_def st_ref_def)

lemma use_placement [simp]: "br_placement (use [e] b) = br_placement b"
  by (cases e) (simp_all add: use_def)

lemma manager_inv_get: "manager_inv m \<Longrightarrow> manager_inv (snd (get_breaker_write clk pk m))"
  by (auto simp: manager_inv_def get_breaker_write_def st_ref_bind nth_append st_wf_def less_Suc_eq
      split: option.splits if_splits)

lemma manager_inv_use:
  assumes "manager_inv m" "r < length (cells (cm_breakers m))"
  shows "manager_inv (m\<lparr>cm_breakers := st_write r (use [e] (cells (cm_breakers m) ! r)) (cm_breakers m)\<rparr>)"
proof -
  let ?b = "use [e] (cells (cm_breakers m) ! r)"
  have "breaker_inv ?b" using assms by (intro use_inv) (auto simp: manager_inv_def)
  moreover have "set ((cells (cm_breakers m))[r := ?b]) \<subseteq> insert ?b (set (cells (cm_breakers m)))"
    by (rule set_update_subset_insert)
  ultimately show ?thesis
    using assms by (auto simp: manager_inv_def nth_list_update)
qed

lemma manager_step_inv: "manager_step m m' \<Longrightarrow> manager_inv m \<Longrightarrow> manager_inv m'"
  by (elim manager_stepE) (auto simp: manager_inv_get manager_inv_use)

lemma manager_admin_step_inv: "manager_admin_step m m' \<Longrightarrow> manager_inv m \<Longrightarrow> manager_inv m'"
  by (elim manager_admin_stepE)
    (auto simp: manager_step_inv, auto simp: manager_inv_def remove_breaker_def st_ref_unbind split: if_splits)

interpretation managers: invariant_system "\<lambda>m. \<exists>cfg. m = new_circuit_manager cfg"
    manager_admin_step manager_inv
  by unfold_locales (auto simp: manager_inv_new manager_admin_step_inv)

text \<open>
  Property C23. In every reachable manager the placements have breakers of their own: no two
  share one, each was created for the placement it is found under, and none that is closed has
  reached its threshold.
\<close>

theorem breakers_are_separate:
  assumes "reach (\<lambda>m. \<exists>cfg. m = new_circuit_manager cfg) manager_admin_step m"
    and "st_ref (cm_breakers m) p = Some r"
  shows "breaker_inv (cells (cm_breakers m) ! r) \<and> br_placement (cells (cm_breakers m) ! r) = p
    \<and> (\<forall>q. st_ref (cm_breakers m) q = Some r \<longrightarrow> q = p)"
proof -
  have "br_placement (cells (cm_breakers m) ! r) = q" if "st_ref (cm_breakers m) q = Some r" for q
    using managers.reach_inv [OF assms(1)] that by (simp add: manager_inv_def)
  moreover have "breaker_inv (cells (cm_breakers m) ! r)"
    using managers.reach_inv [OF assms(1)] assms(2) by (simp add: manager_inv_def st_wf_def)
  ultimately show ?thesis using assms(2) by blast
qed

definition sample_manager :: circuit_manager where
  "sample_manager = snd (get_breaker_write (\<lambda>_. 1) ''visa'' (new_circuit_manager sample_breaker_config))"

theorem breakers_are_separate_witness:
  "br_placement (cells (cm_breakers sample_manager) ! 0) = ''visa''"
proof -
  have "reach (\<lambda>m. \<exists>cfg. m = new_circuit_manager cfg) manager_admin_step sample_manager"
    unfolding sample_manager_def by (blast intro: reach_init reach_step mas_step ms_get)
  moreover have "st_ref (cm_breakers sample_manager) ''visa'' = Some 0"
    by (simp add: sample_manager_def get_breaker_write_def new_circuit_manager_def st_ref_bind)
      (simp add: st_empty_def)
  ultimately show ?thesis using breakers_are_separate by blast
qed

lemma manager_step_keeps_ref:
  "manager_step\<^sup>*\<^sup>* m m' \<Longrightarrow> st_ref (cm_breakers m) pk = Some r \<Longrightarrow> st_ref (cm_breakers m') pk = Some r"
proof (induction rule: rtranclp_induct)
  case (step m' m'')
  then have "st_ref (cm_breakers m') pk = Some r" by simp
  with step(2) show ?case
    by (auto elim!: manager_stepE simp: get_breaker_write_def st_ref_bind split: option.splits)
qed simp

text \<open>
  Two \<open>GetBreaker\<close> calls that both missed under the read lock get the same
  breaker, whatever other calls ran in between: the second one finds it when it looks again, and
  leaves the manager as it is. Without removals a placement never gets a second breaker.
\<close>

theorem get_breaker_race:
  assumes "get_breaker_write clk1 pk m = (r1, m1)" "manager_step\<^sup>*\<^sup>* m1 m2"
  shows "get_breaker_write clk2 pk m2 = (r1, m2) \<and> get_breaker clk2 pk m2 = (r1, m2)"
proof -
  have "st_ref (cm_breakers m1) pk = Some r1"
    using assms(1) by (auto simp: get_breaker_write_def st_ref_bind split: option.splits)
  from manager_step_keeps_ref [OF assms(2) this] show ?thesis
    by (simp add: get_breaker_write_def get_breaker_def get_breaker_read_def)
qed

theorem get_breaker_race_witness:
  "get_breaker_write (\<lambda>_. 9) ''visa'' (snd (get_breaker_write (\<lambda>_. 8) ''acme'' sample_manager))
   = (0, snd (get_breaker_write (\<lambda>_. 8) ''acme'' sample_manager))"
proof -
  have "get_breaker_write (\<lambda>_. 1) ''visa'' (new_circuit_manager sample_breaker_config) = (0, sample_manager)"
    by (simp add: sample_manager_def get_breaker_write_def new_circuit_manager_def) (simp add: st_empty_def)
  moreover have "manager_step\<^sup>*\<^sup>* sample_manager (snd (get_breaker_write (\<lambda>_. 8) ''acme'' sample_manager))"
    by (rule r_into_rtranclp, rule ms_get)
  ultimately show ?thesis using get_breaker_race by blast
qed

end
