(* ===== verification/Limits.thy ===== *)
theory Limits
  imports Logging "HOL-Library.Multiset"
begin

text \<open>
  \<open>internal/limits/manager.go\<close>: counting semaphores on buffered channels and the manager of
  per-placement limits. A channel keeps the number of slots taken and the goroutines waiting on
  it; \<open>Release\<close> receives, so on an empty channel it blocks and a later send is handed to it. The locale
  \<open>slot_pool\<close> is the contract between the manager and the requests that hold slots.
\<close>

section \<open>Semaphores\<close>

record limits_config =
  max_concurrent_requests :: int
  max_request_body_bytes :: int

record semaphore =
  capacity :: nat
  held :: nat
  waiting_receivers :: nat
  waiting_senders :: nat

text \<open>\<open>make(chan struct{}, capacity)\<close> panics on a negative size.\<close>

definition new_semaphore :: "int \<Rightarrow> semaphore outcome" where
  "new_semaphore n = (if n < 0 then Panic Bad_Chan_Size
     else Ret \<lparr>capacity = nat n, held = 0, waiting_receivers = 0, waiting_senders = 0\<rparr>)"

text \<open>A send that can proceed: a receiver is waiting, or there is room in the buffer.\<close>

definition can_send :: "semaphore \<Rightarrow> bool" where
  "can_send s \<longleftrightarrow> 0 < waiting_receivers s \<or> held s < capacity s"

definition send :: "semaphore \<Rightarrow> semaphore" where
  "send s = (if 0 < waiting_receivers s then s\<lparr>waiting_receivers := waiting_receivers s - 1\<rparr>
     else s\<lparr>held := held s + 1\<rparr>)"

datatype acquire_result = Acquired | Canceled string | Waits

text \<open>
  \<open>Acquire\<close>: a \<open>select\<close> between the send and the context; when both are ready Go picks either
  (\<open>pick_ctx\<close>), when neither is the goroutine waits among the senders.
\<close>

definition acquire :: "bool \<Rightarrow> string option \<Rightarrow> semaphore \<Rightarrow> acquire_result \<times> semaphore" where
  "acquire pick_ctx ctx_err s =
     (case ctx_err of
        None \<Rightarrow> if can_send s then (Acquired, send s)
          else (Waits, s\<lparr>waiting_senders := waiting_senders s + 1\<rparr>)
      | Some e \<Rightarrow> if can_send s \<and> \<not> pick_ctx then (Acquired, send s) else (Canceled e, s))"

definition try_acquire :: "semaphore \<Rightarrow> bool \<times> semaphore" where
  "try_acquire s = (if can_send s then (True, send s) else (False, s))"

text \<open>\<open>Release\<close>: whether it returns, and the channel after it.\<close>

definition release :: "semaphore \<Rightarrow> bool \<times> semaphore" where
  "release s =
     (if 0 < waiting_senders s then (True, s\<lparr>waiting_senders := waiting_senders s - 1\<rparr>)
      else if 0 < held s then (True, s\<lparr>held := held s - 1\<rparr>)
      else (False, s\<lparr>waiting_receivers := waiting_receivers s + 1\<rparr>))"

section \<open>The manager\<close>

record limits_manager =
  lm_semaphores :: "semaphore store"
  lm_config :: "(string \<times> limits_config) list"

definition new_limits_manager :: limits_manager where
  "new_limits_manager = \<lparr>lm_semaphores = st_empty, lm_config = []\<rparr>"

definition set_config :: "string \<Rightarrow> limits_config \<Rightarrow> limits_manager \<Rightarrow> limits_manager outcome" where
  "set_config pk cfg m0 =
     (let m = m0\<lparr>lm_config := AList.update pk cfg (lm_config m0)\<rparr>
      in if 0 < max_concurrent_requests cfg
         then omap (\<lambda>sem. m\<lparr>lm_semaphores := st_bind pk sem (lm_semaphores m)\<rparr>)
                (new_semaphore (max_concurrent_requests cfg))
         else Ret (m\<lparr>lm_semaphores := st_unbind pk (lm_semaphores m)\<rparr>))"

definition get_config :: "limits_manager \<Rightarrow> string \<Rightarrow> limits_config option" where
  "get_config m pk = map_of (lm_config m) pk"

definition try_acquire_slot :: "clock \<Rightarrow> string \<Rightarrow> limits_manager \<Rightarrow> bool \<times> limits_manager \<times> log_line list" where
  "try_acquire_slot clk pk m =
     (case st_ref (lm_semaphores m) pk of None \<Rightarrow> (True, m, [])
      | Some r \<Rightarrow>
        (let (acquired, sem) = try_acquire (cells (lm_semaphores m) ! r)
         in (acquired, m\<lparr>lm_semaphores := st_write r sem (lm_semaphores m)\<rparr>,
             if acquired then [] else [log_info (clk 0) ''concurrency limit reached''
               [(''placement'', Log_Str pk), (''action'', Log_Str ''rejected'')]])))"

definition release_slot :: "string \<Rightarrow> limits_manager \<Rightarrow> bool \<times> limits_manager" where
  "release_slot pk m =
     (case st_ref (lm_semaphores m) pk of None \<Rightarrow> (True, m)
      | Some r \<Rightarrow>
        (let (returns, sem) = release (cells (lm_semaphores m) ! r)
         in (returns, m\<lparr>lm_semaphores := st_write r sem (lm_semaphores m)\<rparr>)))"

datatype body_size_error = Body_Too_Large int int

definition validate_request_body_size :: "limits_manager \<Rightarrow> string \<Rightarrow> int \<Rightarrow> body_size_error option" where
  "validate_request_body_size m pk sz =
     (case get_config m pk of None \<Rightarrow> None
      | Some cfg \<Rightarrow>
        if max_request_body_bytes cfg = 0 then None
        else if max_request_body_bytes cfg < sz then Some (Body_Too_Large sz (max_request_body_bytes cfg))
        else None)"

definition remove_config :: "string \<Rightarrow> limits_manager \<Rightarrow> limits_manager" where
  "remove_config pk m = m\<lparr>lm_config := AList.delete pk (lm_config m),
     lm_semaphores := st_unbind pk (lm_semaphores m)\<rparr>"

section \<open>The contract: a pool of slots\<close>

text \<open>
  A client takes a slot of a key before its work and gives it back after it; the pool state
  and the multiset of the keys whose slots are out evolve together.
\<close>

inductive pool_step ::
    "('k \<Rightarrow> 's \<Rightarrow> bool \<times> 's) \<Rightarrow> ('k \<Rightarrow> 's \<Rightarrow> bool \<times> 's) \<Rightarrow> 's \<times> 'k multiset \<Rightarrow> 's \<times> 'k multiset \<Rightarrow> bool"
  for take give where
  pool_enter: "take k s = (True, s') \<Longrightarrow> pool_step take give (s, out) (s', add_mset k out)"
| pool_reject: "take k s = (False, s') \<Longrightarrow> pool_step take give (s, out) (s', out)"
| pool_leave: "k \<in># out \<Longrightarrow> give k s = (True, s') \<Longrightarrow> pool_step take give (s, out) (s', out - {#k#})"

text \<open>The pool counts exactly the slots that are out, and never more than the limit.\<close>

definition pool_balanced ::
    "('s \<Rightarrow> bool) \<Rightarrow> ('s \<Rightarrow> 'k \<Rightarrow> nat) \<Rightarrow> ('s \<Rightarrow> 'k \<Rightarrow> nat option) \<Rightarrow> 's \<times> 'k multiset \<Rightarrow> bool" where
  "pool_balanced ok in_use limit st \<longleftrightarrow> ok (fst st) \<and> (\<forall>k c. limit (fst st) k = Some c \<longrightarrow>
     in_use (fst st) k = count (snd st) k \<and> count (snd st) k \<le> c)"

lemma pool_balancedI:
  assumes "ok s" "\<And>k c. limit s k = Some c \<Longrightarrow> in_use s k = count out k \<and> count out k \<le> c"
  shows "pool_balanced ok in_use limit (s, out)"
  using assms by (simp add: pool_balanced_def)

lemma pool_balancedD:
  assumes "pool_balanced ok in_use limit (s, out)"
  shows "ok s" "limit s k = Some c \<Longrightarrow> in_use s k = count out k \<and> count out k \<le> c"
  using assms by (auto simp: pool_balanced_def)

locale slot_pool =
  fixes take :: "'k \<Rightarrow> 's \<Rightarrow> bool \<times> 's" and give :: "'k \<Rightarrow> 's \<Rightarrow> bool \<times> 's"
    and in_use :: "'s \<Rightarrow> 'k \<Rightarrow> nat" and limit :: "'s \<Rightarrow> 'k \<Rightarrow> nat option" and inv :: "'s \<Rightarrow> bool"
  assumes take_ok: "inv s \<Longrightarrow> fst (take k s) \<longleftrightarrow> (case limit s k of None \<Rightarrow> True | Some c \<Rightarrow> in_use s k < c)"
    and take_in_use: "inv s \<Longrightarrow> limit s j \<noteq> None \<Longrightarrow>
      in_use (snd (take k s)) j = in_use s j + (if j = k \<and> fst (take k s) then 1 else 0)"
    and give_ok: "inv s \<Longrightarrow> limit s k = None \<or> 0 < in_use s k \<Longrightarrow> fst (give k s)"
    and give_in_use: "inv s \<Longrightarrow> limit s k = None \<or> 0 < in_use s k \<Longrightarrow> limit s j \<noteq> None \<Longrightarrow>
      in_use (snd (give k s)) j = in_use s j - (if j = k then 1 else 0)"
    and limit_take: "inv s \<Longrightarrow> limit (snd (take k s)) = limit s"
    and limit_give: "inv s \<Longrightarrow> limit s k = None \<or> 0 < in_use s k \<Longrightarrow> limit (snd (give k s)) = limit s"
    and inv_take: "inv s \<Longrightarrow> inv (snd (take k s))"
    and inv_give: "inv s \<Longrightarrow> limit s k = None \<or> 0 < in_use s k \<Longrightarrow> inv (snd (give k s))"
begin

lemma balanced_take:
  assumes b: "pool_balanced inv in_use limit (s, out)" and t: "take k s = (True, s')"
  shows "pool_balanced inv in_use limit (s', add_mset k out)"
proof (rule pool_balancedI)
  show "inv s'" using inv_take [of s k] pool_balancedD(1) [OF b] t by simp
next
  fix j c
  assume j: "limit s' j = Some c"
  have lim: "limit s j = Some c" using j limit_take [of s k] pool_balancedD(1) [OF b] t by simp
  have "in_use s' j = in_use s j + (if j = k then 1 else 0)"
    using take_in_use [of s j k] pool_balancedD(1) [OF b] lim t by simp
  moreover have "in_use s k < c" if "j = k"
    using take_ok [of s k] pool_balancedD(1) [OF b] lim t that by simp
  ultimately show "in_use s' j = count (add_mset k out) j \<and> count (add_mset k out) j \<le> c"
    using pool_balancedD(2) [OF b lim] by auto
qed

lemma balanced_reject:
  assumes b: "pool_balanced inv in_use limit (s, out)" and t: "take k s = (False, s')"
  shows "pool_balanced inv in_use limit (s', out)"
proof (rule pool_balancedI)
  show "inv s'" using inv_take [of s k] pool_balancedD(1) [OF b] t by simp
next
  fix j c
  assume j: "limit s' j = Some c"
  then have "limit s j = Some c" using limit_take [of s k] pool_balancedD(1) [OF b] t by simp
  then show "in_use s' j = count out j \<and> count out j \<le> c"
    using take_in_use [of s j k] pool_balancedD [OF b] t by simp
qed

lemma holder_can_give:
  assumes "pool_balanced inv in_use limit (s, out)" "k \<in># out"
  shows "limit s k = None \<or> 0 < in_use s k"
  using assms pool_balancedD(2) [OF assms(1), of k] by (cases "limit s k") auto

lemma balanced_give:
  assumes b: "pool_balanced inv in_use limit (s, out)" and k: "k \<in># out" and g: "give k s = (True, s')"
  shows "pool_balanced inv in_use limit (s', out - {#k#})"
proof (rule pool_balancedI)
  note can = holder_can_give [OF b k]
  show "inv s'" using inv_give [of s k] pool_balancedD(1) [OF b] can g by simp
  fix j c
  assume j: "limit s' j = Some c"
  have lim: "limit s j = Some c" using j limit_give [of s k] pool_balancedD(1) [OF b] can g by simp
  then have "in_use s' j = in_use s j - (if j = k then 1 else 0)"
    using give_in_use [of s k j] pool_balancedD(1) [OF b] can g by simp
  then show "in_use s' j = count (out - {#k#}) j \<and> count (out - {#k#}) j \<le> c"
    using pool_balancedD(2) [OF b lim] by auto
qed

lemma pool_step_balanced:
  "pool_step take give st st' \<Longrightarrow> pool_balanced inv in_use limit st \<Longrightarrow> pool_balanced inv in_use limit st'"
  by (cases rule: pool_step.cases, assumption) (simp_all add: balanced_take balanced_reject balanced_give)

lemma never_over_limit:
  assumes "(pool_step take give)\<^sup>*\<^sup>* st st'" "pool_balanced inv in_use limit st"
  shows "pool_balanced inv in_use limit st'"
  using assms by (induction rule: rtranclp_induct) (simp_all add: pool_step_balanced)

lemma holder_returns:
  assumes "pool_balanced inv in_use limit (s, out)" "k \<in># out"
  shows "fst (give k s)"
  using give_ok pool_balancedD(1) [OF assms(1)] holder_can_give [OF assms] by blast

lemma take_give_neutral:
  assumes "inv s" "fst (take k s)" "limit s j \<noteq> None"
  shows "fst (give k (snd (take k s))) \<and> in_use (snd (give k (snd (take k s)))) j = in_use s j"
proof -
  let ?s = "snd (take k s)"
  have inv: "inv ?s" by (rule inv_take [OF assms(1)])
  have can: "limit ?s k = None \<or> 0 < in_use ?s k"
    using take_in_use [OF assms(1), of k k] assms(2) limit_take [OF assms(1), of k] by (cases "limit s k") auto
  have j: "limit ?s j \<noteq> None" using assms(3) limit_take [OF assms(1), of k] by simp
  show ?thesis
    using give_ok [OF inv can] give_in_use [OF inv can j] take_in_use [OF assms(1,3), of k] assms(2)
    by simp
qed

end

section \<open>The manager implements the contract\<close>

text \<open>Taking a slot without its log line; the clock only stamps the line.\<close>

definition slot_take :: "string \<Rightarrow> limits_manager \<Rightarrow> bool \<times> limits_manager" where
  "slot_take pk m = (case try_acquire_slot (\<lambda>_. 0) pk m of (ok, m', logs) \<Rightarrow> (ok, m'))"

lemma try_acquire_slot_take:
  "fst (try_acquire_slot clk pk m) = fst (slot_take pk m)"
  "fst (snd (try_acquire_slot clk pk m)) = snd (slot_take pk m)"
  by (simp_all add: slot_take_def try_acquire_slot_def split: option.splits prod.splits)

definition slots_in_use :: "limits_manager \<Rightarrow> string \<Rightarrow> nat" where
  "slots_in_use m pk = (case st_get (lm_semaphores m) pk of None \<Rightarrow> 0 | Some s \<Rightarrow> held s)"

definition slot_limit :: "limits_manager \<Rightarrow> string \<Rightarrow> nat option" where
  "slot_limit m pk = map_option capacity (st_get (lm_semaphores m) pk)"

definition quiet :: "semaphore \<Rightarrow> bool" where
  "quiet s \<longleftrightarrow> waiting_receivers s = 0 \<and> waiting_senders s = 0 \<and> held s \<le> capacity s"

definition limits_inv :: "limits_manager \<Rightarrow> bool" where
  "limits_inv m \<longleftrightarrow> st_wf (lm_semaphores m) \<and> st_inj (lm_semaphores m)
     \<and> (\<forall>s \<in> set (cells (lm_semaphores m)). quiet s)"

text \<open>The semaphores are those the configuration asks for.\<close>

definition configured_limit :: "limits_manager \<Rightarrow> string \<Rightarrow> nat option" where
  "configured_limit m pk = (case get_config m pk of None \<Rightarrow> None
     | Some cfg \<Rightarrow> if 0 < max_concurrent_requests cfg then Some (nat (max_concurrent_requests cfg)) else None)"

lemma limits_inv_cell:
  "limits_inv m \<Longrightarrow> st_ref (lm_semaphores m) pk = Some r \<Longrightarrow>
   r < length (cells (lm_semaphores m)) \<and> quiet (cells (lm_semaphores m) ! r)"
  by (auto simp: limits_inv_def st_wf_def)

lemma quiet_try_acquire:
  "quiet s \<Longrightarrow> try_acquire s = (held s < capacity s, if held s < capacity s then s\<lparr>held := held s + 1\<rparr> else s)"
  by (simp add: quiet_def try_acquire_def can_send_def send_def)

lemma quiet_release:
  "quiet s \<Longrightarrow> 0 < held s \<Longrightarrow> release s = (True, s\<lparr>held := held s - 1\<rparr>)"
  by (simp add: quiet_def release_def)

lemma limit_of_ref: "slot_limit m pk = map_option (\<lambda>r. capacity (cells (lm_semaphores m) ! r)) (st_ref (lm_semaphores m) pk)"
  by (cases "st_ref (lm_semaphores m) pk") (simp_all add: slot_limit_def st_get_def)

lemma use_of_ref: "st_ref (lm_semaphores m) pk = Some r \<Longrightarrow> slots_in_use m pk = held (cells (lm_semaphores m) ! r)"
  by (simp add: slots_in_use_def st_get_def)

lemma slot_write:
  assumes "limits_inv m" "st_ref (lm_semaphores m) pk = Some r" "quiet s"
  shows "limits_inv (m\<lparr>lm_semaphores := st_write r s (lm_semaphores m)\<rparr>)"
    and "slots_in_use (m\<lparr>lm_semaphores := st_write r s (lm_semaphores m)\<rparr>) j
      = (if j = pk then held s else slots_in_use m j)"
    and "capacity s = capacity (cells (lm_semaphores m) ! r) \<Longrightarrow>
      slot_limit (m\<lparr>lm_semaphores := st_write r s (lm_semaphores m)\<rparr>) = slot_limit m"
proof -
  have wf: "st_wf (lm_semaphores m)" and inj: "st_inj (lm_semaphores m)"
    using assms(1) by (simp_all add: limits_inv_def)
  have "set ((cells (lm_semaphores m))[r := s]) \<subseteq> insert s (set (cells (lm_semaphores m)))"
    by (rule set_update_subset_insert)
  then show "limits_inv (m\<lparr>lm_semaphores := st_write r s (lm_semaphores m)\<rparr>)"
    using assms by (auto simp: limits_inv_def)
  show "slots_in_use (m\<lparr>lm_semaphores := st_write r s (lm_semaphores m)\<rparr>) j
      = (if j = pk then held s else slots_in_use m j)"
  proof (cases "j = pk")
    case False
    then have "st_ref (lm_semaphores m) j \<noteq> Some r" using st_injD [OF inj assms(2)] by metis
    with False show ?thesis by (simp add: slots_in_use_def st_get_write [OF wf])
  qed (simp add: slots_in_use_def st_get_write [OF wf] assms(2))
  show "slot_limit (m\<lparr>lm_semaphores := st_write r s (lm_semaphores m)\<rparr>) = slot_limit m"
    if c: "capacity s = capacity (cells (lm_semaphores m) ! r)"
  proof
    fix j
    show "slot_limit (m\<lparr>lm_semaphores := st_write r s (lm_semaphores m)\<rparr>) j = slot_limit m j"
      using c limits_inv_cell [OF assms(1,2)]
      by (cases "st_ref (lm_semaphores m) j") (simp_all add: limit_of_ref nth_list_update)
  qed
qed

lemma slot_take_cases:
  assumes "limits_inv m"
  shows "slot_take pk m = (case st_ref (lm_semaphores m) pk of None \<Rightarrow> (True, m)
    | Some r \<Rightarrow> let s = cells (lm_semaphores m) ! r in
       if held s < capacity s
         then (True, m\<lparr>lm_semaphores := st_write r (s\<lparr>held := held s + 1\<rparr>) (lm_semaphores m)\<rparr>)
       else (False, m))"
proof (cases "st_ref (lm_semaphores m) pk")
  case None
  then show ?thesis by (simp add: slot_take_def try_acquire_slot_def)
next
  case (Some r)
  with limits_inv_cell [OF assms Some] show ?thesis
    by (auto simp: slot_take_def try_acquire_slot_def quiet_try_acquire Let_def st_write_def)
qed

lemma slot_give_cases:
  assumes "limits_inv m" "slot_limit m pk = None \<or> 0 < slots_in_use m pk"
  shows "release_slot pk m = (case st_ref (lm_semaphores m) pk of None \<Rightarrow> (True, m)
    | Some r \<Rightarrow> let s = cells (lm_semaphores m) ! r in
       (True, m\<lparr>lm_semaphores := st_write r (s\<lparr>held := held s - 1\<rparr>) (lm_semaphores m)\<rparr>))"
proof (cases "st_ref (lm_semaphores m) pk")
  case None
  then show ?thesis by (simp add: release_slot_def)
next
  case (Some r)
  with assms limits_inv_cell [OF assms(1) Some] show ?thesis
    by (auto simp: release_slot_def slot_limit_def slots_in_use_def st_get_def quiet_release Let_def)
qed

interpretation slots: slot_pool slot_take release_slot slots_in_use slot_limit limits_inv
proof unfold_locales
  fix m pk j
  assume inv: "limits_inv m"
  let ?sem = "\<lambda>r. cells (lm_semaphores m) ! r"
  note cell = limits_inv_cell [OF inv]
  note tk = slot_take_cases [OF inv, of pk] limit_of_ref use_of_ref
  have q1: "quiet ((?sem r)\<lparr>held := held (?sem r) + 1\<rparr>)"
    if "st_ref (lm_semaphores m) pk = Some r" "held (?sem r) < capacity (?sem r)" for r
    using cell [OF that(1)] that(2) by (simp add: quiet_def)
  show "fst (slot_take pk m) \<longleftrightarrow> (case slot_limit m pk of None \<Rightarrow> True | Some c \<Rightarrow> slots_in_use m pk < c)"
    by (simp add: tk Let_def split: option.split)
  show "slot_limit (snd (slot_take pk m)) = slot_limit m"
    using slot_write(3) [OF inv _ q1] by (simp add: tk(1) Let_def split: option.split)
  show "limits_inv (snd (slot_take pk m))"
    using slot_write(1) [OF inv _ q1] inv by (simp add: tk(1) Let_def split: option.split)
  show "slots_in_use (snd (slot_take pk m)) j = slots_in_use m j + (if j = pk \<and> fst (slot_take pk m) then 1 else 0)"
    if "slot_limit m j \<noteq> None"
    using that slot_write(2) [OF inv _ q1, where j = j]
    by (auto simp: tk Let_def split: option.splits)
next
  fix m pk j
  assume inv: "limits_inv m" and can: "slot_limit m pk = None \<or> 0 < slots_in_use m pk"
  let ?sem = "\<lambda>r. cells (lm_semaphores m) ! r"
  note cell = limits_inv_cell [OF inv]
  note gv = slot_give_cases [OF inv can] limit_of_ref use_of_ref
  have q2: "quiet ((?sem r)\<lparr>held := held (?sem r) - 1\<rparr>)" if "st_ref (lm_semaphores m) pk = Some r" for r
    using cell [OF that] by (auto simp: quiet_def)
  show "fst (release_slot pk m)"
    by (simp add: gv(1) Let_def split: option.split)
  show "slot_limit (snd (release_slot pk m)) = slot_limit m"
    using slot_write(3) [OF inv _ q2] by (simp add: gv(1) Let_def split: option.split)
  show "limits_inv (snd (release_slot pk m))"
    using slot_write(1) [OF inv _ q2] inv by (simp add: gv(1) Let_def split: option.split)
  show "slots_in_use (snd (release_slot pk m)) j = slots_in_use m j - (if j = pk then 1 else 0)"
    if "slot_limit m j \<noteq> None"
    using that slot_write(2) [OF inv _ q2, where j = j]
    by (auto simp: gv Let_def split: option.splits)
qed

section \<open>Configuring the limits\<close>

lemma set_config_total: "\<exists>m'. set_config pk cfg m = Ret m'"
  by (auto simp: set_config_def new_semaphore_def Let_def)

lemma set_config_inv:
  assumes "set_config pk cfg m = Ret m'" "limits_inv m"
  shows "limits_inv m'"
  using assms by (auto simp: set_config_def new_semaphore_def Let_def limits_inv_def quiet_def split: if_splits)

lemma set_config_limit:
  assumes "set_config pk cfg m = Ret m'" "limits_inv m"
  shows "slot_limit m' j = (if j = pk then
     (if 0 < max_concurrent_requests cfg then Some (nat (max_concurrent_requests cfg)) else None)
     else slot_limit m j)"
  using assms by (auto simp: set_config_def new_semaphore_def Let_def limits_inv_def slot_limit_def
      st_get_bind st_get_unbind split: if_splits)

lemma set_config_get:
  "set_config pk cfg m = Ret m' \<Longrightarrow> get_config m' j = (if j = pk then Some cfg else get_config m j)"
  by (auto simp: set_config_def new_semaphore_def Let_def get_config_def update_conv' split: if_splits)

lemma set_config_in_use:
  assumes "set_config pk cfg m = Ret m'" "limits_inv m"
  shows "slots_in_use m' j = (if j = pk then 0 else slots_in_use m j)"
  using assms by (auto simp: set_config_def new_semaphore_def Let_def limits_inv_def slots_in_use_def
      st_get_bind st_get_unbind split: if_splits option.splits)

text \<open>The \<open>SetConfig\<close> calls made at start-up.\<close>

fun set_configs :: "(string \<times> limits_config) list \<Rightarrow> limits_manager \<Rightarrow> limits_manager outcome" where
  "set_configs [] m = Ret m"
| "set_configs ((pk, cfg) # cs) m = obind (set_config pk cfg m) (set_configs cs)"

definition configured :: "limits_manager \<Rightarrow> bool" where
  "configured m \<longleftrightarrow> limits_inv m \<and> slot_limit m = configured_limit m \<and> (\<forall>pk. slots_in_use m pk = 0)"

lemma configured_new: "configured new_limits_manager"
  by (simp add: configured_def limits_inv_def new_limits_manager_def slot_limit_def slots_in_use_def
      configured_limit_def get_config_def fun_eq_iff) (simp add: st_empty_def)

lemma set_config_configured:
  assumes "set_config pk cfg m = Ret m'" "configured m"
  shows "configured m'"
  using assms set_config_inv [OF assms(1)] set_config_limit [OF assms(1)]
    set_config_in_use [OF assms(1)] set_config_get [OF assms(1)]
  by (simp add: configured_def configured_limit_def fun_eq_iff)

lemma set_configs_configured: "set_configs cs m = Ret m' \<Longrightarrow> configured m \<Longrightarrow> configured m'"
  by (induction cs m rule: set_configs.induct) (auto dest: set_config_configured)

lemma configured_balanced: "configured m \<Longrightarrow> pool_balanced limits_inv slots_in_use slot_limit (m, {#})"
  by (simp add: configured_def pool_balanced_def)

lemma pool_step_config:
  "pool_step slot_take release_slot st st' \<Longrightarrow> lm_config (fst st') = lm_config (fst st)"
  by (cases rule: pool_step.cases, assumption)
    (auto simp: slot_take_def try_acquire_slot_def release_slot_def split: option.splits prod.splits)

lemma pool_run_config:
  "(pool_step slot_take release_slot)\<^sup>*\<^sup>* st st' \<Longrightarrow> lm_config (fst st') = lm_config (fst st)"
  by (induction rule: rtranclp_induct) (auto dest: pool_step_config)

lemma pool_step_limit:
  assumes "pool_step slot_take release_slot st st'" "pool_balanced limits_inv slots_in_use slot_limit st"
  shows "slot_limit (fst st') = slot_limit (fst st)"
  using assms
proof (cases rule: pool_step.cases)
  case (pool_enter k s s' out)
  with assms(2) slots.limit_take [of s k] show ?thesis by (auto dest: pool_balancedD)
next
  case (pool_reject k s s' out)
  with assms(2) slots.limit_take [of s k] show ?thesis by (auto dest: pool_balancedD)
next
  case (pool_leave k out s s')
  with assms(2) slots.limit_give [of s k] slots.holder_can_give [of s out k] show ?thesis
    by (auto dest: pool_balancedD)
qed

lemma pool_run_limit:
  assumes "(pool_step slot_take release_slot)\<^sup>*\<^sup>* st st'" "pool_balanced limits_inv slots_in_use slot_limit st"
  shows "slot_limit (fst st') = slot_limit (fst st)"
  using assms
proof (induction rule: rtranclp_induct)
  case (step y z)
  then show ?case using pool_step_limit slots.never_over_limit by metis
qed simp

text \<open>
  Property C10. Bounded concurrency: however requests interleave after start-up, a placement
  configured with a positive limit never has more slots out than that; an attempt is refused exactly
  when all are out; and a request that holds a slot can always return it without blocking.
\<close>

theorem concurrency_bounded:
  assumes "set_configs cs new_limits_manager = Ret m"
    and "(pool_step slot_take release_slot)\<^sup>*\<^sup>* (m, {#}) (m', out)"
    and "get_config m pk = Some cfg" "0 < max_concurrent_requests cfg"
  shows "int (count out pk) \<le> max_concurrent_requests cfg
    \<and> (fst (try_acquire_slot clk pk m') \<longleftrightarrow> int (count out pk) < max_concurrent_requests cfg)
    \<and> (pk \<in># out \<longrightarrow> fst (release_slot pk m'))"
proof -
  have conf: "configured m" by (rule set_configs_configured [OF assms(1) configured_new])
  note bal0 = configured_balanced [OF conf]
  note bal = slots.never_over_limit [OF assms(2) bal0]
  have "slot_limit m' pk = slot_limit m pk"
    using pool_run_limit [OF assms(2) bal0] by simp
  then have lim: "slot_limit m' pk = Some (nat (max_concurrent_requests cfg))"
    using conf assms(3,4) by (simp add: configured_def configured_limit_def)
  have "fst (try_acquire_slot clk pk m') \<longleftrightarrow> slots_in_use m' pk < nat (max_concurrent_requests cfg)"
    using slots.take_ok [OF pool_balancedD(1) [OF bal], of pk] lim by (simp add: try_acquire_slot_take)
  then show ?thesis
    using pool_balancedD(2) [OF bal lim] slots.holder_returns [OF bal, of pk] assms(4) by auto
qed

definition sample_limits :: limits_manager where
  "sample_limits = \<lparr>lm_semaphores = \<lparr>refs = [(''tier1'', 0)],
       cells = [\<lparr>capacity = 1, held = 0, waiting_receivers = 0, waiting_senders = 0\<rparr>]\<rparr>,
     lm_config = [(''tier1'', \<lparr>max_concurrent_requests = 1, max_request_body_bytes = 10\<rparr>)]\<rparr>"

lemma sample_limits_made:
  "set_configs [(''tier1'', \<lparr>max_concurrent_requests = 1, max_request_body_bytes = 10\<rparr>)] new_limits_manager
   = Ret sample_limits"
  by (simp add: set_config_def new_semaphore_def new_limits_manager_def st_bind_def st_empty_def sample_limits_def)

theorem concurrency_bounded_witness:
  "\<not> fst (try_acquire_slot (\<lambda>_. 7) ''tier1'' (snd (slot_take ''tier1'' sample_limits)))"
proof -
  have ok: "slot_take ''tier1'' sample_limits = (True, snd (slot_take ''tier1'' sample_limits))"
    by (simp add: slot_take_def try_acquire_slot_def sample_limits_def st_ref_def try_acquire_def can_send_def)
  have run: "(pool_step slot_take release_slot)\<^sup>*\<^sup>* (sample_limits, {#})
      (snd (slot_take ''tier1'' sample_limits), {#''tier1''#})"
    using pool_enter [of slot_take, OF ok, of release_slot "{#}"] by blast
  have cfg: "get_config sample_limits ''tier1'' = Some \<lparr>max_concurrent_requests = 1, max_request_body_bytes = 10\<rparr>"
    by (simp add: get_config_def sample_limits_def)
  from concurrency_bounded [OF sample_limits_made run cfg] show ?thesis by simp
qed

text \<open>
  Reconfiguring a placement while one of its slots is out loses the slot: the
  release goes to the new semaphore, which is empty, and blocks; the next request admitted
  afterwards only wakes that goroutine up and is itself not counted.
\<close>

theorem reconfigure_strands_release:
  assumes "limits_inv m" "fst (slot_take pk m)"
    and "set_config pk cfg (snd (slot_take pk m)) = Ret m2" "0 < max_concurrent_requests cfg"
  shows "\<not> fst (release_slot pk m2)
    \<and> fst (slot_take pk (snd (release_slot pk m2)))
    \<and> slots_in_use (snd (slot_take pk (snd (release_slot pk m2)))) pk = 0"
proof -
  let ?s0 = "\<lparr>capacity = nat (max_concurrent_requests cfg), held = 0, waiting_receivers = 0, waiting_senders = 0\<rparr>"
  have wf: "st_wf (lm_semaphores (snd (slot_take pk m)))"
    using slots.inv_take [OF assms(1)] by (simp add: limits_inv_def)
  obtain r where r: "st_ref (lm_semaphores m2) pk = Some r" "cells (lm_semaphores m2) ! r = ?s0"
      "r < length (cells (lm_semaphores m2))"
    using assms(3,4) wf
    by (auto simp: set_config_def new_semaphore_def Let_def st_ref_bind)
  then show ?thesis
    by (simp add: release_slot_def release_def slot_take_def try_acquire_slot_def try_acquire_def
        can_send_def send_def slots_in_use_def st_get_def)
qed

theorem reconfigure_strands_release_witness:
  "\<exists>m2. set_config ''tier1'' \<lparr>max_concurrent_requests = 5, max_request_body_bytes = 0\<rparr>
     (snd (slot_take ''tier1'' sample_limits)) = Ret m2 \<and> \<not> fst (release_slot ''tier1'' m2)"
proof -
  have inv: "limits_inv sample_limits"
    by (simp add: limits_inv_def sample_limits_def st_wf_def st_inj_def st_ref_def quiet_def)
  have tk: "fst (slot_take ''tier1'' sample_limits)"
    by (simp add: slot_take_def try_acquire_slot_def sample_limits_def st_ref_def try_acquire_def can_send_def)
  obtain m2 where m2: "set_config ''tier1'' \<lparr>max_concurrent_requests = 5, max_request_body_bytes = 0\<rparr>
     (snd (slot_take ''tier1'' sample_limits)) = Ret m2" using set_config_total by blast
  from reconfigure_strands_release [OF inv tk m2] m2 show ?thesis by auto
qed

text \<open>
  The body check refuses a request exactly if its placement is configured with a
  non-zero maximum that the declared length exceeds; the error carries both numbers.
\<close>

theorem body_size_check:
  "validate_request_body_size m pk n = Some e \<longleftrightarrow>
   (\<exists>cfg. get_config m pk = Some cfg \<and> max_request_body_bytes cfg \<noteq> 0
      \<and> max_request_body_bytes cfg < n \<and> e = Body_Too_Large n (max_request_body_bytes cfg))"
  by (auto simp: validate_request_body_size_def split: option.splits)

end
