(* ===== verification/Health.thy ===== *)
theory Health
  imports Logging Go_Std
begin

text \<open>
  \<open>internal/health/checker.go\<close>: active health checks. A checker maps placements to endpoint
  objects; every registration starts a goroutine that checks its object until the checker stops,
  whether or not the map still leads to the object. The goroutines are the \<open>ck_loops\<close> of the state, and the
  inductive \<open>checker_step\<close> interleaves them with the callers.
\<close>

section \<open>State\<close>

datatype health_state = Healthy | Unhealthy

fun health_text :: "health_state \<Rightarrow> string" where
  "health_text Healthy = ''healthy''"
| "health_text Unhealthy = ''unhealthy''"

record check_config =
  ck_path :: string
  ck_interval :: duration
  ck_timeout :: duration

record endpoint_health =
  eh_url :: string
  eh_state :: health_state
  eh_last_check :: instant

record checker =
  ck_endpoints :: "endpoint_health store"
  ck_config :: check_config
  ck_loops :: "(string \<times> nat) list"
  ck_stopped :: bool

definition new_checker :: "check_config \<Rightarrow> checker" where
  "new_checker cfg = \<lparr>ck_endpoints = st_empty, ck_config = cfg, ck_loops = [], ck_stopped = False\<rparr>"

text \<open>
  The world a check runs in: what a GET of a URL yields (a transport error or a status; redirects
  are not followed), and the texts of URL errors.
\<close>

record check_env =
  http_get :: "string \<Rightarrow> string + int"
  url_error_text :: "url_error \<Rightarrow> string"

section \<open>Operations\<close>

definition register_endpoint :: "string \<Rightarrow> string \<Rightarrow> checker \<Rightarrow> checker" where
  "register_endpoint pk url c =
     (case st_ref (ck_endpoints c) pk of Some _ \<Rightarrow> c
      | None \<Rightarrow> c\<lparr>ck_endpoints := st_bind pk \<lparr>eh_url = url, eh_state = Healthy, eh_last_check = 0\<rparr> (ck_endpoints c),
          ck_loops := ck_loops c @ [(pk, length (cells (ck_endpoints c)))]\<rparr>)"

definition unregister_endpoint :: "string \<Rightarrow> checker \<Rightarrow> checker" where
  "unregister_endpoint pk c = c\<lparr>ck_endpoints := st_unbind pk (ck_endpoints c)\<rparr>"

definition is_healthy :: "checker \<Rightarrow> string \<Rightarrow> bool" where
  "is_healthy c pk = (case st_get (ck_endpoints c) pk of None \<Rightarrow> True | Some e \<Rightarrow> eh_state e = Healthy)"

definition get_health_state :: "checker \<Rightarrow> string \<Rightarrow> health_state" where
  "get_health_state c pk = (case st_get (ck_endpoints c) pk of None \<Rightarrow> Healthy | Some e \<Rightarrow> eh_state e)"

definition set_state :: "instant \<Rightarrow> health_state \<Rightarrow> endpoint_health \<Rightarrow> endpoint_health" where
  "set_state now new e = e\<lparr>eh_state := new, eh_last_check := now\<rparr>"

definition transition_state ::
    "clock \<Rightarrow> string \<Rightarrow> health_state \<Rightarrow> string \<Rightarrow> endpoint_health \<Rightarrow> endpoint_health \<times> log_line list" where
  "transition_state clk pk new why e =
     (if eh_state e \<noteq> new
      then (set_state (clk 0) new e,
        [log_info (clk 2)
          (''health state transition: '' @ health_text (eh_state e) @ '' -> '' @ health_text new)
          [(''placement'', Log_Str pk), (''url'', Log_Str (eh_url e)),
           (''old_state'', Log_Str (health_text (eh_state e))), (''new_state'', Log_Str (health_text new)),
           (''reason'', Log_Str why), (''timestamp'', Log_Int (unix_seconds (clk 1)))]])
      else (set_state (clk 0) new e, []))"

text \<open>What one check concludes about an endpoint, and why.\<close>

definition check_verdict :: "check_env \<Rightarrow> check_config \<Rightarrow> string \<Rightarrow> health_state \<times> string" where
  "check_verdict env cfg url =
     (case parse_url (url @ ck_path cfg) of
        Inl e \<Rightarrow> (Unhealthy, ''request_creation_failed: '' @ url_error_text env e)
      | Inr _ \<Rightarrow>
        (case http_get env (url @ ck_path cfg) of
           Inl e \<Rightarrow> (Unhealthy, ''request_failed: '' @ e)
         | Inr code \<Rightarrow> if 200 \<le> code \<and> code < 300 then (Healthy, [])
             else (Unhealthy, ''status_code_'' @ show_int code)))"

text \<open>\<open>performCheck\<close> on the endpoint object \<open>r\<close>.\<close>

definition perform_check :: "clock \<Rightarrow> check_env \<Rightarrow> string \<Rightarrow> nat \<Rightarrow> checker \<Rightarrow> checker \<times> log_line list" where
  "perform_check clk env pk r c =
     (let e = cells (ck_endpoints c) ! r;
          (new, why) = check_verdict env (ck_config c) (eh_url e);
          (e', logs) = transition_state clk pk new why e
      in (c\<lparr>ck_endpoints := st_write r e' (ck_endpoints c)\<rparr>, logs))"

text \<open>
  A goroutine starts: \<open>time.NewTicker\<close> panics on a non-positive interval, otherwise the
  first check runs at once. Each later tick runs another.
\<close>

definition check_loop_start :: "clock \<Rightarrow> check_env \<Rightarrow> string \<Rightarrow> nat \<Rightarrow> checker \<Rightarrow> (checker \<times> log_line list) outcome" where
  "check_loop_start clk env pk r c =
     (if ck_interval (ck_config c) \<le> 0 then Panic Non_Positive_Ticker
      else Ret (perform_check clk env pk r c))"

text \<open>
  \<open>Stop\<close> closes the channel, which panics the second time, and waits until the goroutines are gone.
\<close>

definition stop_checker :: "checker \<Rightarrow> checker outcome" where
  "stop_checker c = (if ck_stopped c then Panic Close_Closed_Channel else Ret (c\<lparr>ck_stopped := True\<rparr>))"

definition stop_returns :: "checker \<Rightarrow> bool" where
  "stop_returns c \<longleftrightarrow> ck_stopped c \<and> ck_loops c = []"

inductive checker_step :: "checker \<Rightarrow> checker \<Rightarrow> bool" where
  cs_register: "checker_step c (register_endpoint pk url c)"
| cs_unregister: "checker_step c (unregister_endpoint pk c)"
| cs_check: "(pk, r) \<in> set (ck_loops c) \<Longrightarrow> checker_step c (fst (perform_check clk env pk r c))"
| cs_stop: "stop_checker c = Ret c' \<Longrightarrow> checker_step c c'"
| cs_exit: "ck_stopped c \<Longrightarrow> l \<in> set (ck_loops c) \<Longrightarrow> checker_step c (c\<lparr>ck_loops := remove1 l (ck_loops c)\<rparr>)"

inductive_cases checker_stepE: "checker_step c c'"

section \<open>Checks\<close>

lemma fst_perform_check:
  "fst (perform_check clk env pk r c) = c\<lparr>ck_endpoints := st_write r
     (set_state (clk 0) (fst (check_verdict env (ck_config c) (eh_url (cells (ck_endpoints c) ! r))))
       (cells (ck_endpoints c) ! r)) (ck_endpoints c)\<rparr>"
  by (simp add: perform_check_def transition_state_def Let_def split: prod.splits)

text \<open>
  The loops watch the objects: as long as the checker is not stopped every registered
  endpoint is watched by a goroutine for its own placement, and no object is watched twice.
\<close>

definition checker_inv :: "checker \<Rightarrow> bool" where
  "checker_inv c \<longleftrightarrow> st_wf (ck_endpoints c) \<and> st_inj (ck_endpoints c)
     \<and> (\<forall>(pk, r) \<in> set (ck_loops c). r < length (cells (ck_endpoints c)))
     \<and> distinct (map snd (ck_loops c))
     \<and> (\<not> ck_stopped c \<longrightarrow> (\<forall>pk r. st_ref (ck_endpoints c) pk = Some r \<longrightarrow> (pk, r) \<in> set (ck_loops c)))"

lemma checker_inv_new: "checker_inv (new_checker cfg)"
  by (simp add: checker_inv_def new_checker_def)

lemma checker_inv_register: "checker_inv c \<Longrightarrow> checker_inv (register_endpoint pk url c)"
  by (fastforce simp: checker_inv_def register_endpoint_def st_ref_bind split: option.splits)

lemma checker_inv_unregister: "checker_inv c \<Longrightarrow> checker_inv (unregister_endpoint pk c)"
  by (auto simp: checker_inv_def unregister_endpoint_def st_ref_unbind)

lemma checker_inv_check: "checker_inv c \<Longrightarrow> checker_inv (fst (perform_check clk env pk r c))"
  by (auto simp: checker_inv_def fst_perform_check)

lemma checker_inv_stop: "checker_inv c \<Longrightarrow> stop_checker c = Ret c' \<Longrightarrow> checker_inv c'"
  by (auto simp: checker_inv_def stop_checker_def split: if_splits)

lemma checker_inv_exit:
  "checker_inv c \<Longrightarrow> ck_stopped c \<Longrightarrow> checker_inv (c\<lparr>ck_loops := remove1 l (ck_loops c)\<rparr>)"
  by (auto simp: checker_inv_def distinct_map dest: notin_set_remove1 inj_on_subset [OF _ set_remove1_subset])

lemma checker_step_inv: "checker_step c c' \<Longrightarrow> checker_inv c \<Longrightarrow> checker_inv c'"
  by (elim checker_stepE)
    (simp_all add: checker_inv_register checker_inv_unregister checker_inv_check checker_inv_exit checker_inv_stop)

interpretation checkers: invariant_system "\<lambda>c. \<exists>cfg. c = new_checker cfg" checker_step checker_inv
  by unfold_locales (auto simp: checker_inv_new checker_step_inv)


definition sample_checker :: checker where
  "sample_checker = register_endpoint ''tier1'' ''http://cell-tier1:9001''
     (new_checker \<lparr>ck_path = ''/health'', ck_interval = 10 * second, ck_timeout = 2 * second\<rparr>)"

lemma sample_checker_eq:
  "sample_checker = \<lparr>ck_endpoints = \<lparr>refs = [(''tier1'', 0)],
       cells = [\<lparr>eh_url = ''http://cell-tier1:9001'', eh_state = Healthy, eh_last_check = 0\<rparr>]\<rparr>,
     ck_config = \<lparr>ck_path = ''/health'', ck_interval = 10 * second, ck_timeout = 2 * second\<rparr>,
     ck_loops = [(''tier1'', 0)], ck_stopped = False\<rparr>"
  by (simp add: sample_checker_def register_endpoint_def new_checker_def)
    (simp add: st_bind_def st_empty_def)

lemma sample_checker_reach: "reach (\<lambda>c. \<exists>cfg. c = new_checker cfg) checker_step sample_checker"
  unfolding sample_checker_def by (blast intro: reach_init reach_step cs_register)


text \<open>
  Property C25. A check decides the health of its own placement and of no other: the
  placement counts as healthy after it exactly if the health URL parses and the GET answered
  with a status from 200 to 299. There is no hysteresis: earlier results do not matter.
\<close>

theorem check_decides_health:
  assumes "checker_inv c" "st_ref (ck_endpoints c) pk = Some r"
  shows "is_healthy (fst (perform_check clk env pk r c)) q \<longleftrightarrow>
    (if q = pk
     then (let url = eh_url (cells (ck_endpoints c) ! r) @ ck_path (ck_config c)
           in \<not> isl (parse_url url) \<and> (\<exists>code. http_get env url = Inr code \<and> 200 \<le> code \<and> code < 300))
     else is_healthy c q)"
proof -
  have wf: "st_wf (ck_endpoints c)" and inj: "st_inj (ck_endpoints c)"
    using assms(1) by (simp_all add: checker_inv_def)
  show ?thesis
  proof (cases "q = pk")
    case True
    then show ?thesis
      by (simp add: is_healthy_def fst_perform_check st_get_write [OF wf] assms(2) set_state_def
          check_verdict_def Let_def split: sum.split)
  next
    case False
    then have "st_ref (ck_endpoints c) q \<noteq> Some r" using st_injD [OF inj assms(2)] by metis
    with False show ?thesis
      by (simp add: is_healthy_def fst_perform_check st_get_write [OF wf])
  qed
qed

definition sample_env :: check_env where
  "sample_env = \<lparr>http_get = (\<lambda>url. if url = ''http://cell-tier1:9001/health'' then Inr 503 else Inl ''refused''),
     url_error_text = (\<lambda>_. ''bad url'')\<rparr>"

theorem check_decides_health_witness:
  "is_healthy sample_checker ''tier1''
   \<and> \<not> is_healthy (fst (perform_check (\<lambda>_. 5) sample_env ''tier1'' 0 sample_checker)) ''tier1''"
proof -
  have inv: "checker_inv sample_checker" by (rule checkers.reach_inv [OF sample_checker_reach])
  have r: "st_ref (ck_endpoints sample_checker) ''tier1'' = Some 0"
    by (simp add: sample_checker_eq st_ref_def)
  have "is_healthy sample_checker ''tier1''"
    by (simp add: sample_checker_eq is_healthy_def st_get_def st_ref_def)
  moreover have "\<not> is_healthy (fst (perform_check (\<lambda>_. 5) sample_env ''tier1'' 0 sample_checker)) ''tier1''"
    by (subst check_decides_health [OF inv r]) (simp add: Let_def sample_checker_eq sample_env_def)
  ultimately show ?thesis by simp
qed

text \<open>
  Unregistering an endpoint does not end its checks: the goroutine stays among
  the loops for good (until the whole checker stops), also when the placement is registered again, which starts a
  second one. Its checks no longer reach the placement's health: unregistered, it counts as
  healthy, and registered again it starts healthy whatever the old goroutine sees.
\<close>

theorem unregister_keeps_goroutine:
  assumes "reach (\<lambda>c. \<exists>cfg. c = new_checker cfg) checker_step c" "\<not> ck_stopped c"
    and "st_ref (ck_endpoints c) pk = Some r"
  shows "(pk, r) \<in> set (ck_loops (register_endpoint pk url (unregister_endpoint pk c)))
    \<and> length (ck_loops (register_endpoint pk url (unregister_endpoint pk c))) = Suc (length (ck_loops c))
    \<and> is_healthy (fst (perform_check clk env pk r (unregister_endpoint pk c))) pk
    \<and> is_healthy (fst (perform_check clk env pk r (register_endpoint pk url (unregister_endpoint pk c)))) pk"
proof -
  have inv: "checker_inv c" by (rule checkers.reach_inv [OF assms(1)])
  have r: "r < length (cells (ck_endpoints c))" and wf: "st_wf (ck_endpoints c)"
    using inv assms(2,3) by (auto simp: checker_inv_def st_wf_def)
  have "(pk, r) \<in> set (ck_loops c)" using inv assms(2,3) by (auto simp: checker_inv_def)
  moreover have "st_ref (st_unbind pk (ck_endpoints c)) pk = None" by (simp add: st_ref_unbind)
  ultimately show ?thesis
    using r wf
    by (simp add: register_endpoint_def unregister_endpoint_def is_healthy_def fst_perform_check
        st_get_write st_get_bind st_get_unbind st_ref_bind st_ref_unbind)
qed

theorem unregister_keeps_goroutine_witness:
  "(''tier1'', 0) \<in> set (ck_loops (register_endpoint ''tier1'' ''http://x'' (unregister_endpoint ''tier1'' sample_checker)))"
  using unregister_keeps_goroutine [OF sample_checker_reach, of "''tier1''" 0 "''http://x''"]
  by (simp add: sample_checker_eq st_ref_def)

end
