(* ===== verification/Proxy.thy ===== *)
theory Proxy
  imports Routing Circuit Health Limits
begin

text \<open>
  \<open>internal/proxy/handler.go\<close>: the request handler. \<open>world\<close> holds what a request can change
  (the handler's managers, the response being written, the log, the requests sent upstream); an action
  maps a world to a result, or a panic, and the next world. The functions follow \<open>ServeHTTP\<close> statement
  by statement; the deferred release of the slot runs whether its body returns or panics.
\<close>

section \<open>Headers\<close>

text \<open>An \<open>http.Header\<close>; the keys are in canonical form, as a server delivers them.\<close>

type_synonym header = "(string \<times> string list) list"

definition header_get :: "header \<Rightarrow> string \<Rightarrow> string" where
  "header_get h k = (case map_of h k of Some (v # vs) \<Rightarrow> v | _ \<Rightarrow> [])"

definition header_set :: "string \<Rightarrow> string \<Rightarrow> header \<Rightarrow> header" where
  "header_set k v h = AList.update k [v] h"

definition header_add :: "string \<Rightarrow> string \<Rightarrow> header \<Rightarrow> header" where
  "header_add k v h = AList.update k ((case map_of h k of None \<Rightarrow> [] | Some vs \<Rightarrow> vs) @ [v]) h"

text \<open>The two nested loops that copy a header.\<close>

fun header_copy :: "header \<Rightarrow> header \<Rightarrow> header" where
  "header_copy [] dst = dst"
| "header_copy ((k, vs) # src) dst = header_copy src (fold (header_add k) vs dst)"

lemma header_get_set: "header_get (header_set k v h) j = (if j = k then v else header_get h j)"
  by (simp add: header_get_def header_set_def update_conv')

lemma header_get_add:
  "header_get (header_add k v h) j = (if j = k \<and> (\<forall>u us. map_of h k \<noteq> Some (u # us)) then v else header_get h j)"
  by (auto simp: header_get_def header_add_def update_conv' split: option.splits list.splits)

lemma map_of_fold_add:
  "map_of (fold (header_add k) vs h) j =
     (if j = k \<and> vs \<noteq> [] then Some ((case map_of h k of None \<Rightarrow> [] | Some us \<Rightarrow> us) @ vs) else map_of h j)"
proof (induction vs arbitrary: h)
  case (Cons v vs)
  then show ?case by (auto simp: header_add_def update_conv' split: option.splits)
qed simp

lemma map_of_header_copy:
  "distinct (map fst src) \<Longrightarrow> map_of (header_copy src dst) j =
     (case map_of src j of None \<Rightarrow> map_of dst j
      | Some vs \<Rightarrow> if vs = [] then map_of dst j
          else Some ((case map_of dst j of None \<Rightarrow> [] | Some us \<Rightarrow> us) @ vs))"
proof (induction src dst rule: header_copy.induct)
  case (2 k vs src dst)
  then have "map_of src k = None" by (simp add: map_of_eq_None_iff)
  with 2 show ?case by (auto simp: map_of_fold_add split: option.splits)
qed simp

section \<open>Requests, replies, responses\<close>

record request =
  rq_method :: string
  rq_path :: string
  rq_raw_query :: string
  rq_header :: header
  rq_remote_addr :: string
  rq_tls :: bool
  rq_content_length :: int
  rq_body :: string

record upstream_request =
  up_method :: string
  up_scheme :: string
  up_host :: string
  up_path :: string
  up_raw_query :: string
  up_header :: header
  up_body :: string

text \<open>
  What comes back from the transport: an error before any response, or a status, the headers,
  the part of the body that was copied and the error that cut the copy short, if any.
\<close>

datatype reply = Send_Error string
  | Reply (reply_status: int) (reply_header: header) (reply_body: string) (copy_error: "string option")

record writer =
  wr_header :: header
  wr_status :: "int option"
  wr_body :: string

definition new_writer :: writer where
  "new_writer = \<lparr>wr_header = [], wr_status = None, wr_body = []\<rparr>"

text \<open>
  \<open>WriteHeader\<close>: a code outside 100 to 999 panics; the first call fixes the status.
\<close>

definition write_header :: "int \<Rightarrow> writer \<Rightarrow> writer outcome" where
  "write_header code w =
     (if code < 100 \<or> 999 < code then Panic Bad_Status_Code
      else Ret (if wr_status w = None then w\<lparr>wr_status := Some code\<rparr> else w))"

text \<open>\<open>http.Error\<close>\<close>

definition http_error :: "string \<Rightarrow> int \<Rightarrow> writer \<Rightarrow> writer outcome" where
  "http_error msg code w0 =
     (let w = w0\<lparr>wr_header := header_set ''X-Content-Type-Options'' ''nosniff''
                (header_set ''Content-Type'' ''text/plain; charset=utf-8'' (wr_header w0))\<rparr>
      in omap (\<lambda>w. w\<lparr>wr_body := wr_body w @ msg @ [CHR 0x0A]\<rparr>) (write_header code w))"

section \<open>The handler and its construction\<close>

text \<open>
  \<open>h_orphans\<close> are the checkers that \<open>configureResilienceMechanisms\<close> replaced: nothing
  refers to them any more, but their goroutines run.
\<close>

record handler =
  h_config :: config
  h_checker :: checker
  h_orphans :: "checker list"
  h_circuit :: circuit_manager
  h_limits :: limits_manager

definition default_check_config :: check_config where
  "default_check_config = \<lparr>ck_path = ''/health'', ck_interval = 10 * second, ck_timeout = 2 * second\<rparr>"

definition default_breaker_config :: breaker_config where
  "default_breaker_config = \<lparr>failure_threshold = 5, open_timeout = 30 * second\<rparr>"

definition configure_health :: "placement_config \<Rightarrow> string \<Rightarrow> string \<Rightarrow> handler \<Rightarrow> handler" where
  "configure_health p pk url h =
     (case pl_health_check p of
        Some hc \<Rightarrow>
          (case parse_health_check hc of Inl e \<Rightarrow> h
           | Inr parsed \<Rightarrow>
             h\<lparr>h_checker := register_endpoint pk url (new_checker
                  \<lparr>ck_path = phc_path parsed, ck_interval = phc_interval parsed, ck_timeout = phc_timeout parsed\<rparr>),
               h_orphans := h_checker h # h_orphans h\<rparr>)
      | None \<Rightarrow> h\<lparr>h_checker := register_endpoint pk url (h_checker h)\<rparr>)"

definition configure_limits :: "placement_config \<Rightarrow> string \<Rightarrow> handler \<Rightarrow> handler outcome" where
  "configure_limits p pk h =
     (if 0 < pl_concurrency_limit p \<or> 0 < pl_max_request_body_bytes p
      then omap (\<lambda>lm. h\<lparr>h_limits := lm\<rparr>)
        (set_config pk \<lparr>max_concurrent_requests = pl_concurrency_limit p,
            max_request_body_bytes = pl_max_request_body_bytes p\<rparr> (h_limits h))
      else Ret h)"

text \<open>The loop over the endpoints.\<close>

fun configure_endpoints :: "config \<Rightarrow> (string \<times> string) list \<Rightarrow> handler \<Rightarrow> handler outcome" where
  "configure_endpoints cfg [] h = Ret h"
| "configure_endpoints cfg ((pk, url) # es) h =
     (case get_placement_config cfg pk of
        (Some p, True) \<Rightarrow>
          obind (configure_limits p pk (configure_health p pk url h)) (configure_endpoints cfg es)
      | _ \<Rightarrow> configure_endpoints cfg es (h\<lparr>h_checker := register_endpoint pk url (h_checker h)\<rparr>))"

definition configure_resilience :: "config \<Rightarrow> handler \<Rightarrow> handler outcome" where
  "configure_resilience cfg h =
     obind (get_cell_endpoints cfg) (\<lambda>eps. configure_endpoints cfg (entries eps) h)"

definition new_handler :: "config \<Rightarrow> handler outcome" where
  "new_handler cfg = configure_resilience cfg
     \<lparr>h_config = cfg, h_checker = new_checker default_check_config, h_orphans = [],
      h_circuit = new_circuit_manager default_breaker_config, h_limits = new_limits_manager\<rparr>"

text \<open>\<open>Stop\<close> stops the checker the handler still refers to.\<close>

definition stop_handler :: "handler \<Rightarrow> handler outcome" where
  "stop_handler h = omap (\<lambda>c. h\<lparr>h_checker := c\<rparr>) (stop_checker (h_checker h))"

section \<open>Actions\<close>

record world =
  wd_handler :: handler
  wd_writer :: writer
  wd_logs :: "log_line list"
  wd_sent :: "upstream_request list"
  wd_blocked :: bool

type_synonym 'a action = "world \<Rightarrow> 'a outcome \<times> world"

definition give :: "'a \<Rightarrow> 'a action" where
  "give x = (\<lambda>w. (Ret x, w))"

definition seq :: "'a action \<Rightarrow> ('a \<Rightarrow> 'b action) \<Rightarrow> 'b action" where
  "seq m f = (\<lambda>w. case m w of (Ret x, w') \<Rightarrow> f x w' | (Panic p, w') \<Rightarrow> (Panic p, w'))"

definition compute :: "'a outcome \<Rightarrow> 'a action" where
  "compute m = (\<lambda>w. (m, w))"

definition emit :: "log_line list \<Rightarrow> unit action" where
  "emit ls = (\<lambda>w. (Ret (), w\<lparr>wd_logs := wd_logs w @ ls\<rparr>))"

definition on_writer :: "(writer \<Rightarrow> writer outcome) \<Rightarrow> unit action" where
  "on_writer f = (\<lambda>w. case f (wd_writer w) of Ret wr \<Rightarrow> (Ret (), w\<lparr>wd_writer := wr\<rparr>) | Panic p \<Rightarrow> (Panic p, w))"

definition set_response_header :: "string \<Rightarrow> string \<Rightarrow> unit action" where
  "set_response_header k v = on_writer (\<lambda>wr. Ret (wr\<lparr>wr_header := header_set k v (wr_header wr)\<rparr>))"

definition take_slot :: "clock \<Rightarrow> string \<Rightarrow> bool action" where
  "take_slot clk pk = (\<lambda>w. let (ok, lm, logs) = try_acquire_slot clk pk (h_limits (wd_handler w))
     in (Ret ok, w\<lparr>wd_handler := (wd_handler w)\<lparr>h_limits := lm\<rparr>, wd_logs := wd_logs w @ logs\<rparr>))"

text \<open>\<open>defer h.limitsManager.Release(placementKey)\<close>: the key is the one at the \<open>defer\<close>.\<close>

definition with_slot :: "string \<Rightarrow> 'a action \<Rightarrow> 'a action" where
  "with_slot pk body = (\<lambda>w. let (res, w1) = body w; (returns, lm) = release_slot pk (h_limits (wd_handler w1))
     in (res, w1\<lparr>wd_handler := (wd_handler w1)\<lparr>h_limits := lm\<rparr>, wd_blocked := wd_blocked w1 \<or> \<not> returns\<rparr>))"

definition find_breaker :: "clock \<Rightarrow> string \<Rightarrow> nat action" where
  "find_breaker clk pk = (\<lambda>w. let (b, cm) = get_breaker clk pk (h_circuit (wd_handler w))
     in (Ret b, w\<lparr>wd_handler := (wd_handler w)\<lparr>h_circuit := cm\<rparr>\<rparr>))"

definition breaker_at :: "nat \<Rightarrow> handler \<Rightarrow> breaker" where
  "breaker_at b h = cells (cm_breakers (h_circuit h)) ! b"

definition put_breaker :: "nat \<Rightarrow> breaker \<Rightarrow> handler \<Rightarrow> handler" where
  "put_breaker b br h =
     h\<lparr>h_circuit := (h_circuit h)\<lparr>cm_breakers := st_write b br (cm_breakers (h_circuit h))\<rparr>\<rparr>"

definition ask_breaker :: "clock \<Rightarrow> nat \<Rightarrow> bool action" where
  "ask_breaker clk b = (\<lambda>w. let (ok, br, logs) = allow clk (breaker_at b (wd_handler w))
     in (Ret ok, w\<lparr>wd_handler := put_breaker b br (wd_handler w), wd_logs := wd_logs w @ logs\<rparr>))"

definition record_result :: "clock \<Rightarrow> bool \<Rightarrow> nat \<Rightarrow> unit action" where
  "record_result clk failed b = (\<lambda>w. let (br, logs) =
       (if failed then record_failure clk else record_success clk) (breaker_at b (wd_handler w))
     in (Ret (), w\<lparr>wd_handler := put_breaker b br (wd_handler w), wd_logs := wd_logs w @ logs\<rparr>))"

definition read_handler :: "(handler \<Rightarrow> 'a) \<Rightarrow> 'a action" where
  "read_handler f = (\<lambda>w. (Ret (f (wd_handler w)), w))"

lemmas action_defs = give_def seq_def compute_def emit_def on_writer_def set_response_header_def
  take_slot_def find_breaker_def ask_breaker_def record_result_def read_handler_def

text \<open>Running a sequence one step at a time.\<close>

lemma seq_Ret: "m w = (Ret x, w') \<Longrightarrow> seq m f w = f x w'"
  by (simp add: seq_def)

lemma seq_steps:
  "seq (give x) f w = f x w" "seq (read_handler g) f w = f (g (wd_handler w)) w"
  "seq (compute (Ret x)) f w = f x w" "seq (emit ls) h w = h () (w\<lparr>wd_logs := wd_logs w @ ls\<rparr>)"
  by (simp_all add: seq_def give_def read_handler_def compute_def emit_def)

section \<open>The world of one request\<close>

text \<open>
  What \<open>ServeHTTP\<close> reads from outside: the clock at each of its calls (numbered in the
  order of the code), the random bytes, the router's answer, the transport, the texts of the
  library's errors, and what other goroutines do to the managers while it waits for the upstream response
  (\<open>0\<close>) and while it copies the body (\<open>1\<close>), the points at which it blocks.
\<close>

datatype proxy_error = Bad_Endpoint_URL url_error | Bad_Target_URL url_error
  | Unsupported_Scheme string | No_Host | Transport_Error string | Copy_Error string

record env =
  ev_clock :: "nat \<Rightarrow> clock"
  ev_random :: "8 word list"
  ev_route :: "string \<Rightarrow> (route_error + routing_decision) outcome"
  ev_net :: "upstream_request \<Rightarrow> reply"
  ev_error_text :: "proxy_error \<Rightarrow> string"
  ev_others :: "nat \<Rightarrow> handler \<Rightarrow> handler"

definition generate_request_id :: "env \<Rightarrow> string" where
  "generate_request_id env = hex_encode (ev_random env)"

definition info :: "env \<Rightarrow> nat \<Rightarrow> string \<Rightarrow> log_fields \<Rightarrow> unit action" where
  "info env n msg fs = emit [log_info (ev_clock env n 0) msg fs]"

definition fault :: "env \<Rightarrow> nat \<Rightarrow> string \<Rightarrow> string option \<Rightarrow> log_fields \<Rightarrow> unit action" where
  "fault env n msg err fs = emit [log_error (ev_clock env n 0) msg err fs]"

definition route_error_text :: "route_error \<Rightarrow> string" where
  "route_error_text e = (case e of No_Endpoint pk \<Rightarrow> ''no endpoint configured for placement: '' @ pk)"

definition body_error_text :: "body_size_error \<Rightarrow> string" where
  "body_error_text e = (case e of Body_Too_Large sz limit \<Rightarrow>
     ''request body size '' @ show_int sz @ '' exceeds limit '' @ show_int limit)"

section \<open>The completed request in the log\<close>

definition log_completed ::
    "env \<Rightarrow> string \<Rightarrow> request \<Rightarrow> string \<Rightarrow> string \<Rightarrow> string \<Rightarrow> string \<Rightarrow> int \<Rightarrow> string \<Rightarrow> unit action" where
  "log_completed env rid r key pk why url status failover =
     (let us = (ev_clock env 98 0 - ev_clock env 0 0) div 1000
      in if failover \<noteq> []
         then info env 99 (''request completed with failover: '' @ failover)
           [(''request_id'', Log_Str rid), (''method'', Log_Str (rq_method r)), (''path'', Log_Str (rq_path r)),
            (''routing_key'', Log_Str key), (''placement_key'', Log_Str pk), (''route_reason'', Log_Str why),
            (''upstream_url'', Log_Str url), (''status_code'', Log_Int status), (''duration_ms'', Log_Millis us),
            (''failover_reason'', Log_Str failover)]
         else emit [log_request (ev_clock env 99 0) \<lparr>rl_request_id = rid, rl_method = rq_method r,
           rl_path = rq_path r, rl_routing_key = key, rl_placement_key = pk, rl_route_reason = why,
           rl_upstream_url = url, rl_status_code = status, rl_duration_us = us\<rparr>])"

section \<open>Sending the request upstream\<close>

text \<open>
  \<open>NewRequestWithContext\<close> on the rendered target URL: a relative path gets its slash, a fragment
  inside the raw query is cut off (after its escapes are checked), an empty port is dropped.
\<close>

definition new_request :: "request \<Rightarrow> parsed_url \<Rightarrow> proxy_error + upstream_request" where
  "new_request r u =
     (let host = (if url_host u \<noteq> [] \<and> last (url_host u) = CHR '':'' then butlast (url_host u) else url_host u);
          path = (if rq_path r \<noteq> [] \<and> hd (rq_path r) \<noteq> CHR ''/'' \<and> url_host u \<noteq> []
            then CHR ''/'' # rq_path r else rq_path r);
          (query, frag) = cut (CHR ''#'') (rq_raw_query r);
          req = \<lparr>up_method = rq_method r, up_scheme = url_scheme u, up_host = host, up_path = path,
            up_raw_query = query, up_header = [], up_body = rq_body r\<rparr>
      in case frag of None \<Rightarrow> Inr req
         | Some f \<Rightarrow> (case unescape Plain f of Inl e \<Rightarrow> Inl (Bad_Target_URL e) | Inr _ \<Rightarrow> Inr req))"

definition forwarded_for :: "request \<Rightarrow> header \<Rightarrow> string" where
  "forwarded_for r h =
     (let client = split_host (rq_remote_addr r); prior = header_get h ''X-Forwarded-For''
      in if prior \<noteq> [] then prior @ '', '' @ client else client)"

definition upstream_headers :: "string \<Rightarrow> request \<Rightarrow> header" where
  "upstream_headers rid r =
     (let h0 = header_copy (rq_header r) [];
          h1 = header_set ''X-Request-Id'' rid h0;
          h2 = header_set ''X-Forwarded-For'' (forwarded_for r h1) h1
      in header_set ''X-Forwarded-Proto'' (if rq_tls r then ''https'' else ''http'') h2)"

definition build_request :: "string \<Rightarrow> request \<Rightarrow> string \<Rightarrow> proxy_error + upstream_request" where
  "build_request rid r url =
     (case parse_url url of Inl e \<Rightarrow> Inl (Bad_Endpoint_URL e)
      | Inr u \<Rightarrow> (case new_request r u of Inl e \<Rightarrow> Inl e
          | Inr req \<Rightarrow> Inr (req\<lparr>up_header := upstream_headers rid r\<rparr>)))"

definition let_others_run :: "env \<Rightarrow> nat \<Rightarrow> unit action" where
  "let_others_run env n = (\<lambda>w. (Ret (), w\<lparr>wd_handler := ev_others env n (wd_handler w)\<rparr>))"

text \<open>
  \<open>client.Do\<close>: the transport refuses a scheme other than http and https and an empty host
  before it sends anything; redirects are not followed.
\<close>

definition client_do :: "env \<Rightarrow> upstream_request \<Rightarrow> (proxy_error + reply) action" where
  "client_do env req =
     (if up_scheme req \<noteq> ''http'' \<and> up_scheme req \<noteq> ''https'' then give (Inl (Unsupported_Scheme (up_scheme req)))
      else if up_host req = [] then give (Inl No_Host)
      else (\<lambda>w. let w1 = w\<lparr>wd_sent := wd_sent w @ [req]\<rparr>;
                w2 = snd (let_others_run env 0 w1)
           in case ev_net env req of Send_Error t \<Rightarrow> (Ret (Inl (Transport_Error t)), w2)
              | rep \<Rightarrow> (Ret (Inr rep), w2)))"

text \<open>The headers of the response, in the order of the code.\<close>

definition response_headers ::
    "header \<Rightarrow> routing_decision \<Rightarrow> string \<Rightarrow> cb_state \<Rightarrow> header \<Rightarrow> header" where
  "response_headers up d failover st h0 =
     (let h1 = header_copy up h0;
          h2 = header_set ''X-Route-Reason'' (reason_text (reason d)) (header_set ''X-Routed-To'' (placement_key d) h1);
          h3 = (if failover \<noteq> [] then header_set ''X-Failover-Reason'' failover h2 else h2)
      in header_set ''X-Circuit-State'' (state_text st) h3)"

definition respond ::
    "env \<Rightarrow> routing_decision \<Rightarrow> string \<Rightarrow> int \<Rightarrow> header \<Rightarrow> string \<Rightarrow> string option
     \<Rightarrow> (int \<times> proxy_error option) action" where
  "respond env d failover status hdr body err =
     seq (find_breaker (ev_clock env 30) (placement_key d)) (\<lambda>b.
     seq (read_handler (\<lambda>h. get_state (breaker_at b h))) (\<lambda>st.
     seq (on_writer (\<lambda>wr. Ret (wr\<lparr>wr_header := response_headers hdr d failover st (wr_header wr)\<rparr>))) (\<lambda>_.
     seq (on_writer (write_header status)) (\<lambda>_.
     seq (on_writer (\<lambda>wr. Ret (wr\<lparr>wr_body := wr_body wr @ body\<rparr>))) (\<lambda>_.
     seq (let_others_run env 1) (\<lambda>_. give (status, map_option Copy_Error err)))))))"

text \<open>The status, 0 when no response was started, and the error.\<close>

definition proxy_request ::
    "env \<Rightarrow> request \<Rightarrow> routing_decision \<Rightarrow> string \<Rightarrow> string \<Rightarrow> (int \<times> proxy_error option) action" where
  "proxy_request env r d rid failover =
     (case build_request rid r (endpoint_url d) of Inl e \<Rightarrow> give (0, Some e)
      | Inr req \<Rightarrow> seq (client_do env req) (\<lambda>res.
          case res of Inl e \<Rightarrow> give (0, Some e)
          | Inr (Send_Error t) \<Rightarrow> give (0, Some (Transport_Error t))
          | Inr (Reply status hdr body err) \<Rightarrow> respond env d failover status hdr body err))"

section \<open>ServeHTTP\<close>

text \<open>
  The target of a request while the checks may redirect it: the decision, the variable
  \<open>placementKey\<close> and \<open>failoverReason\<close>. A check that answers the request itself yields \<open>None\<close>.
\<close>

record target =
  tg_decision :: routing_decision
  tg_placement :: string
  tg_failover :: string

definition redirect :: "string \<Rightarrow> string \<Rightarrow> string \<Rightarrow> target \<Rightarrow> target" where
  "redirect pk url why t = \<lparr>tg_decision = (tg_decision t)\<lparr>placement_key := pk, endpoint_url := url\<rparr>,
     tg_placement = pk, tg_failover = why\<rparr>"

text \<open>\<open>if placementCfg, ok := GetPlacementConfig(k); ok && placementCfg.Fallback != empty\<close>\<close>

definition fallback_of :: "config \<Rightarrow> string \<Rightarrow> string option outcome" where
  "fallback_of c pk = (case get_placement_config c pk of
     (p, False) \<Rightarrow> Ret None
   | (None, True) \<Rightarrow> Panic Nil_Deref
   | (Some p, True) \<Rightarrow> Ret (if pl_fallback p \<noteq> [] then Some (pl_fallback p) else None))"

text \<open>\<open>h.config.GetCellEndpoints()[pk]\<close>: an unknown key gives the empty URL.\<close>

definition endpoint_lookup :: "config \<Rightarrow> string \<Rightarrow> string outcome" where
  "endpoint_lookup c pk = omap (\<lambda>eps. case lookup eps pk of None \<Rightarrow> [] | Some u \<Rightarrow> u) (get_cell_endpoints c)"

definition circuit_stage ::
    "env \<Rightarrow> string \<Rightarrow> request \<Rightarrow> string \<Rightarrow> nat \<Rightarrow> target \<Rightarrow> target option action" where
  "circuit_stage env rid r key b t =
     seq (ask_breaker (ev_clock env 10) b) (\<lambda>ok.
     if ok then give (Some t)
     else seq (read_handler h_config) (\<lambda>c.
     seq (compute (fallback_of c (tg_placement t))) (\<lambda>fb.
     case fb of
       Some f \<Rightarrow>
         seq (compute (endpoint_lookup c f)) (\<lambda>url.
         let t' = redirect f url ''circuit_open'' t in
         seq (info env 11 ''circuit open, routing to fallback''
           [(''request_id'', Log_Str rid), (''original_placement'', Log_Str (placement_key (tg_decision t'))),
            (''fallback_placement'', Log_Str f)]) (\<lambda>_. give (Some t')))
     | None \<Rightarrow>
         seq (read_handler (\<lambda>h. state_text (get_state (breaker_at b h)))) (\<lambda>st.
         seq (fault env 12 ''circuit breaker open, no fallback'' None
           [(''request_id'', Log_Str rid), (''routing_key'', Log_Str key),
            (''placement_key'', Log_Str (tg_placement t)), (''circuit_state'', Log_Str st)]) (\<lambda>_.
         seq (set_response_header ''X-Circuit-State'' st) (\<lambda>_.
         seq (on_writer (http_error ''Service Unavailable: Circuit Breaker Open'' 503)) (\<lambda>_.
         seq (log_completed env rid r key (tg_placement t) (reason_text (reason (tg_decision t)))
           (endpoint_url (tg_decision t)) 503 ''circuit_open'') (\<lambda>_. give None))))))))"

definition health_stage :: "env \<Rightarrow> string \<Rightarrow> target \<Rightarrow> target action" where
  "health_stage env rid t =
     seq (read_handler (\<lambda>h. is_healthy (h_checker h) (tg_placement t))) (\<lambda>healthy.
     if healthy then give t
     else seq (read_handler h_config) (\<lambda>c.
     seq (compute (fallback_of c (tg_placement t))) (\<lambda>fb.
     case fb of
       Some f \<Rightarrow>
         seq (compute (endpoint_lookup c f)) (\<lambda>url.
         seq (info env 20 ''endpoint unhealthy, routing to fallback''
           [(''request_id'', Log_Str rid), (''original_placement'', Log_Str (placement_key (tg_decision t))),
            (''fallback_placement'', Log_Str f)]) (\<lambda>_. give (redirect f url ''upstream_unhealthy'' t)))
     | None \<Rightarrow>
         let d = get_default_placement c in
         if d = tg_placement t then give t
         else seq (compute (endpoint_lookup c d)) (\<lambda>url.
           let t' = redirect d url ''upstream_unhealthy'' t in
           seq (info env 21 ''endpoint unhealthy, routing to default''
             [(''request_id'', Log_Str rid), (''original_placement'', Log_Str (placement_key (tg_decision t'))),
              (''default_placement'', Log_Str d)]) (\<lambda>_. give t')))))"

text \<open>The request is sent, its result recorded in breaker \<open>b\<close>, and logged.\<close>

definition proxy_stage :: "env \<Rightarrow> string \<Rightarrow> request \<Rightarrow> string \<Rightarrow> nat \<Rightarrow> target \<Rightarrow> unit action" where
  "proxy_stage env rid r key b t =
     (let d = tg_decision t in
     seq (proxy_request env r d rid (tg_failover t)) (\<lambda>(status, err).
     seq (record_result (ev_clock env 40) (err \<noteq> None \<or> 500 \<le> status) b) (\<lambda>_.
     seq (case err of None \<Rightarrow> give status
       | Some e \<Rightarrow>
         seq (fault env 41 ''proxy error'' (Some (ev_error_text env e))
           [(''request_id'', Log_Str rid), (''routing_key'', Log_Str key),
            (''placement_key'', Log_Str (placement_key d)), (''upstream_url'', Log_Str (endpoint_url d))]) (\<lambda>_.
         if status = 0 then seq (on_writer (http_error ''Bad Gateway'' 502)) (\<lambda>_. give 502) else give status)) (\<lambda>status.
     log_completed env rid r key (placement_key d) (reason_text (reason d)) (endpoint_url d) status (tg_failover t)))))"

text \<open>What runs while the slot is held.\<close>

definition guarded_stages :: "env \<Rightarrow> string \<Rightarrow> request \<Rightarrow> string \<Rightarrow> target \<Rightarrow> unit action" where
  "guarded_stages env rid r key t =
     seq (read_handler (\<lambda>h. if 0 < rq_content_length r
       then validate_request_body_size (h_limits h) (tg_placement t) (rq_content_length r) else None)) (\<lambda>too_large.
     case too_large of
       Some e \<Rightarrow>
         seq (fault env 6 ''request body too large'' (Some (body_error_text e))
           [(''request_id'', Log_Str rid), (''routing_key'', Log_Str key), (''placement_key'', Log_Str (tg_placement t)),
            (''content_length'', Log_Int (rq_content_length r))]) (\<lambda>_.
         seq (on_writer (http_error ''Request Entity Too Large'' 413)) (\<lambda>_.
         log_completed env rid r key (tg_placement t) (reason_text (reason (tg_decision t)))
           (endpoint_url (tg_decision t)) 413 ''body_size_limit''))
     | None \<Rightarrow>
         seq (find_breaker (ev_clock env 9) (tg_placement t)) (\<lambda>b.
         seq (circuit_stage env rid r key b t) (\<lambda>res.
         case res of None \<Rightarrow> give ()
         | Some t1 \<Rightarrow> seq (health_stage env rid t1) (\<lambda>t2. proxy_stage env rid r key b t2))))"

definition limited_stages :: "env \<Rightarrow> string \<Rightarrow> request \<Rightarrow> string \<Rightarrow> routing_decision \<Rightarrow> unit action" where
  "limited_stages env rid r key d =
     (let pk = placement_key d in
     seq (take_slot (ev_clock env 3) pk) (\<lambda>ok.
     if \<not> ok then
       seq (fault env 4 ''concurrency limit exceeded'' None
         [(''request_id'', Log_Str rid), (''routing_key'', Log_Str key), (''placement_key'', Log_Str pk)]) (\<lambda>_.
       seq (on_writer (http_error ''Service Unavailable: Too Many Requests'' 429)) (\<lambda>_.
       log_completed env rid r key pk (reason_text (reason d)) (endpoint_url d) 429 ''concurrency_limit''))
     else with_slot pk (guarded_stages env rid r key \<lparr>tg_decision = d, tg_placement = pk, tg_failover = []\<rparr>)))"

definition request_id :: "env \<Rightarrow> request \<Rightarrow> string" where
  "request_id env r = (let given = header_get (rq_header r) ''X-Request-Id''
     in if given = [] then generate_request_id env else given)"

definition serve_http :: "env \<Rightarrow> request \<Rightarrow> unit action" where
  "serve_http env r =
     (let rid = request_id env r; key = header_get (rq_header r) ''X-Routing-Key'' in
     if key = [] then
       seq (fault env 1 ''missing routing key'' None [(''request_id'', Log_Str rid)]) (\<lambda>_.
       seq (on_writer (http_error ''Bad Request: X-Routing-Key header is required'' 400)) (\<lambda>_.
       log_completed env rid r key [] [] [] 400 []))
     else seq (compute (ev_route env key)) (\<lambda>res.
       case res of
         Inl e \<Rightarrow>
           seq (fault env 2 ''routing error'' (Some (route_error_text e))
             [(''request_id'', Log_Str rid), (''routing_key'', Log_Str key)]) (\<lambda>_.
           seq (on_writer (http_error ''Internal Server Error'' 500)) (\<lambda>_.
           log_completed env rid r key [] [] [] 500 []))
       | Inr d \<Rightarrow> limited_stages env rid r key d))"

section \<open>What every action keeps\<close>

definition keeps :: "(world \<Rightarrow> bool) \<Rightarrow> 'a action \<Rightarrow> bool" where
  "keeps I m \<longleftrightarrow> (\<forall>w. I w \<longrightarrow> I (snd (m w)))"

named_theorems keeps_rules \<open>introduction rules for \<open>keeps\<close>\<close>

lemma keepsD: "keeps I m \<Longrightarrow> I w \<Longrightarrow> I (snd (m w))"
  by (simp add: keeps_def)

lemma keeps_seq [keeps_rules]: "keeps I m \<Longrightarrow> (\<And>x. keeps I (f x)) \<Longrightarrow> keeps I (seq m f)"
  by (fastforce simp: keeps_def seq_def split: prod.split outcome.split)

lemma keeps_pure [keeps_rules]:
  "keeps I (give x)" "keeps I (compute m)" "keeps I (read_handler f)"
  by (simp_all add: keeps_def give_def compute_def read_handler_def)

lemma keeps_if [keeps_rules]: "keeps I m \<Longrightarrow> keeps I n \<Longrightarrow> keeps I (if c then m else n)"
  by simp

text \<open>
  The contract of an invariant that writing the log, the response and the breakers cannot
  break. Its law is that the stages of a request keep it, up to the sending and what other goroutines do.
\<close>

locale request_invariant =
  fixes I :: "world \<Rightarrow> bool"
  assumes logs_law: "I w \<Longrightarrow> I (w\<lparr>wd_logs := ls\<rparr>)"
    and writer_law: "I w \<Longrightarrow> I (w\<lparr>wd_writer := wr\<rparr>)"
    and circuit_law: "I w \<Longrightarrow> I (w\<lparr>wd_handler := (wd_handler w)\<lparr>h_circuit := cm\<rparr>\<rparr>)"
begin

lemma keeps_emit: "keeps I (emit ls)" "keeps I (info env n msg fs)" "keeps I (fault env n msg err fs)"
  by (simp_all add: keeps_def info_def fault_def emit_def logs_law)

lemma keeps_on_writer: "keeps I (on_writer f)" "keeps I (set_response_header k v)"
  by (auto simp: keeps_def on_writer_def set_response_header_def intro: writer_law split: outcome.split)

lemma keeps_breaker:
  "keeps I (find_breaker clk pk)" "keeps I (ask_breaker clk b)" "keeps I (record_result clk bad b)"
  by (auto simp: keeps_def find_breaker_def ask_breaker_def record_result_def put_breaker_def Let_def
      intro: circuit_law logs_law split: prod.split)

lemmas keeps_basic = keeps_emit keeps_on_writer keeps_breaker keeps_rules

lemma keeps_log_completed: "keeps I (log_completed env rid r key pk why url status failover)"
  by (simp add: log_completed_def Let_def keeps_basic)

lemma keeps_circuit_stage: "keeps I (circuit_stage env rid r key b t)"
  unfolding circuit_stage_def Let_def
  by (intro keeps_basic keeps_log_completed | (split option.split, intro conjI allI impI))+

lemma keeps_health_stage: "keeps I (health_stage env rid t)"
  unfolding health_stage_def Let_def
  by (intro keeps_basic | (split option.split, intro conjI allI impI))+

lemma keeps_proxy_stage:
  assumes sent: "\<And>w q. I w \<Longrightarrow> I (w\<lparr>wd_sent := q\<rparr>)"
    and others: "\<And>w n. I w \<Longrightarrow> I (w\<lparr>wd_handler := ev_others env n (wd_handler w)\<rparr>)"
  shows "keeps I (proxy_stage env rid r key b t)"
proof -
  have o: "keeps I (let_others_run env n)" for n
    by (simp add: keeps_def let_others_run_def others)
  have "keeps I (respond env d failover status hdr body err)" for d failover status hdr body err
    unfolding respond_def by (intro keeps_basic o)
  moreover have "keeps I (client_do env req)" for req
    using others [OF sent]
    by (auto simp: client_do_def keeps_def let_others_run_def give_def Let_def split: reply.split)
  ultimately have "keeps I (proxy_request env r d rid failover)" for d failover
    unfolding proxy_request_def
    by (auto intro!: keeps_basic split: sum.split reply.split)
  then show ?thesis
    unfolding proxy_stage_def Let_def
    by (auto intro!: keeps_basic keeps_log_completed split: option.split prod.split)
qed

lemma keeps_guarded_stages:
  assumes "\<And>w q. I w \<Longrightarrow> I (w\<lparr>wd_sent := q\<rparr>)"
    and "\<And>w n. I w \<Longrightarrow> I (w\<lparr>wd_handler := ev_others env n (wd_handler w)\<rparr>)"
  shows "keeps I (guarded_stages env rid r key t)"
proof -
  note proxy = keeps_proxy_stage [of env, OF assms]
  show ?thesis
    unfolding guarded_stages_def
    by (auto intro!: keeps_basic keeps_log_completed keeps_circuit_stage keeps_health_stage proxy
        split: option.split)
qed

end

section \<open>Slots\<close>

text \<open>
  The slots that are out: \<open>mine\<close> and those of the requests that other goroutines run, any of
  the collections in \<open>S\<close>; the pool's counts agree and no release is stuck.
\<close>

definition books :: "string multiset set \<Rightarrow> string multiset \<Rightarrow> world \<Rightarrow> bool" where
  "books S mine w \<longleftrightarrow> \<not> wd_blocked w
     \<and> (\<exists>out \<in> S. pool_balanced limits_inv slots_in_use slot_limit (h_limits (wd_handler w), mine + out))"

interpretation books: request_invariant "books S mine" for S mine
  by unfold_locales (simp_all add: books_def)

lemma take_slot_books:
  assumes "books S {#} w" "take_slot clk pk w = (res, w')"
  shows "res = Ret True \<and> books S {#pk#} w' \<or> res = Ret False \<and> books S {#} w'"
proof -
  let ?lm = "h_limits (wd_handler w)"
  from assms(1) obtain out where out: "out \<in> S" "pool_balanced limits_inv slots_in_use slot_limit (?lm, out)"
    by (auto simp: books_def)
  obtain ok lm where t: "slot_take pk ?lm = (ok, lm)" by fastforce
  with try_acquire_slot_take [of clk pk ?lm]
  have "fst (try_acquire_slot clk pk ?lm) = ok" "fst (snd (try_acquire_slot clk pk ?lm)) = lm" by simp_all
  with assms(2) have w': "res = Ret ok" "h_limits (wd_handler w') = lm" "wd_blocked w' = wd_blocked w"
    by (auto simp: take_slot_def Let_def split: prod.splits)
  show ?thesis
  proof (cases ok)
    case True
    with slots.balanced_take [OF out(2)] t w' out(1) assms(1) show ?thesis by (auto simp: books_def)
  next
    case False
    with slots.balanced_reject [OF out(2)] t w' out(1) assms(1) show ?thesis by (auto simp: books_def)
  qed
qed

lemma release_books:
  assumes "books S {#pk#} w" "release_slot pk (h_limits (wd_handler w)) = (returns, lm)"
  shows "returns \<and> (\<exists>out \<in> S. pool_balanced limits_inv slots_in_use slot_limit (lm, out))"
proof -
  from assms(1) obtain out where out: "out \<in> S"
    "pool_balanced limits_inv slots_in_use slot_limit (h_limits (wd_handler w), add_mset pk out)"
    by (auto simp: books_def)
  have returns using slots.holder_returns [OF out(2), of pk] assms(2) by simp
  with slots.balanced_give [OF out(2), of pk lm] assms(2) out(1) show ?thesis by auto
qed

lemma with_slot_books:
  assumes "keeps (books S {#pk#}) body" "books S {#pk#} w"
  shows "books S {#} (snd (with_slot pk body w))"
  using release_books [OF keepsD [OF assms]] keepsD [OF assms]
  by (auto simp: with_slot_def books_def Let_def split: prod.split)

end
