(* ===== verification/Requests.thy ===== *)
theory Requests
  imports Proxy
begin

text \<open>
  What the handler of \<open>internal/proxy/handler.go\<close> answers: the refusals before a request is
  sent (no key, no route, no slot, body too large, circuit open), the proxied response, the failovers,
  and the agreement of the log with the response.
\<close>

section \<open>Samples\<close>

definition sample_limits :: "nat \<Rightarrow> limits_manager" where
  "sample_limits n = \<lparr>lm_semaphores = \<lparr>refs = [(''visa'', 0)],
       cells = [\<lparr>capacity = 2, held = n, waiting_receivers = 0, waiting_senders = 0\<rparr>]\<rparr>,
     lm_config = [(''visa'', \<lparr>max_concurrent_requests = 2, max_request_body_bytes = 1000\<rparr>)]\<rparr>"

definition sample_handler :: "nat \<Rightarrow> handler" where
  "sample_handler n = \<lparr>h_config = sample_m4, h_checker = new_checker default_check_config, h_orphans = [],
     h_circuit = new_circuit_manager default_breaker_config, h_limits = sample_limits n\<rparr>"

definition sample_world :: "nat \<Rightarrow> world" where
  "sample_world n = \<lparr>wd_handler = sample_handler n, wd_writer = new_writer, wd_logs = [], wd_sent = [],
     wd_blocked = False\<rparr>"

definition sample_request :: "string \<Rightarrow> int \<Rightarrow> request" where
  "sample_request key len = \<lparr>rq_method = ''GET'', rq_path = ''/pay'', rq_raw_query = ''a=1'',
     rq_header = [(''X-Routing-Key'', [key]), (''X-Request-Id'', [''r1''])], rq_remote_addr = ''10.0.0.1:5555'',
     rq_tls = False, rq_content_length = len, rq_body = []\<rparr>"

definition sample_visa :: routing_decision where
  "sample_visa = \<lparr>placement_key = ''visa'', reason = Reason_Dedicated, endpoint_url = ''http://cell-visa:9004''\<rparr>"

text \<open>Only the key \<open>visa\<close> has a route; the upstream answers with \<open>status\<close>.\<close>

definition sample_proxy_env :: "int \<Rightarrow> env" where
  "sample_proxy_env status = \<lparr>ev_clock = (\<lambda>n k. int n * second), ev_random = replicate 16 0,
     ev_route = (\<lambda>key. Ret (if key = ''visa'' then Inr sample_visa else Inl (No_Endpoint ''tier9''))),
     ev_net = (\<lambda>req. Reply status [(''Server'', [''cell''])] ''ok'' None),
     ev_error_text = (\<lambda>_. ''failed''), ev_others = (\<lambda>n h. h)\<rparr>"

lemmas sample_request_defs = sample_world_def sample_handler_def sample_limits_def sample_request_def
  sample_visa_def sample_proxy_env_def new_writer_def new_checker_def new_circuit_manager_def
  default_check_config_def default_breaker_config_def

lemma sample_limits_inv [simp]: "n \<le> 2 \<Longrightarrow> limits_inv (sample_limits n)"
  by (simp add: limits_inv_def st_wf_def st_inj_def st_ref_def sample_limits_def quiet_def)

lemma sample_limits_counts [simp]:
  "slot_limit (sample_limits n) pk = (if pk = ''visa'' then Some 2 else None)"
  "slots_in_use (sample_limits n) ''visa'' = n"
  by (simp_all add: slot_limit_def slots_in_use_def st_get_def st_ref_def sample_limits_def)

section \<open>Slots\<close>

text \<open>
  Property C2. A request gives back the slot it took, however it ends (any error answer, a
  failed or cut response, a panic): if the pool's counts agree with the slots out before it,
  and the other goroutines keep to the rules while it holds its slot, they agree after it, and
  its release never blocks.
\<close>

theorem slots_returned:
  assumes "books S {#} w"
    and "\<And>w n pk. books S {#pk#} w \<Longrightarrow> books S {#pk#} (w\<lparr>wd_handler := ev_others env n (wd_handler w)\<rparr>)"
  shows "books S {#} (snd (serve_http env r w))"
proof -
  have "keeps (books S {#pk#}) (guarded_stages env rid r key t)" for pk rid key t
    by (rule books.keeps_guarded_stages) (simp_all add: assms(2), simp add: books_def)
  note slot = with_slot_books [OF this]
  have rejected: "keeps (books S {#}) (seq (fault env n msg err fs) (\<lambda>_. seq (on_writer f)
      (\<lambda>_. log_completed env rid r key pk why url status failover)))"
    for n msg err fs f rid key pk why url status failover
    by (intro books.keeps_basic books.keeps_log_completed)
  have "books S {#} (snd (limited_stages env rid r key d w))" for rid key d
  proof -
    obtain res w' where t: "take_slot (ev_clock env 3) (placement_key d) w = (res, w')" by fastforce
    from take_slot_books [OF assms(1) t] show ?thesis
      using slot keepsD [OF rejected]
      by (auto simp: limited_stages_def Let_def seq_def [of "take_slot _ _"] t)
  qed
  then show ?thesis
    using keepsD [OF rejected assms(1)] assms(1)
    by (auto simp: serve_http_def Let_def compute_def seq_def [of "\<lambda>w. (_, w)"] split: outcome.split sum.split)
qed

lemma sample_books: "books {{#}} {#} (sample_world 0)"
  by (simp add: books_def sample_world_def sample_handler_def pool_balanced_def)

theorem slots_returned_witness:
  "books {{#}} {#} (snd (serve_http (sample_proxy_env 200) (sample_request ''visa'' 0) (sample_world 0)))"
  by (rule slots_returned [OF sample_books]) (simp add: sample_proxy_env_def)

section \<open>Refusals\<close>

text \<open>The line of \<open>logRequest\<close> carries the status in every case.\<close>

lemma log_completed_line:
  "\<exists>l. log_completed env rid r key pk why url status failover w = (Ret (), w\<lparr>wd_logs := wd_logs w @ [l]\<rparr>)
     \<and> log_field l ''status_code'' = Some (Log_Int status)"
  by (auto simp: log_completed_def info_def emit_def Let_def log_info_field)
    (auto simp: log_request_def log_field_def)

lemma http_error_status:
  "100 \<le> code \<Longrightarrow> code \<le> 999 \<Longrightarrow> wr_status wr = None \<Longrightarrow>
   \<exists>wr'. http_error msg code wr = Ret wr' \<and> wr_status wr' = Some code
     \<and> wr_body wr' = wr_body wr @ msg @ [CHR 0x0A]
     \<and> (k \<noteq> ''Content-Type'' \<longrightarrow> k \<noteq> ''X-Content-Type-Options'' \<longrightarrow> header_get (wr_header wr') k = header_get (wr_header wr) k)"
  by (simp add: http_error_def write_header_def Let_def header_get_set)

text \<open>A refusal: an error line, the error response, the completion line; nothing else changes.\<close>

lemma refusal:
  assumes "wr_status (wd_writer w) = None" "100 \<le> code" "code \<le> 999"
  shows "\<exists>wr l1 l2. seq (fault env n msg err fs) (\<lambda>_. seq (on_writer (http_error text code))
      (\<lambda>_. log_completed env rid r key pk why url code failover)) w
    = (Ret (), w\<lparr>wd_writer := wr, wd_logs := wd_logs w @ [l1, l2]\<rparr>)
    \<and> wr_status wr = Some code \<and> log_field l2 ''status_code'' = Some (Log_Int code)"
proof -
  obtain wr where wr: "http_error text code (wd_writer w) = Ret wr" "wr_status wr = Some code"
    using http_error_status [OF assms(2,3,1)] by blast
  let ?w = "w\<lparr>wd_logs := wd_logs w @ [log_error (ev_clock env n 0) msg err fs], wd_writer := wr\<rparr>"
  obtain l where l: "log_completed env rid r key pk why url code failover ?w
      = (Ret (), ?w\<lparr>wd_logs := wd_logs ?w @ [l]\<rparr>)" "log_field l ''status_code'' = Some (Log_Int code)"
    using log_completed_line by blast
  from wr l show ?thesis
    by (auto simp: seq_def fault_def emit_def on_writer_def)
qed

lemma unroutable_answer:
  assumes "wr_status (wd_writer w) = None"
    and "header_get (rq_header r) ''X-Routing-Key'' = [] \<and> code = 400
      \<or> header_get (rq_header r) ''X-Routing-Key'' \<noteq> []
        \<and> ev_route env (header_get (rq_header r) ''X-Routing-Key'') = Ret (Inl e) \<and> code = 500"
  shows "\<exists>wr ls. serve_http env r w = (Ret (), w\<lparr>wd_writer := wr, wd_logs := wd_logs w @ ls\<rparr>)
    \<and> wr_status wr = Some code \<and> log_field (last ls) ''status_code'' = Some (Log_Int code)"
proof (cases "header_get (rq_header r) ''X-Routing-Key'' = []")
  case True
  with assms(2) have code: "code = 400" by simp
  show ?thesis
    unfolding serve_http_def Let_def
    using refusal [OF assms(1), where code = 400] True code by fastforce
next
  case False
  with assms(2) have code: "code = 500"
    and e: "ev_route env (header_get (rq_header r) ''X-Routing-Key'') = Ret (Inl e)" by simp_all
  from False e have "serve_http env r w = seq (fault env 2 ''routing error'' (Some (route_error_text e))
      [(''request_id'', Log_Str (request_id env r)), (''routing_key'', Log_Str (header_get (rq_header r) ''X-Routing-Key''))]) (\<lambda>_.
    seq (on_writer (http_error ''Internal Server Error'' 500)) (\<lambda>_.
    log_completed env (request_id env r) r (header_get (rq_header r) ''X-Routing-Key'') [] [] [] 500 [])) w"
    by (simp add: serve_http_def Let_def compute_def seq_def [of "\<lambda>w. (_, w)"])
  then show ?thesis
    using refusal [OF assms(1), where code = 500] code by fastforce
qed

text \<open>
  A request without a routing key is answered 400, one that the router cannot
  route 500; nothing is sent upstream and no manager changes, only the response and the log do.
\<close>

theorem unroutable_touches_nothing:
  assumes "wr_status (wd_writer w) = None"
    and "header_get (rq_header r) ''X-Routing-Key'' = [] \<and> code = 400
      \<or> header_get (rq_header r) ''X-Routing-Key'' \<noteq> []
        \<and> ev_route env (header_get (rq_header r) ''X-Routing-Key'') = Ret (Inl e) \<and> code = 500"
  shows "\<exists>wr ls. serve_http env r w = (Ret (), w\<lparr>wd_writer := wr, wd_logs := wd_logs w @ ls\<rparr>)
    \<and> wr_status wr = Some code \<and> log_field (last ls) ''status_code'' = Some (Log_Int code)"
  by (rule unroutable_answer [OF assms])

theorem unroutable_touches_nothing_witness:
  "(\<exists>wr ls. serve_http (sample_proxy_env 200) (sample_request ''nobody'' 0) (sample_world 0)
      = (Ret (), (sample_world 0)\<lparr>wd_writer := wr, wd_logs := wd_logs (sample_world 0) @ ls\<rparr>)
    \<and> wr_status wr = Some 500 \<and> log_field (last ls) ''status_code'' = Some (Log_Int 500))"
  by (rule unroutable_touches_nothing [where e = "No_Endpoint ''tier9''"])
    (simp_all add: sample_request_defs header_get_def)

definition routed :: "env \<Rightarrow> request \<Rightarrow> routing_decision \<Rightarrow> bool" where
  "routed env r d \<longleftrightarrow> header_get (rq_header r) ''X-Routing-Key'' \<noteq> []
     \<and> ev_route env (header_get (rq_header r) ''X-Routing-Key'') = Ret (Inr d)"

lemma serve_routed:
  "routed env r d \<Longrightarrow> serve_http env r w =
     limited_stages env (request_id env r) r (header_get (rq_header r) ''X-Routing-Key'') d w"
  by (simp add: routed_def serve_http_def Let_def compute_def seq_def [of "\<lambda>w. (_, w)"])

lemma sample_routed [simp]: "routed (sample_proxy_env st) (sample_request ''visa'' n) sample_visa"
  by (simp add: routed_def sample_request_defs header_get_def)

lemma take_slot_refused:
  assumes "limits_inv (h_limits (wd_handler w))" "slot_limit (h_limits (wd_handler w)) pk = Some c"
    and "slots_in_use (h_limits (wd_handler w)) pk = c"
  shows "\<exists>l. take_slot clk pk w = (Ret False, w\<lparr>wd_logs := wd_logs w @ [l]\<rparr>)"
proof -
  let ?lm = "h_limits (wd_handler w)"
  obtain i where i: "st_ref (lm_semaphores ?lm) pk = Some i"
    using assms(2) by (auto simp: slot_limit_def st_get_def)
  have "\<not> can_send (cells (lm_semaphores ?lm) ! i)"
    using limits_inv_cell [OF assms(1) i] assms(2,3) i
    by (simp add: can_send_def quiet_def limit_of_ref use_of_ref)
  with i have "take_slot clk pk w = (Ret False, w\<lparr>wd_logs := wd_logs w @
      [log_info (clk 0) ''concurrency limit reached'' [(''placement'', Log_Str pk), (''action'', Log_Str ''rejected'')]]\<rparr>)"
    by (simp add: take_slot_def try_acquire_slot_def try_acquire_def st_write_def)
  then show ?thesis by blast
qed

lemma take_slot_granted:
  assumes "limits_inv (h_limits (wd_handler w))"
    and "\<And>c. slot_limit (h_limits (wd_handler w)) pk = Some c \<Longrightarrow> slots_in_use (h_limits (wd_handler w)) pk < c"
  shows "take_slot clk pk w = (Ret True, w\<lparr>wd_handler := (wd_handler w)
      \<lparr>h_limits := snd (slot_take pk (h_limits (wd_handler w)))\<rparr>\<rparr>)"
proof -
  let ?lm = "h_limits (wd_handler w)"
  have ok: "fst (slot_take pk ?lm)"
    using slots.take_ok [OF assms(1)] assms(2) by (auto split: option.splits)
  then have "snd (snd (try_acquire_slot clk pk ?lm)) = []"
    using try_acquire_slot_take(1) [of clk pk ?lm]
    by (auto simp: try_acquire_slot_def split: option.splits prod.splits)
  then show ?thesis
    using ok try_acquire_slot_take [of clk pk ?lm]
    by (simp add: take_slot_def prod_eq_iff split: prod.split)
qed

text \<open>
  A request for a placement whose slots are all taken is answered 429, without
  touching the managers and without sending anything, and it returns no slot (it has none).
\<close>

theorem refused_at_limit:
  assumes "routed env r d" "wr_status (wd_writer w) = None" "limits_inv (h_limits (wd_handler w))"
    and "slot_limit (h_limits (wd_handler w)) (placement_key d) = Some c"
    and "slots_in_use (h_limits (wd_handler w)) (placement_key d) = c"
  shows "\<exists>wr ls. serve_http env r w = (Ret (), w\<lparr>wd_writer := wr, wd_logs := wd_logs w @ ls\<rparr>)
    \<and> wr_status wr = Some 429 \<and> log_field (last ls) ''status_code'' = Some (Log_Int 429)"
proof -
  obtain l where l: "take_slot (ev_clock env 3) (placement_key d) w = (Ret False, w\<lparr>wd_logs := wd_logs w @ [l]\<rparr>)"
    using take_slot_refused [OF assms(3-5)] by blast
  have w: "wr_status (wd_writer (w\<lparr>wd_logs := wd_logs w @ [l]\<rparr>)) = None" using assms(2) by simp
  show ?thesis
    unfolding serve_routed [OF assms(1)] limited_stages_def Let_def
    using refusal [OF w, where code = 429] by (fastforce simp: seq_def [of "take_slot _ _"] l)
qed

theorem refused_at_limit_witness:
  "\<exists>wr ls. serve_http (sample_proxy_env 200) (sample_request ''visa'' 0) (sample_world 2)
      = (Ret (), (sample_world 2)\<lparr>wd_writer := wr, wd_logs := wd_logs (sample_world 2) @ ls\<rparr>)
    \<and> wr_status wr = Some 429 \<and> log_field (last ls) ''status_code'' = Some (Log_Int 429)"
  by (rule refused_at_limit [OF sample_routed, where c = 2])
    (simp_all add: sample_world_def sample_handler_def new_writer_def sample_visa_def)

text \<open>What holds of a request that gets a slot: the handler runs its stages between take and release.\<close>

definition has_slot :: "world \<Rightarrow> string \<Rightarrow> bool" where
  "has_slot w pk \<longleftrightarrow> limits_inv (h_limits (wd_handler w)) \<and>
     (case slot_limit (h_limits (wd_handler w)) pk of None \<Rightarrow> True
      | Some c \<Rightarrow> slots_in_use (h_limits (wd_handler w)) pk < c)"

definition holding :: "string \<Rightarrow> world \<Rightarrow> world" where
  "holding pk w = w\<lparr>wd_handler := (wd_handler w)\<lparr>h_limits := snd (slot_take pk (h_limits (wd_handler w)))\<rparr>\<rparr>"

definition first_target :: "routing_decision \<Rightarrow> target" where
  "first_target d = \<lparr>tg_decision = d, tg_placement = placement_key d, tg_failover = []\<rparr>"

lemma first_target_simps [simp]:
  "tg_decision (first_target d) = d" "tg_placement (first_target d) = placement_key d" "tg_failover (first_target d) = []"
  by (simp_all add: first_target_def)

lemma serve_admitted:
  assumes "routed env r d" "has_slot w (placement_key d)"
  shows "serve_http env r w = with_slot (placement_key d)
    (guarded_stages env (request_id env r) r (header_get (rq_header r) ''X-Routing-Key'') (first_target d))
    (holding (placement_key d) w)"
proof -
  have t: "take_slot (ev_clock env 3) (placement_key d) w = (Ret True, holding (placement_key d) w)"
    unfolding holding_def using assms(2) by (intro take_slot_granted) (auto simp: has_slot_def)
  show ?thesis
    unfolding serve_routed [OF assms(1)] limited_stages_def first_target_def Let_def
    by (simp add: seq_def [of "take_slot _ _"] t)
qed

abbreviation staged :: "env \<Rightarrow> request \<Rightarrow> routing_decision \<Rightarrow> world \<Rightarrow> unit outcome \<times> world" where
  "staged env r d w \<equiv> guarded_stages env (request_id env r) r (header_get (rq_header r) ''X-Routing-Key'')
     (first_target d) (holding (placement_key d) w)"

lemma serve_result:
  assumes "routed env r d" "has_slot w (placement_key d)" "staged env r d w = (x, w1)"
  shows "fst (serve_http env r w) = x" "wd_writer (snd (serve_http env r w)) = wd_writer w1"
    "wd_sent (snd (serve_http env r w)) = wd_sent w1" "wd_logs (snd (serve_http env r w)) = wd_logs w1"
    "h_circuit (wd_handler (snd (serve_http env r w))) = h_circuit (wd_handler w1)"
    "h_checker (wd_handler (snd (serve_http env r w))) = h_checker (wd_handler w1)"
  using assms(3) by (simp_all add: serve_admitted [OF assms(1,2)] with_slot_def split: prod.split)

lemma holding_simps [simp]:
  "wd_writer (holding pk w) = wd_writer w" "wd_sent (holding pk w) = wd_sent w" "wd_logs (holding pk w) = wd_logs w"
  "h_circuit (wd_handler (holding pk w)) = h_circuit (wd_handler w)"
  "h_checker (wd_handler (holding pk w)) = h_checker (wd_handler w)"
  "h_config (wd_handler (holding pk w)) = h_config (wd_handler w)"
  by (simp_all add: holding_def)

lemma slot_take_config [simp]: "lm_config (snd (slot_take pk m)) = lm_config m"
  by (simp add: slot_take_def try_acquire_slot_def split: option.split prod.split)

lemma holding_body_check [simp]:
  "validate_request_body_size (h_limits (wd_handler (holding pk w))) q n
    = validate_request_body_size (h_limits (wd_handler w)) q n"
  by (simp add: holding_def validate_request_body_size_def get_config_def)

definition body_fits :: "world \<Rightarrow> request \<Rightarrow> string \<Rightarrow> bool" where
  "body_fits w r pk \<longleftrightarrow> \<not> 0 < rq_content_length r
     \<or> validate_request_body_size (h_limits (wd_handler w)) pk (rq_content_length r) = None"

lemma guarded_stages_too_large:
  assumes "0 < rq_content_length r"
    and "validate_request_body_size (h_limits (wd_handler w)) (tg_placement t) (rq_content_length r) = Some e"
  shows "guarded_stages env rid r key t w =
    seq (fault env 6 ''request body too large'' (Some (body_error_text e))
      [(''request_id'', Log_Str rid), (''routing_key'', Log_Str key), (''placement_key'', Log_Str (tg_placement t)),
       (''content_length'', Log_Int (rq_content_length r))]) (\<lambda>_.
    seq (on_writer (http_error ''Request Entity Too Large'' 413)) (\<lambda>_.
    log_completed env rid r key (tg_placement t) (reason_text (reason (tg_decision t)))
      (endpoint_url (tg_decision t)) 413 ''body_size_limit'')) w"
  using assms by (simp add: guarded_stages_def seq_steps)

lemma guarded_stages_fits:
  assumes "body_fits w r (tg_placement t)"
  shows "guarded_stages env rid r key t w =
    seq (find_breaker (ev_clock env 9) (tg_placement t)) (\<lambda>b.
    seq (circuit_stage env rid r key b t) (\<lambda>res.
    case res of None \<Rightarrow> give ()
    | Some t1 \<Rightarrow> seq (health_stage env rid t1) (\<lambda>t2. proxy_stage env rid r key b t2))) w"
  using assms by (auto simp: body_fits_def guarded_stages_def seq_steps)

text \<open>
  Property C31. A request whose declared body exceeds the placement's maximum is answered 413 (where
  \<open>docs/milestones/milestone-4.md\<close> has 429 or 503 for every limit);
  nothing is sent and the breakers and the health are not consulted.
\<close>

theorem oversized_refused:
  assumes "routed env r d" "has_slot w (placement_key d)" "wr_status (wd_writer w) = None"
    and "get_config (h_limits (wd_handler w)) (placement_key d) = Some cfg"
    and "0 < max_request_body_bytes cfg" "max_request_body_bytes cfg < rq_content_length r"
  shows "let w' = snd (serve_http env r w) in wr_status (wd_writer w') = Some 413 \<and> wd_sent w' = wd_sent w
    \<and> h_circuit (wd_handler w') = h_circuit (wd_handler w)
    \<and> log_field (last (wd_logs w')) ''status_code'' = Some (Log_Int 413)"
proof -
  let ?pk = "placement_key d" and ?w = "holding (placement_key d) w"
  have v: "validate_request_body_size (h_limits (wd_handler w)) ?pk (rq_content_length r)
      = Some (Body_Too_Large (rq_content_length r) (max_request_body_bytes cfg))" and pos: "0 < rq_content_length r"
    using assms(4-6) by (simp_all add: validate_request_body_size_def)
  have ws: "wr_status (wd_writer ?w) = None" by (simp add: assms(3))
  have fits: "validate_request_body_size (h_limits (wd_handler ?w)) (tg_placement (first_target d))
      (rq_content_length r) = Some (Body_Too_Large (rq_content_length r) (max_request_body_bytes cfg))"
    using v by simp
  obtain wr l1 l2 where g: "staged env r d w = (Ret (), ?w\<lparr>wd_writer := wr, wd_logs := wd_logs ?w @ [l1, l2]\<rparr>)"
    "wr_status wr = Some 413" "log_field l2 ''status_code'' = Some (Log_Int 413)"
    unfolding guarded_stages_too_large [OF pos fits] using refusal [OF ws, where code = 413] by auto blast
  show ?thesis
    unfolding Let_def serve_result [OF assms(1,2) g(1)] using g(2,3) by simp
qed

lemma sample_world_fields [simp]:
  "wd_handler (sample_world n) = sample_handler n" "wd_writer (sample_world n) = new_writer"
  "wd_sent (sample_world n) = []" "h_limits (sample_handler n) = sample_limits n"
  "h_config (sample_handler n) = sample_m4" "wr_status new_writer = None"
  "h_circuit (sample_handler n) = new_circuit_manager default_breaker_config"
  "h_checker (sample_handler n) = new_checker default_check_config"
  "placement_key sample_visa = ''visa''" "reason sample_visa = Reason_Dedicated"
  "endpoint_url sample_visa = ''http://cell-visa:9004''" "rq_content_length (sample_request key len) = len"
  by (simp_all add: sample_request_defs)

lemma sample_has_slot [simp]: "has_slot (sample_world 0) pk"
  by (simp add: has_slot_def)

theorem oversized_refused_witness:
  "wr_status (wd_writer (snd (serve_http (sample_proxy_env 200) (sample_request ''visa'' 1001) (sample_world 0)))) = Some 413"
proof -
  have cfg: "get_config (h_limits (wd_handler (sample_world 0))) (placement_key sample_visa)
      = Some \<lparr>max_concurrent_requests = 2, max_request_body_bytes = 1000\<rparr>"
    by (simp add: get_config_def) (simp add: sample_limits_def)
  from oversized_refused [OF sample_routed sample_has_slot _ cfg] show ?thesis by (simp add: Let_def)
qed

section \<open>Breakers during a request\<close>

text \<open>The breaker a placement has, or gets at its first use.\<close>

definition breaker_for :: "clock \<Rightarrow> circuit_manager \<Rightarrow> string \<Rightarrow> breaker" where
  "breaker_for clk cm pk = (case st_get (cm_breakers cm) pk of Some br \<Rightarrow> br | None \<Rightarrow> new_breaker clk pk (cm_config cm))"

definition write_breaker :: "nat \<Rightarrow> breaker \<Rightarrow> circuit_manager \<Rightarrow> circuit_manager" where
  "write_breaker b br cm = cm\<lparr>cm_breakers := st_write b br (cm_breakers cm)\<rparr>"

text \<open>What recording a result does to a breaker.\<close>

definition recorded :: "clock \<Rightarrow> bool \<Rightarrow> breaker \<Rightarrow> breaker" where
  "recorded clk failed br = (if failed then failure clk br else success clk br)"

lemma get_breaker_facts:
  assumes "manager_inv cm" "get_breaker clk pk cm = (b, cm')"
  shows "manager_inv cm'" "st_ref (cm_breakers cm') pk = Some b"
    "cells (cm_breakers cm') ! b = breaker_for clk cm pk"
    "st_get (cm_breakers cm') q = (if q = pk then Some (breaker_for clk cm pk) else st_get (cm_breakers cm) q)"
proof -
  have g: "get_breaker_write clk pk cm = (b, cm')"
    using assms(2) by (simp add: get_breaker_def get_breaker_read_def get_breaker_write_def split: option.splits)
  show "manager_inv cm'" using manager_inv_get [OF assms(1), of clk pk] g by simp
  have wf: "st_wf (cm_breakers cm)" using assms(1) by (simp add: manager_inv_def)
  show ref: "st_ref (cm_breakers cm') pk = Some b"
    using g by (auto simp: get_breaker_write_def st_ref_bind split: option.splits)
  show "st_get (cm_breakers cm') q = (if q = pk then Some (breaker_for clk cm pk) else st_get (cm_breakers cm) q)" for q
    using g by (auto simp: get_breaker_write_def breaker_for_def st_get_bind [OF wf] st_get_ref st_get_None_iff [symmetric]
        split: option.splits)
  from this [of pk] ref show "cells (cm_breakers cm') ! b = breaker_for clk cm pk"
    by (simp add: st_get_def)
qed

lemma manager_inv_placement:
  "manager_inv cm \<Longrightarrow> st_ref (cm_breakers cm) pk = Some b \<Longrightarrow> br_placement (cells (cm_breakers cm) ! b) = pk"
  by (simp add: manager_inv_def)

lemma manager_inv_breaker:
  assumes "manager_inv cm" "st_ref (cm_breakers cm) pk = Some b"
  shows "breaker_inv (cells (cm_breakers cm) ! b)"
  using assms nth_mem by (simp add: manager_inv_def st_wf_def)

lemma write_breaker_get:
  assumes "manager_inv cm" "st_ref (cm_breakers cm) pk = Some b"
  shows "st_get (cm_breakers (write_breaker b br cm)) q = (if q = pk then Some br else st_get (cm_breakers cm) q)"
proof -
  have wf: "st_wf (cm_breakers cm)" and b: "br_placement (cells (cm_breakers cm) ! b) = pk"
    using assms by (simp_all add: manager_inv_def)
  have "st_ref (cm_breakers cm) q \<noteq> Some b" if "q \<noteq> pk"
    using assms(1) b that by (auto simp: manager_inv_def)
  with assms(2) show ?thesis
    by (auto simp: write_breaker_def st_get_write [OF wf])
qed

lemma write_breaker_inv:
  assumes "manager_inv cm" "st_ref (cm_breakers cm) pk = Some b"
    and "breaker_inv br" "br_placement br = pk"
  shows "manager_inv (write_breaker b br cm)"
proof -
  have "set ((cells (cm_breakers cm))[b := br]) \<subseteq> insert br (set (cells (cm_breakers cm)))"
    by (rule set_update_subset_insert)
  moreover have "br_placement ((cells (cm_breakers cm))[b := br] ! i) = q"
    if i: "st_ref (cm_breakers cm) q = Some i" for q i
  proof (cases "i = b")
    case True
    have "q = pk" using manager_inv_placement [OF assms(1)] assms(2) i True by metis
    moreover have "i < length (cells (cm_breakers cm))" using assms(1) i by (simp add: manager_inv_def st_wf_def)
    ultimately show ?thesis using True assms(4) by simp
  qed (simp add: manager_inv_placement [OF assms(1) i])
  ultimately show ?thesis
    using assms(1,3) by (auto simp: manager_inv_def write_breaker_def)
qed

lemma get_breaker_found: "st_ref (cm_breakers cm) pk = Some b \<Longrightarrow> get_breaker clk pk cm = (b, cm)"
  by (simp add: get_breaker_def get_breaker_read_def)

lemma ask_breaker_result:
  "\<exists>ls. ask_breaker clk b w = (Ret (fst (ask clk (breaker_at b (wd_handler w)))),
     w\<lparr>wd_handler := (wd_handler w)\<lparr>h_circuit := write_breaker b (snd (ask clk (breaker_at b (wd_handler w))))
       (h_circuit (wd_handler w))\<rparr>, wd_logs := wd_logs w @ ls\<rparr>)"
  by (auto simp: ask_breaker_def ask_def put_breaker_def write_breaker_def split: prod.split)

lemma record_result_result:
  "\<exists>ls. record_result clk bad b w = (Ret (),
     w\<lparr>wd_handler := (wd_handler w)\<lparr>h_circuit := write_breaker b (recorded clk bad (breaker_at b (wd_handler w)))
       (h_circuit (wd_handler w))\<rparr>, wd_logs := wd_logs w @ ls\<rparr>)"
  by (auto simp: record_result_def recorded_def failure_def success_def put_breaker_def write_breaker_def split: prod.split)

lemma find_breaker_result:
  assumes "get_breaker clk pk (h_circuit (wd_handler w)) = (b, cm)"
  shows "find_breaker clk pk w = (Ret b, w\<lparr>wd_handler := (wd_handler w)\<lparr>h_circuit := cm\<rparr>\<rparr>)"
  using assms by (simp add: find_breaker_def)

lemma write_breaker_same [simp]: "write_breaker b (cells (cm_breakers cm) ! b) cm = cm"
  by (simp add: write_breaker_def st_write_def)

text \<open>
  Property C32. A request for a placement whose breaker is open, before its retry time and
  without a fallback, is answered 503 with \<open>X-Circuit-State: open\<close>; nothing is sent and the breakers
  stay as they are. (The milestone has 503 or the fallback here; \<open>ARCHITECTURE.md\<close> has the default placement, which the code
  uses for an unhealthy placement only.)
\<close>

theorem open_circuit_fails_fast:
  assumes "routed env r d" "has_slot w (placement_key d)" "body_fits w r (placement_key d)"
    and "wr_status (wd_writer w) = None"
    and "st_ref (cm_breakers (h_circuit (wd_handler w))) (placement_key d) = Some b"
    and "br_state (breaker_at b (wd_handler w)) = State_Open"
    and "ev_clock env 10 0 \<le> br_next_retry (breaker_at b (wd_handler w))"
    and "fallback_of (h_config (wd_handler w)) (placement_key d) = Ret None"
  shows "let w' = snd (serve_http env r w) in wr_status (wd_writer w') = Some 503
    \<and> header_get (wr_header (wd_writer w')) ''X-Circuit-State'' = ''open''
    \<and> wd_sent w' = wd_sent w \<and> h_circuit (wd_handler w') = h_circuit (wd_handler w)"
proof -
  let ?w = "holding (placement_key d) w" and ?rid = "request_id env r"
  let ?key = "header_get (rq_header r) ''X-Routing-Key''"
  have fits: "body_fits ?w r (tg_placement (first_target d))"
    using assms(3) by (simp add: body_fits_def)
  have find: "find_breaker (ev_clock env 9) (placement_key d) ?w = (Ret b, ?w)"
    by (simp add: find_breaker_def get_breaker_found assms(5))
  have refuse: "ask_breaker (ev_clock env 10) b ?w = (Ret False, ?w)"
    using assms(6,7) by (simp add: ask_breaker_def allow_def put_breaker_def breaker_at_def st_write_def)
  have st: "state_text (get_state (breaker_at b (wd_handler ?w))) = ''open''"
    using assms(6) by (simp add: get_state_def breaker_at_def)
  define wa where "wa = ?w\<lparr>wd_logs := wd_logs ?w @ [log_error (ev_clock env 12 0) ''circuit breaker open, no fallback'' None
    [(''request_id'', Log_Str ?rid), (''routing_key'', Log_Str ?key),
     (''placement_key'', Log_Str (placement_key d)), (''circuit_state'', Log_Str ''open'')]],
    wd_writer := (wd_writer w)\<lparr>wr_header := header_set ''X-Circuit-State'' ''open'' (wr_header (wd_writer w))\<rparr>\<rparr>"
  have "wr_status (wd_writer wa) = None" by (simp add: wa_def assms(4))
  from http_error_status [OF _ _ this, where code = 503 and k = "''X-Circuit-State''"]
  obtain wr where wr: "http_error ''Service Unavailable: Circuit Breaker Open'' 503 (wd_writer wa) = Ret wr"
    "wr_status wr = Some 503" "header_get (wr_header wr) ''X-Circuit-State'' = ''open''"
    by (auto simp: wa_def header_get_set)
  obtain l where l: "log_completed env ?rid r ?key (placement_key d) (reason_text (reason d)) (endpoint_url d) 503
      ''circuit_open'' (wa\<lparr>wd_writer := wr\<rparr>) = (Ret (), wa\<lparr>wd_writer := wr, wd_logs := wd_logs wa @ [l]\<rparr>)"
    using log_completed_line [where w = "wa\<lparr>wd_writer := wr\<rparr>" and status = 503] by fastforce
  have "circuit_stage env ?rid r ?key b (first_target d) ?w = (Ret None, wa\<lparr>wd_writer := wr, wd_logs := wd_logs wa @ [l]\<rparr>)"
    using wr l refuse st
    by (simp add: circuit_stage_def seq_Ret [where m = "ask_breaker (ev_clock env 10) b", OF refuse] seq_steps assms(8) fault_def
        set_response_header_def on_writer_def wa_def seq_def give_def read_handler_def compute_def emit_def)
  then have "staged env r d w = (Ret (), wa\<lparr>wd_writer := wr, wd_logs := wd_logs wa @ [l]\<rparr>)"
    using find by (simp add: guarded_stages_fits [OF fits] seq_def give_def)
  from serve_result [OF assms(1,2) this] wr show ?thesis
    by (simp add: wa_def)
qed

definition sample_open_world :: "config \<Rightarrow> world" where
  "sample_open_world cfg = (sample_world 0)\<lparr>wd_handler := (sample_handler 0)\<lparr>h_config := cfg, h_circuit :=
     \<lparr>cm_breakers = \<lparr>refs = [(''visa'', 0)], cells = [sample_open_breaker]\<rparr>, cm_config = default_breaker_config\<rparr>\<rparr>\<rparr>"

lemma sample_open_world_fields [simp]:
  "has_slot (sample_open_world cfg) pk" "wr_status (wd_writer (sample_open_world cfg)) = None"
  "body_fits (sample_open_world cfg) (sample_request key 0) pk" "wd_writer (sample_open_world cfg) = new_writer"
  "st_ref (cm_breakers (h_circuit (wd_handler (sample_open_world cfg)))) ''visa'' = Some 0"
  "breaker_at 0 (wd_handler (sample_open_world cfg)) = sample_open_breaker"
  "h_config (wd_handler (sample_open_world cfg)) = cfg" "wd_sent (sample_open_world cfg) = []"
  by (simp_all add: sample_open_world_def has_slot_def body_fits_def st_ref_def breaker_at_def)

theorem open_circuit_fails_fast_witness:
  "wr_status (wd_writer (snd (serve_http (sample_proxy_env 200) (sample_request ''visa'' 0)
     (sample_open_world sample_legacy)))) = Some 503"
proof -
  have retry: "ev_clock (sample_proxy_env 200) 10 0 \<le> br_next_retry sample_open_breaker"
    by (simp add: sample_proxy_env_def)
  have fb: "fallback_of sample_legacy ''visa'' = Ret None"
    by (simp add: fallback_of_def get_placement_config_def sample_legacy_def)
  show ?thesis
    using open_circuit_fails_fast [OF sample_routed, of "sample_open_world sample_legacy" 0 0 200] retry fb
    by (simp add: Let_def)
qed

section \<open>The proxied response\<close>

definition sendable :: "upstream_request \<Rightarrow> bool" where
  "sendable req \<longleftrightarrow> up_scheme req \<in> {''http'', ''https''} \<and> up_host req \<noteq> []"

definition undisturbed :: "env \<Rightarrow> bool" where
  "undisturbed env \<longleftrightarrow> (\<forall>n h. ev_others env n h = h)"

lemma proxy_stage_reply:
  assumes "build_request rid r (endpoint_url (tg_decision t)) = Inr req" "sendable req"
    and "ev_net env req = Reply status hdr body err" "100 \<le> status" "status \<le> 999"
    and "undisturbed env" "wd_writer w = new_writer"
    and "get_breaker (ev_clock env 30) (placement_key (tg_decision t)) (h_circuit (wd_handler w)) = (b', cm)"
  shows "\<exists>ls. proxy_stage env rid r key b t w = (Ret (), w\<lparr>
      wd_sent := wd_sent w @ [req],
      wd_writer := \<lparr>wr_header = response_headers hdr (tg_decision t) (tg_failover t)
          (br_state (cells (cm_breakers cm) ! b')) [], wr_status = Some status, wr_body = body\<rparr>,
      wd_handler := (wd_handler w)\<lparr>h_circuit := write_breaker b
          (recorded (ev_clock env 40) (err \<noteq> None \<or> 500 \<le> status) (cells (cm_breakers cm) ! b)) cm\<rparr>,
      wd_logs := wd_logs w @ ls\<rparr>) \<and> ls \<noteq> [] \<and> log_field (last ls) ''status_code'' = Some (Log_Int status)"
proof -
  let ?d = "tg_decision t" and ?bad = "err \<noteq> None \<or> 500 \<le> status"
  let ?wr = "\<lparr>wr_header = response_headers hdr ?d (tg_failover t) (br_state (cells (cm_breakers cm) ! b')) [],
      wr_status = Some status, wr_body = body\<rparr>"
  let ?w1 = "w\<lparr>wd_sent := wd_sent w @ [req], wd_handler := (wd_handler w)\<lparr>h_circuit := cm\<rparr>, wd_writer := ?wr\<rparr>"
  have "client_do env req w = (Ret (Inr (Reply status hdr body err)), w\<lparr>wd_sent := wd_sent w @ [req]\<rparr>)"
    using assms(2,3,6) by (auto simp: client_do_def sendable_def let_others_run_def undisturbed_def)
  moreover have "respond env ?d (tg_failover t) status hdr body err (w\<lparr>wd_sent := wd_sent w @ [req]\<rparr>)
      = (Ret (status, map_option Copy_Error err), ?w1)"
    using assms(4-8) by (simp add: respond_def seq_def find_breaker_def read_handler_def on_writer_def
        write_header_def let_others_run_def undisturbed_def give_def new_writer_def get_state_def breaker_at_def)
  ultimately have p: "proxy_request env r ?d rid (tg_failover t) w = (Ret (status, map_option Copy_Error err), ?w1)"
    using assms(1) by (simp add: proxy_request_def seq_def)
  obtain ls where rec: "record_result (ev_clock env 40) ?bad b ?w1 = (Ret (),
      ?w1\<lparr>wd_handler := (wd_handler w)\<lparr>h_circuit := write_breaker b (recorded (ev_clock env 40) ?bad
        (cells (cm_breakers cm) ! b)) cm\<rparr>, wd_logs := wd_logs w @ ls\<rparr>)" (is "_ = (_, ?w2)")
    using record_result_result [of "ev_clock env 40" ?bad b ?w1] by (auto simp: breaker_at_def)
  obtain us where us: "(case map_option Copy_Error err of None \<Rightarrow> give status
      | Some e \<Rightarrow> seq (fault env 41 ''proxy error'' (Some (ev_error_text env e))
          [(''request_id'', Log_Str rid), (''routing_key'', Log_Str key),
            (''placement_key'', Log_Str (placement_key ?d)), (''upstream_url'', Log_Str (endpoint_url ?d))]) (\<lambda>_.
         if status = 0 then seq (on_writer (http_error ''Bad Gateway'' 502)) (\<lambda>_. give 502) else give status)) ?w2
      = (Ret status, ?w2\<lparr>wd_logs := wd_logs w @ ls @ us\<rparr>)"
  proof (cases err)
    case None
    then show ?thesis by (intro that [of "[]"]) (simp add: give_def)
  next
    case (Some e)
    with assms(4) show ?thesis by (intro that) (auto simp: seq_def fault_def emit_def give_def)
  qed
  obtain l where l: "log_completed env rid r key (placement_key ?d) (reason_text (reason ?d)) (endpoint_url ?d) status
      (tg_failover t) (?w2\<lparr>wd_logs := wd_logs w @ ls @ us\<rparr>) = (Ret (), ?w2\<lparr>wd_logs := wd_logs w @ ls @ us @ [l]\<rparr>)"
    and f: "log_field l ''status_code'' = Some (Log_Int status)"
    using log_completed_line [where w = "?w2\<lparr>wd_logs := wd_logs w @ ls @ us\<rparr>" and status = status] by fastforce
  have "proxy_stage env rid r key b t w = (Ret (), ?w2\<lparr>wd_logs := wd_logs w @ ls @ us @ [l]\<rparr>)"
    using p rec us l by (simp add: proxy_stage_def Let_def seq_def)
  with f show ?thesis
    by (intro exI [of _ "ls @ us @ [l]"]) simp
qed

text \<open>How the two checks can end without an answer of their own.\<close>

lemma circuit_stage_passes:
  assumes "fst (ask (ev_clock env 10) (breaker_at b (wd_handler w)))"
  shows "\<exists>ls. circuit_stage env rid r key b t w = (Ret (Some t), w\<lparr>wd_handler := (wd_handler w)\<lparr>h_circuit :=
      write_breaker b (snd (ask (ev_clock env 10) (breaker_at b (wd_handler w)))) (h_circuit (wd_handler w))\<rparr>,
      wd_logs := wd_logs w @ ls\<rparr>)"
  using ask_breaker_result [of "ev_clock env 10" b w] assms
  by (auto simp: circuit_stage_def seq_def [of "ask_breaker _ _"] give_def)

lemma circuit_stage_falls_back:
  assumes "\<not> fst (ask (ev_clock env 10) (breaker_at b (wd_handler w)))"
    and "fallback_of (h_config (wd_handler w)) (tg_placement t) = Ret (Some f)"
    and "endpoint_lookup (h_config (wd_handler w)) f = Ret url"
  shows "\<exists>ls. circuit_stage env rid r key b t w = (Ret (Some (redirect f url ''circuit_open'' t)),
      w\<lparr>wd_handler := (wd_handler w)\<lparr>h_circuit :=
      write_breaker b (snd (ask (ev_clock env 10) (breaker_at b (wd_handler w)))) (h_circuit (wd_handler w))\<rparr>,
      wd_logs := wd_logs w @ ls\<rparr>)"
  using ask_breaker_result [of "ev_clock env 10" b w] assms
  by (auto simp: circuit_stage_def seq_def [of "ask_breaker _ _"] seq_steps Let_def give_def info_def)

lemma health_stage_passes:
  assumes "is_healthy (h_checker (wd_handler w)) (tg_placement t)"
  shows "\<exists>ls. health_stage env rid t w = (Ret t, w\<lparr>wd_logs := wd_logs w @ ls\<rparr>)"
  using assms by (intro exI [of _ "[]"]) (simp add: health_stage_def seq_steps give_def)

lemma health_stage_falls_back:
  assumes "\<not> is_healthy (h_checker (wd_handler w)) (tg_placement t)"
    and "fallback_of (h_config (wd_handler w)) (tg_placement t) = Ret (Some f)"
    and "endpoint_lookup (h_config (wd_handler w)) f = Ret url"
  shows "\<exists>ls. health_stage env rid t w = (Ret (redirect f url ''upstream_unhealthy'' t), w\<lparr>wd_logs := wd_logs w @ ls\<rparr>)"
  using assms by (auto simp: health_stage_def seq_steps give_def info_def)

lemma health_stage_default:
  assumes "\<not> is_healthy (h_checker (wd_handler w)) (tg_placement t)"
    and "fallback_of (h_config (wd_handler w)) (tg_placement t) = Ret None"
    and "get_default_placement (h_config (wd_handler w)) \<noteq> tg_placement t"
    and "endpoint_lookup (h_config (wd_handler w)) (get_default_placement (h_config (wd_handler w))) = Ret url"
  shows "\<exists>ls. health_stage env rid t w = (Ret (redirect (get_default_placement (h_config (wd_handler w))) url
      ''upstream_unhealthy'' t), w\<lparr>wd_logs := wd_logs w @ ls\<rparr>)"
  using assms by (auto simp: health_stage_def seq_steps give_def info_def Let_def)

text \<open>
  The request that reaches the upstream of target \<open>t\<close>: what the client and the breakers see. The
  breaker asked and told the result is the one of the placement routed to, whatever the target.
\<close>

definition served :: "env \<Rightarrow> world \<Rightarrow> string \<Rightarrow> target \<Rightarrow> upstream_request \<Rightarrow> reply \<Rightarrow> world \<Rightarrow> bool" where
  "served env w pk t req rep w' \<longleftrightarrow>
     (let d = tg_decision t; cm = h_circuit (wd_handler w);
          asked = snd (ask (ev_clock env 10) (breaker_for (ev_clock env 9) cm pk));
          own = (if placement_key d = pk then asked else breaker_for (ev_clock env 30) cm (placement_key d));
          failed = (copy_error rep \<noteq> None \<or> 500 \<le> reply_status rep)
      in wd_sent w' = wd_sent w @ [req]
       \<and> wd_writer w' = \<lparr>wr_header = response_headers (reply_header rep) d (tg_failover t) (br_state own) [],
            wr_status = Some (reply_status rep), wr_body = reply_body rep\<rparr>
       \<and> st_get (cm_breakers (h_circuit (wd_handler w'))) pk = Some (recorded (ev_clock env 40) failed asked)
       \<and> (\<forall>q. q \<noteq> pk \<longrightarrow> st_get (cm_breakers (h_circuit (wd_handler w'))) q =
            (if q = placement_key d then Some own else st_get (cm_breakers cm) q))
       \<and> log_field (last (wd_logs w')) ''status_code'' = Some (Log_Int (reply_status rep)))"

lemma ask_keeps [simp]:
  "breaker_inv b \<Longrightarrow> breaker_inv (snd (ask clk b))" "br_placement (snd (ask clk b)) = br_placement b"
  using br.kept_inv by simp_all
text \<open>The breaker of a request after \<open>Allow\<close> was asked, in the manager's two lookups.\<close>

lemma asked_manager:
  fixes clk2 :: clock
  assumes "manager_inv cm" "get_breaker clk pk cm = (b, cm1)"
  defines "asked \<equiv> snd (ask clk2 (breaker_for clk cm pk))"
  defines "cm2 \<equiv> write_breaker b asked cm1"
  shows "cells (cm_breakers cm1) ! b = breaker_for clk cm pk" "manager_inv cm2" "st_ref (cm_breakers cm2) pk = Some b"
    "st_get (cm_breakers cm2) q = (if q = pk then Some asked else st_get (cm_breakers cm) q)" "cm_config cm2 = cm_config cm"
proof -
  note f = get_breaker_facts [OF assms(1,2)]
  show "cells (cm_breakers cm1) ! b = breaker_for clk cm pk" by (simp add: f(3))
  have "breaker_inv (cells (cm_breakers cm1) ! b)" "br_placement (cells (cm_breakers cm1) ! b) = pk"
    using manager_inv_breaker [OF f(1,2)] manager_inv_placement [OF f(1,2)] .
  then show "manager_inv cm2"
    unfolding cm2_def asked_def using f(3) by (intro write_breaker_inv [OF f(1,2)]) simp_all
  show "st_ref (cm_breakers cm2) pk = Some b" by (simp add: cm2_def write_breaker_def f(2))
  show "st_get (cm_breakers cm2) q = (if q = pk then Some asked else st_get (cm_breakers cm) q)"
    unfolding cm2_def by (simp add: write_breaker_get [OF f(1,2)] f(4))
  show "cm_config cm2 = cm_config cm"
    using assms(2) by (auto simp: cm2_def write_breaker_def get_breaker_def get_breaker_read_def get_breaker_write_def split: option.splits)
qed

lemma answered_manager:
  assumes "manager_inv cm2" "st_ref (cm_breakers cm2) pk = Some b" "cm_config cm2 = cm_config cm"
    and get2: "\<And>q. st_get (cm_breakers cm2) q = (if q = pk then Some asked else st_get (cm_breakers cm) q)"
    and "get_breaker clk to cm2 = (b', cm3)"
  shows "cells (cm_breakers cm3) ! b' = (if to = pk then asked else breaker_for clk cm to)"
    "cells (cm_breakers cm3) ! b = asked"
    "st_get (cm_breakers (write_breaker b br cm3)) q = (if q = pk then Some br
      else if q = to then Some (breaker_for clk cm to) else st_get (cm_breakers cm) q)"
proof -
  note f = get_breaker_facts [OF assms(1,5)]
  have ref: "st_ref (cm_breakers cm3) pk = Some b"
    using assms(2,5) by (auto simp: get_breaker_def get_breaker_read_def get_breaker_write_def st_ref_bind split: option.splits)
  show "cells (cm_breakers cm3) ! b' = (if to = pk then asked else breaker_for clk cm to)"
    by (simp add: f(3) breaker_for_def get2 assms(3) cong: option.case_cong)
  show "cells (cm_breakers cm3) ! b = asked"
    using st_get_ref [OF ref] f(4) [of pk] by (auto simp: get2 breaker_for_def split: if_splits)
  show "st_get (cm_breakers (write_breaker b br cm3)) q = (if q = pk then Some br
      else if q = to then Some (breaker_for clk cm to) else st_get (cm_breakers cm) q)"
    unfolding write_breaker_get [OF f(1) ref] f(4) by (simp add: get2 breaker_for_def assms(3) cong: option.case_cong)
qed

lemma served_stages:
  assumes adm: "routed env r d" "has_slot w (placement_key d)" "body_fits w r (placement_key d)"
    and w: "wd_writer w = new_writer" "manager_inv (h_circuit (wd_handler w))"
    and circ: "\<And>b w1. h_config (wd_handler w1) = h_config (wd_handler w) \<Longrightarrow>
      breaker_at b (wd_handler w1) = breaker_for (ev_clock env 9) (h_circuit (wd_handler w)) (placement_key d) \<Longrightarrow>
      \<exists>ls. circuit_stage env (request_id env r) r (header_get (rq_header r) ''X-Routing-Key'') b (first_target d) w1
        = (Ret (Some t1), w1\<lparr>wd_handler := (wd_handler w1)\<lparr>h_circuit :=
          write_breaker b (snd (ask (ev_clock env 10) (breaker_at b (wd_handler w1)))) (h_circuit (wd_handler w1))\<rparr>,
          wd_logs := wd_logs w1 @ ls\<rparr>)"
    and heal: "\<And>w1. h_config (wd_handler w1) = h_config (wd_handler w) \<Longrightarrow>
      h_checker (wd_handler w1) = h_checker (wd_handler w) \<Longrightarrow>
      \<exists>ls. health_stage env (request_id env r) t1 w1 = (Ret t2, w1\<lparr>wd_logs := wd_logs w1 @ ls\<rparr>)"
    and net: "build_request (request_id env r) r (endpoint_url (tg_decision t2)) = Inr req" "sendable req"
      "ev_net env req = Reply status hdr body err" "100 \<le> status" "status \<le> 999" "undisturbed env"
  shows "fst (serve_http env r w) = Ret ()
    \<and> served env w (placement_key d) t2 req (Reply status hdr body err) (snd (serve_http env r w))"
proof -
  let ?pk = "placement_key d" and ?cm = "h_circuit (wd_handler w)" and ?w = "holding (placement_key d) w"
  let ?rid = "request_id env r" and ?key = "header_get (rq_header r) ''X-Routing-Key''" and ?to = "placement_key (tg_decision t2)"
  obtain b cm1 where g1: "get_breaker (ev_clock env 9) ?pk ?cm = (b, cm1)" by fastforce
  define asked where "asked = snd (ask (ev_clock env 10) (breaker_for (ev_clock env 9) ?cm ?pk))"
  define cm2 where "cm2 = write_breaker b asked cm1"
  define w1 where "w1 = ?w\<lparr>wd_handler := (wd_handler ?w)\<lparr>h_circuit := cm1\<rparr>\<rparr>"
  note f1 = asked_manager(1) [OF w(2) g1]
    asked_manager(2-5) [OF w(2) g1, where ?clk2.0 = "ev_clock env 10", folded asked_def, folded cm2_def]
  have w1: "h_config (wd_handler w1) = h_config (wd_handler w)" "h_circuit (wd_handler w1) = cm1"
    by (simp_all add: w1_def)
  have br: "breaker_at b (wd_handler w1) = breaker_for (ev_clock env 9) ?cm ?pk" by (simp add: w1_def breaker_at_def f1(1))
  obtain ls1 where c: "circuit_stage env ?rid r ?key b (first_target d) w1
      = (Ret (Some t1), w1\<lparr>wd_handler := (wd_handler w1)\<lparr>h_circuit := cm2\<rparr>, wd_logs := wd_logs w1 @ ls1\<rparr>)"
    using circ [OF w1(1) br] unfolding br asked_def [symmetric] w1(2) cm2_def [symmetric] by blast
  let ?w2 = "w1\<lparr>wd_handler := (wd_handler w1)\<lparr>h_circuit := cm2\<rparr>, wd_logs := wd_logs w1 @ ls1\<rparr>"
  obtain ls2 where h: "health_stage env ?rid t1 ?w2 = (Ret t2, ?w2\<lparr>wd_logs := wd_logs ?w2 @ ls2\<rparr>)"
    using heal [of ?w2] by (auto simp: w1_def)
  let ?w3 = "?w2\<lparr>wd_logs := wd_logs ?w2 @ ls2\<rparr>"
  obtain b' cm3 where g3: "get_breaker (ev_clock env 30) ?to cm2 = (b', cm3)" by fastforce
  note f3 = answered_manager [OF f1(2,3,5,4) g3]
  have g3': "get_breaker (ev_clock env 30) ?to (h_circuit (wd_handler ?w3)) = (b', cm3)" by (simp add: g3)
  have new: "wd_writer ?w3 = new_writer" by (simp add: w1_def w(1))
  obtain ls where p: "proxy_stage env ?rid r ?key b t2 ?w3 = (Ret (), ?w3\<lparr>
      wd_sent := wd_sent ?w3 @ [req],
      wd_writer := \<lparr>wr_header = response_headers hdr (tg_decision t2) (tg_failover t2)
          (br_state (cells (cm_breakers cm3) ! b')) [], wr_status = Some status, wr_body = body\<rparr>,
      wd_handler := (wd_handler ?w3)\<lparr>h_circuit := write_breaker b
          (recorded (ev_clock env 40) (err \<noteq> None \<or> 500 \<le> status) (cells (cm_breakers cm3) ! b)) cm3\<rparr>,
      wd_logs := wd_logs ?w3 @ ls\<rparr>)" "ls \<noteq> []" "log_field (last ls) ''status_code'' = Some (Log_Int status)"
    using proxy_stage_reply [OF net new g3'] by blast
  have fits: "body_fits ?w r (tg_placement (first_target d))" using adm(3) by (simp add: body_fits_def)
  have find: "find_breaker (ev_clock env 9) ?pk ?w = (Ret b, w1)"
    unfolding w1_def by (rule find_breaker_result) (simp add: g1)
  have st: "staged env r d w = proxy_stage env ?rid r ?key b t2 ?w3"
    using find c h by (simp add: guarded_stages_fits [OF fits] seq_def)
  show ?thesis
    using serve_result [OF adm(1,2) st [unfolded p(1)]] p(2,3) f3
    by (simp add: served_def Let_def asked_def w1_def)
qed

lemma proxied_answer:
  assumes "routed env r d" "has_slot w (placement_key d)" "body_fits w r (placement_key d)"
    and "wd_writer w = new_writer" "manager_inv (h_circuit (wd_handler w))"
    and "fst (ask (ev_clock env 10) (breaker_for (ev_clock env 9) (h_circuit (wd_handler w)) (placement_key d)))"
    and "is_healthy (h_checker (wd_handler w)) (placement_key d)"
    and "build_request (request_id env r) r (endpoint_url d) = Inr req" "sendable req"
    and "ev_net env req = Reply status hdr body err" "100 \<le> status" "status \<le> 999" "undisturbed env"
  shows "fst (serve_http env r w) = Ret ()
    \<and> served env w (placement_key d) (first_target d) req (Reply status hdr body err) (snd (serve_http env r w))"
  by (rule served_stages [OF assms(1-5)], rule circuit_stage_passes, simp add: assms(6),
      rule health_stage_passes, simp add: assms(7)) (simp_all add: assms(8-))

text \<open>
  Property C11. A request whose placement has a free slot, a breaker that admits it and a
  healthy endpoint is sent once, to the endpoint of its placement, and the client gets the upstream's
  status, headers and body; the result (a status below 500 or not, the body cut short or not) is
  recorded in the placement's breaker, and no other breaker changes.
\<close>

theorem proxied_response:
  assumes "routed env r d" "has_slot w (placement_key d)" "body_fits w r (placement_key d)"
    and "wd_writer w = new_writer" "manager_inv (h_circuit (wd_handler w))"
    and "fst (ask (ev_clock env 10) (breaker_for (ev_clock env 9) (h_circuit (wd_handler w)) (placement_key d)))"
    and "is_healthy (h_checker (wd_handler w)) (placement_key d)"
    and "build_request (request_id env r) r (endpoint_url d) = Inr req" "sendable req"
    and "ev_net env req = Reply status hdr body err" "100 \<le> status" "status \<le> 999" "undisturbed env"
  shows "fst (serve_http env r w) = Ret ()
    \<and> served env w (placement_key d) (first_target d) req (Reply status hdr body err) (snd (serve_http env r w))"
  by (rule proxied_answer [OF assms])

text \<open>
  Property C28. When the endpoint of the routed placement is unhealthy and it has a fallback,
  the request is sent once, to the fallback, with neither its breaker nor its limits consulted; the result
  counts for the breaker of the placement routed to, which the fallback's failure can open, while the
  breaker of the fallback stays as it was.
\<close>

theorem failover_charged_to_original:
  assumes "routed env r d" "has_slot w (placement_key d)" "body_fits w r (placement_key d)"
    and "wd_writer w = new_writer" "manager_inv (h_circuit (wd_handler w))"
    and "fst (ask (ev_clock env 10) (breaker_for (ev_clock env 9) (h_circuit (wd_handler w)) (placement_key d)))"
    and "\<not> is_healthy (h_checker (wd_handler w)) (placement_key d)"
    and "fallback_of (h_config (wd_handler w)) (placement_key d) = Ret (Some f)"
    and "endpoint_lookup (h_config (wd_handler w)) f = Ret url"
    and "build_request (request_id env r) r url = Inr req" "sendable req"
    and "ev_net env req = Reply status hdr body err" "100 \<le> status" "status \<le> 999" "undisturbed env"
  shows "served env w (placement_key d) (redirect f url ''upstream_unhealthy'' (first_target d)) req
      (Reply status hdr body err) (snd (serve_http env r w))"
proof -
  let ?t = "redirect f url ''upstream_unhealthy'' (first_target d)"
  have t: "endpoint_url (tg_decision ?t) = url" by (simp add: redirect_def)
  have "fst (serve_http env r w) = Ret () \<and> served env w (placement_key d) ?t req (Reply status hdr body err)
      (snd (serve_http env r w))"
    by (rule served_stages [where ?t2.0 = ?t, OF assms(1-5)], rule circuit_stage_passes, simp add: assms(6),
        rule health_stage_falls_back) (simp_all add: assms t)
  then show ?thesis by simp
qed

text \<open>
  Property C33. When the breaker of the routed placement is open and it has a fallback, the
  request is sent once, to the fallback if that is healthy, and the open breaker keeps its state and its
  retry time whatever the fallback answers.
\<close>

theorem open_circuit_uses_fallback:
  assumes "routed env r d" "has_slot w (placement_key d)" "body_fits w r (placement_key d)"
    and "wd_writer w = new_writer" "manager_inv (h_circuit (wd_handler w))"
    and "st_get (cm_breakers (h_circuit (wd_handler w))) (placement_key d) = Some br"
    and "br_state br = State_Open" "ev_clock env 10 0 \<le> br_next_retry br"
    and "fallback_of (h_config (wd_handler w)) (placement_key d) = Ret (Some f)"
    and "endpoint_lookup (h_config (wd_handler w)) f = Ret url"
    and "is_healthy (h_checker (wd_handler w)) f"
    and "build_request (request_id env r) r url = Inr req" "sendable req"
    and "ev_net env req = Reply status hdr body err" "100 \<le> status" "status \<le> 999" "undisturbed env"
  shows "let w' = snd (serve_http env r w) in
    served env w (placement_key d) (redirect f url ''circuit_open'' (first_target d)) req (Reply status hdr body err) w'
    \<and> (\<exists>br'. st_get (cm_breakers (h_circuit (wd_handler w'))) (placement_key d) = Some br'
         \<and> br_state br' = State_Open \<and> br_next_retry br' = br_next_retry br)"
proof -
  let ?t = "redirect f url ''circuit_open'' (first_target d)"
  have bf: "breaker_for clk (h_circuit (wd_handler w)) (placement_key d) = br" for clk
    by (simp add: breaker_for_def assms(6))
  have no: "\<not> fst (ask (ev_clock env 10) br)" and same: "snd (ask (ev_clock env 10) br) = br"
    using assms(7,8) by (simp_all add: ask_def allow_def)
  have t: "endpoint_url (tg_decision ?t) = url" "tg_placement ?t = f" by (simp_all add: redirect_def)
  have "fst (serve_http env r w) = Ret () \<and> served env w (placement_key d) ?t req (Reply status hdr body err)
      (snd (serve_http env r w))"
    by (rule served_stages [where ?t1.0 = ?t and ?t2.0 = ?t, OF assms(1-5)], rule circuit_stage_falls_back)
      (simp_all add: bf no assms t health_stage_passes)
  moreover have "br_state (recorded clk bad br) = State_Open \<and> br_next_retry (recorded clk bad br) = br_next_retry br" for clk bad
    using assms(7) by (simp add: recorded_def breaker_defs)
  ultimately show ?thesis by (simp add: served_def Let_def bf same)
qed

section \<open>The upstream request\<close>

lemma build_request_ok:
  assumes "parse_url url = Inr u" "CHR ''#'' \<notin> set (rq_raw_query r)"
  shows "\<exists>req. build_request rid r url = Inr req \<and> up_scheme req = url_scheme u
    \<and> (url_host u = [] \<or> last (url_host u) \<noteq> CHR '':'' \<longrightarrow> up_host req = url_host u)
    \<and> up_header req = upstream_headers rid r \<and> up_method req = rq_method r \<and> up_raw_query req = rq_raw_query r
    \<and> (rq_path r \<noteq> [] \<and> hd (rq_path r) = CHR ''/'' \<longrightarrow> up_path req = rq_path r)"
  using assms cut_None [OF assms(2)] by (auto simp: build_request_def new_request_def Let_def)

lemma sample_build:
  assumes "url = ''http://cell-visa:9004'' \<or> url = ''http://cell-tier3:9003''"
  shows "\<exists>req. build_request rid (sample_request key n) url = Inr req \<and> sendable req"
proof -
  have "\<exists>u. parse_url url = Inr u \<and> url_scheme u = ''http'' \<and> url_host u \<noteq> [] \<and> last (url_host u) \<noteq> CHR '':''"
    using assms by (auto simp: url_eval)
  then obtain u where u: "parse_url url = Inr u" "url_scheme u = ''http''" "url_host u \<noteq> []"
    "last (url_host u) \<noteq> CHR '':''" by blast
  have "CHR ''#'' \<notin> set (rq_raw_query (sample_request key n))" by (simp add: sample_request_def)
  from build_request_ok [OF u(1) this, of rid] u show ?thesis
    by (auto simp: sendable_def)
qed

lemma map_of_header_set: "map_of (header_set k v h) j = (if j = k then Some [v] else map_of h j)"
  by (simp add: header_set_def update_conv')

text \<open>
  Property C30. The upstream request keeps the method, the body and every header of the client's
  request except three, which it sets: the request id, the protocol, and \<open>X-Forwarded-For\<close>, where the
  client's address follows the value the client sent. Only the first such header line survives.
\<close>

theorem forwarded_headers:
  assumes "build_request rid r url = Inr req" "distinct (map fst (rq_header r))"
    and "\<forall>(k, vs) \<in> set (rq_header r). vs \<noteq> []"
  shows "up_method req = rq_method r \<and> up_body req = rq_body r
    \<and> map_of (up_header req) ''X-Request-Id'' = Some [rid]
    \<and> map_of (up_header req) ''X-Forwarded-Proto'' = Some [if rq_tls r then ''https'' else ''http'']
    \<and> map_of (up_header req) ''X-Forwarded-For'' =
        Some [case map_of (rq_header r) ''X-Forwarded-For'' of
          Some ((c # cs) # vs) \<Rightarrow> (c # cs) @ '', '' @ split_host (rq_remote_addr r)
        | _ \<Rightarrow> split_host (rq_remote_addr r)]
    \<and> (\<forall>k. k \<notin> {''X-Request-Id'', ''X-Forwarded-Proto'', ''X-Forwarded-For''} \<longrightarrow>
        map_of (up_header req) k = map_of (rq_header r) k)"
proof -
  have hdr: "up_header req = upstream_headers rid r" and m: "up_method req = rq_method r \<and> up_body req = rq_body r"
    using assms(1) by (auto simp: build_request_def new_request_def Let_def split: sum.splits prod.splits option.splits)
  have copied: "map_of (header_copy (rq_header r) []) k = map_of (rq_header r) k" for k
  proof (cases "map_of (rq_header r) k")
    case (Some vs)
    with map_of_SomeD [OF Some] assms(3) have "vs \<noteq> []" by auto
    with Some show ?thesis by (simp add: map_of_header_copy [OF assms(2)])
  qed (simp add: map_of_header_copy [OF assms(2)])
  have "header_get (header_set ''X-Request-Id'' rid (header_copy (rq_header r) [])) ''X-Forwarded-For''
      = header_get (rq_header r) ''X-Forwarded-For''"
    by (simp add: header_get_set) (simp add: header_get_def copied)
  then show ?thesis
    unfolding hdr using m
    by (auto simp: upstream_headers_def Let_def map_of_header_set copied forwarded_for_def header_get_def
        split: option.split list.split)
qed

theorem forwarded_headers_witness:
  "\<exists>req. build_request ''r1'' (sample_request ''visa'' 0) ''http://cell-visa:9004'' = Inr req
    \<and> map_of (up_header req) ''X-Routing-Key'' = Some [''visa'']
    \<and> map_of (up_header req) ''X-Forwarded-For'' = Some [''10.0.0.1'']"
proof -
  obtain req where req: "build_request ''r1'' (sample_request ''visa'' 0) ''http://cell-visa:9004'' = Inr req"
    using sample_build [of "''http://cell-visa:9004''"] by blast
  have d: "distinct (map fst (rq_header (sample_request ''visa'' 0)))"
    and v: "\<forall>(k, vs) \<in> set (rq_header (sample_request ''visa'' 0)). vs \<noteq> []"
    by (simp_all add: sample_request_def)
  from forwarded_headers [OF req d v] req show ?thesis
    by (simp add: sample_request_def split_host_def)
qed

section \<open>Samples of proxied requests\<close>

lemma sample_env_facts [simp]:
  "undisturbed (sample_proxy_env st)" "ev_net (sample_proxy_env st) req = Reply st [(''Server'', [''cell''])] ''ok'' None"
  "manager_inv (new_circuit_manager cfg)" "breaker_for clk (new_circuit_manager cfg) pk = new_breaker clk pk cfg"
  "fst (ask clk (new_breaker clk2 pk cfg))" "body_fits (sample_world 0) (sample_request key 0) pk"
  by (rule_tac [3] manager_inv_new) (simp_all add: undisturbed_def sample_proxy_env_def breaker_for_def
      new_circuit_manager_def breaker_defs new_breaker_def body_fits_def sample_request_def)

theorem proxied_response_witness:
  "wr_status (wd_writer (snd (serve_http (sample_proxy_env 200) (sample_request ''visa'' 0) (sample_world 0)))) = Some 200
   \<and> wr_body (wd_writer (snd (serve_http (sample_proxy_env 200) (sample_request ''visa'' 0) (sample_world 0)))) = ''ok''"
proof -
  obtain req where req: "build_request (request_id (sample_proxy_env 200) (sample_request ''visa'' 0))
      (sample_request ''visa'' 0) (endpoint_url sample_visa) = Inr req" "sendable req"
    using sample_build [of "endpoint_url sample_visa"] by (metis sample_world_fields(11))
  have "is_healthy (h_checker (wd_handler (sample_world 0))) (placement_key sample_visa)"
    by (simp add: is_healthy_def new_checker_def)
  then show ?thesis
    using proxied_response [OF sample_routed sample_has_slot _ _ _ _ _ req] by (simp add: served_def Let_def)
qed

definition sample_unhealthy_world :: world where
  "sample_unhealthy_world = (sample_world 0)\<lparr>wd_handler := (sample_handler 0)\<lparr>h_checker :=
     (new_checker default_check_config)\<lparr>ck_endpoints := \<lparr>refs = [(''visa'', 0)],
       cells = [\<lparr>eh_url = ''http://cell-visa:9004'', eh_state = Unhealthy, eh_last_check = 5\<rparr>]\<rparr>\<rparr>\<rparr>\<rparr>"

lemma sample_unhealthy_fields [simp]:
  "has_slot sample_unhealthy_world pk" "body_fits sample_unhealthy_world (sample_request key 0) pk"
  "wd_writer sample_unhealthy_world = new_writer" "h_config (wd_handler sample_unhealthy_world) = sample_m4"
  "h_circuit (wd_handler sample_unhealthy_world) = new_circuit_manager default_breaker_config"
  "\<not> is_healthy (h_checker (wd_handler sample_unhealthy_world)) ''visa''"
  by (simp_all add: sample_unhealthy_world_def has_slot_def body_fits_def is_healthy_def st_get_def st_ref_def sample_request_def)

lemma sample_fallback [simp]:
  "fallback_of sample_m4 ''visa'' = Ret (Some ''tier3'')"
  "endpoint_lookup sample_m4 ''tier3'' = Ret ''http://cell-tier3:9003''"
  by (simp_all add: fallback_of_def get_placement_config_def sample_m4_def sample_placement_def
      endpoint_lookup_def get_cell_endpoints_def)

theorem failover_charged_to_original_witness:
  "let w' = snd (serve_http (sample_proxy_env 500) (sample_request ''visa'' 0) sample_unhealthy_world)
   in map_option br_failures (st_get (cm_breakers (h_circuit (wd_handler w'))) ''visa'') = Some 1
    \<and> map_option br_failures (st_get (cm_breakers (h_circuit (wd_handler w'))) ''tier3'') = Some 0"
proof -
  obtain req where req: "build_request (request_id (sample_proxy_env 500) (sample_request ''visa'' 0))
      (sample_request ''visa'' 0) ''http://cell-tier3:9003'' = Inr req" "sendable req"
    using sample_build [of "''http://cell-tier3:9003''"] by metis
  from failover_charged_to_original [OF sample_routed _ _ _ _ _ _ _ _ req, of sample_unhealthy_world "''tier3''" 500]
  show ?thesis
    by (simp add: served_def Let_def redirect_def)
      (simp add: recorded_def breaker_defs new_breaker_def default_breaker_config_def)
qed

theorem open_circuit_uses_fallback_witness:
  "wr_status (wd_writer (snd (serve_http (sample_proxy_env 200) (sample_request ''visa'' 0)
     (sample_open_world sample_m4)))) = Some 200"
proof -
  let ?w = "sample_open_world sample_m4"
  obtain req where req: "build_request (request_id (sample_proxy_env 200) (sample_request ''visa'' 0))
      (sample_request ''visa'' 0) ''http://cell-tier3:9003'' = Inr req" "sendable req"
    using sample_build [of "''http://cell-tier3:9003''"] by metis
  have get: "st_get (cm_breakers (h_circuit (wd_handler ?w))) (placement_key sample_visa) = Some sample_open_breaker"
    by (simp add: sample_open_world_def st_get_def st_ref_def)
  have inv: "manager_inv (h_circuit (wd_handler ?w))"
    by (simp add: sample_open_world_def manager_inv_def st_wf_def st_ref_def)
      (simp add: sample_open_breaker_def use_def new_breaker_def)
  have h: "is_healthy (h_checker (wd_handler ?w)) ''tier3''"
    by (simp add: sample_open_world_def is_healthy_def new_checker_def)
  have t: "ev_clock (sample_proxy_env 200) 10 0 \<le> br_next_retry sample_open_breaker"
    by (simp add: sample_proxy_env_def)
  from open_circuit_uses_fallback [OF sample_routed _ _ _ inv get _ t _ _ h req, of 200] show ?thesis
    by (simp add: served_def Let_def)
qed

section \<open>Every request is answered once\<close>

definition unanswered :: "world \<Rightarrow> bool" where
  "unanswered w \<longleftrightarrow> wr_status (wd_writer w) = None"

definition answered :: "world \<Rightarrow> bool" where
  "answered w \<longleftrightarrow> (\<exists>s. wr_status (wd_writer w) = Some s \<and> wd_logs w \<noteq> []
     \<and> log_field (last (wd_logs w)) ''status_code'' = Some (Log_Int s))"

text \<open>
  Run before an answer under a configuration \<open>c\<close>, the action returns; it leaves the request
  unanswered if its result is in \<open>P\<close> and answered and logged otherwise, and it sends at most \<open>k\<close> requests.
\<close>

definition yields :: "config \<Rightarrow> nat \<Rightarrow> 'a action \<Rightarrow> ('a \<Rightarrow> bool) \<Rightarrow> bool" where
  "yields c k m P \<longleftrightarrow> (\<forall>w. unanswered w \<longrightarrow> h_config (wd_handler w) = c \<longrightarrow>
     (\<exists>x w'. m w = (Ret x, w') \<and> (if P x then unanswered w' else answered w')
       \<and> h_config (wd_handler w') = c \<and> length (wd_sent w') \<le> length (wd_sent w) + k))"

lemma yieldsI:
  assumes "\<And>w. unanswered w \<Longrightarrow> h_config (wd_handler w) = c \<Longrightarrow>
    \<exists>x w'. m w = (Ret x, w') \<and> (if P x then unanswered w' else answered w')
       \<and> h_config (wd_handler w') = c \<and> length (wd_sent w') \<le> length (wd_sent w) + k"
  shows "yields c k m P"
  using assms by (simp add: yields_def)

lemma yields_seq:
  assumes "yields c 0 m P" "\<And>x. P x \<Longrightarrow> yields c k (f x) Q" "\<And>x. \<not> P x \<Longrightarrow> \<exists>y. f x = give y \<and> \<not> Q y"
  shows "yields c k (seq m f) Q"
proof (rule yieldsI)
  fix w
  assume w: "unanswered w" "h_config (wd_handler w) = c"
  obtain x w1 where m: "m w = (Ret x, w1)" "if P x then unanswered w1 else answered w1"
    "h_config (wd_handler w1) = c" "length (wd_sent w1) \<le> length (wd_sent w)"
    using assms(1) w unfolding yields_def by fastforce
  show "\<exists>y w'. seq m f w = (Ret y, w') \<and> (if Q y then unanswered w' else answered w')
       \<and> h_config (wd_handler w') = c \<and> length (wd_sent w') \<le> length (wd_sent w) + k"
  proof (cases "P x")
    case True
    with assms(2) [of x] m show ?thesis unfolding yields_def seq_def by fastforce
  next
    case False
    with assms(3) [of x] obtain y where "f x = give y" "\<not> Q y" by blast
    with False m show ?thesis by (intro exI [of _ y] exI [of _ w1]) (simp add: seq_def give_def)
  qed
qed

lemma yields_then:
  assumes "yields c 0 m (\<lambda>_. True)" "\<And>x. yields c k (f x) Q"
  shows "yields c k (seq m f) Q"
  by (rule yields_seq [OF assms(1)]) (simp_all add: assms(2))

lemma yields_pure:
  "P x \<Longrightarrow> yields c k (give x) P" "P x \<Longrightarrow> yields c k (compute (Ret x)) P"
  "yields c k (read_handler f) (\<lambda>_. True)" "yields c k (emit ls) (\<lambda>_. True)"
  "yields c k (info env n msg fs) (\<lambda>_. True)" "yields c k (fault env n msg err fs) (\<lambda>_. True)"
  "yields c k (set_response_header h v) (\<lambda>_. True)"
  by (simp_all add: yields_def give_def compute_def read_handler_def emit_def info_def fault_def unanswered_def
      set_response_header_def on_writer_def)

lemma yields_breaker:
  "yields c k (find_breaker clk pk) (\<lambda>_. True)" "yields c k (ask_breaker clk b) (\<lambda>_. True)"
  by (simp_all add: yields_def find_breaker_def ask_breaker_def unanswered_def put_breaker_def split: prod.splits)

lemma yields_refusal:
  assumes "100 \<le> code" "code \<le> 999"
  shows "yields c k (seq (on_writer (http_error text code))
    (\<lambda>_. log_completed env rid r key pk why url code failover)) (\<lambda>_. False)"
proof (rule yieldsI)
  fix w
  assume w: "unanswered w" "h_config (wd_handler w) = c"
  then obtain wr where wr: "http_error text code (wd_writer w) = Ret wr" "wr_status wr = Some code"
    unfolding unanswered_def using http_error_status [OF assms] by metis
  show "\<exists>x w'. seq (on_writer (http_error text code)) (\<lambda>_. log_completed env rid r key pk why url code failover) w
      = (Ret x, w') \<and> (if False then unanswered w' else answered w') \<and> h_config (wd_handler w') = c
      \<and> length (wd_sent w') \<le> length (wd_sent w) + k"
    using log_completed_line [of env rid r key pk why url code failover "w\<lparr>wd_writer := wr\<rparr>"] wr w
    by (auto simp: seq_def on_writer_def answered_def)
qed

text \<open>A configuration without null placements never makes the failover code panic.\<close>

definition config_safe :: "config \<Rightarrow> bool" where
  "config_safe c \<longleftrightarrow> (\<forall>(k, p) \<in> set (entries (placements c)). p \<noteq> None)"

lemma config_safe_fallback: "config_safe c \<Longrightarrow> \<exists>f. fallback_of c pk = Ret f"
  by (auto simp: config_safe_def fallback_of_def get_placement_config_def dest: lookup_in_entries split: option.splits)

lemma config_safe_endpoint: "config_safe c \<Longrightarrow> \<exists>u. endpoint_lookup c pk = Ret u"
  using get_cell_endpoints_total [of c] by (auto simp: config_safe_def endpoint_lookup_def)

lemma yields_known:
  "yields c k (f c) P \<Longrightarrow> yields c k (seq (read_handler h_config) f) P"
  "yields c k (g x) P \<Longrightarrow> yields c k (seq (compute (Ret x)) g) P"
  by (simp_all add: yields_def seq_steps)

lemma seq_assoc: "seq m (\<lambda>x. seq (f x) g) = seq (seq m f) g"
  by (auto simp: seq_def split: prod.splits outcome.splits)

lemma yields_circuit_stage:
  assumes "config_safe c"
  shows "yields c 0 (circuit_stage env rid r key b t) (\<lambda>res. res \<noteq> None)"
proof -
  obtain fb where fb: "fallback_of c (tg_placement t) = Ret fb" using config_safe_fallback [OF assms] by blast
  obtain url where url: "\<And>f. endpoint_lookup c f = Ret (url f)" using config_safe_endpoint [OF assms] by metis
  have none: "yields c 0 (seq (on_writer (http_error msg 503)) (\<lambda>_.
      seq (log_completed env rid r key pk why u 503 fo) (\<lambda>_. give None))) (\<lambda>res. res \<noteq> None)"
    for msg pk why u fo
    unfolding seq_assoc by (rule yields_seq [OF yields_refusal]) auto
  have rd: "yields c 0 (seq (read_handler (\<lambda>h. state_text (get_state (breaker_at b h)))) f) P"
    if "\<And>st. yields c 0 (f st) P" for f :: "string \<Rightarrow> target option action" and P
    by (rule yields_then [OF yields_pure(3) that])
  show ?thesis
    unfolding circuit_stage_def
    by (rule yields_then [OF yields_breaker(2)])
      (cases fb; auto intro!: yields_known yields_pure(1) rd yields_then [OF yields_pure(5)]
          yields_then [OF yields_pure(6)] yields_then [OF yields_pure(7)] none simp: fb url Let_def simp del: not_None_eq)
qed

lemma yields_health_stage:
  assumes "config_safe c"
  shows "yields c 0 (health_stage env rid t) (\<lambda>_. True)"
proof -
  obtain fb where fb: "fallback_of c (tg_placement t) = Ret fb" using config_safe_fallback [OF assms] by blast
  obtain url where url: "\<And>f. endpoint_lookup c f = Ret (url f)" using config_safe_endpoint [OF assms] by metis
  show ?thesis
    unfolding health_stage_def
    by (rule yields_then [OF yields_pure(3)])
      (cases fb; auto intro!: yields_known yields_pure(1) yields_then [OF yields_pure(5)] simp: fb url Let_def)
qed

text \<open>What a world must promise: the router returns, statuses are legal, the configuration is not replaced.\<close>

definition env_ok :: "env \<Rightarrow> bool" where
  "env_ok env \<longleftrightarrow> (\<forall>key. \<exists>res. ev_route env key = Ret res)
     \<and> (\<forall>req st h b e. ev_net env req = Reply st h b e \<longrightarrow> 100 \<le> st \<and> st \<le> 999)
     \<and> (\<forall>n h. h_config (ev_others env n h) = h_config h)"

lemma respond_result:
  assumes "unanswered w" "100 \<le> st" "st \<le> 999" "env_ok env"
  shows "\<exists>w'. respond env d failover st hdr body err w = (Ret (st, map_option Copy_Error err), w')
    \<and> wr_status (wd_writer w') = Some st \<and> h_config (wd_handler w') = h_config (wd_handler w)
    \<and> wd_sent w' = wd_sent w"
  using assms by (simp add: respond_def seq_def find_breaker_def read_handler_def on_writer_def write_header_def
      let_others_run_def give_def unanswered_def env_ok_def split: prod.split)

lemma client_do_result:
  assumes "env_ok env"
  shows "\<exists>res w'. client_do env req w = (Ret res, w') \<and> (\<forall>t. res \<noteq> Inr (Send_Error t))
    \<and> (\<forall>st h b e. res = Inr (Reply st h b e) \<longrightarrow> 100 \<le> st \<and> st \<le> 999)
    \<and> wd_writer w' = wd_writer w \<and> h_config (wd_handler w') = h_config (wd_handler w)
    \<and> length (wd_sent w') \<le> Suc (length (wd_sent w))"
  using assms by (cases "ev_net env req") (auto simp: client_do_def give_def let_others_run_def env_ok_def, blast+)

lemma proxy_request_result:
  assumes "unanswered w" "env_ok env"
  shows "\<exists>st e w'. proxy_request env r d rid failover w = (Ret (st, e), w')
    \<and> (st = 0 \<and> e \<noteq> None \<and> unanswered w' \<or> st \<noteq> 0 \<and> wr_status (wd_writer w') = Some st)
    \<and> h_config (wd_handler w') = h_config (wd_handler w) \<and> length (wd_sent w') \<le> Suc (length (wd_sent w))"
proof (cases "build_request rid r (endpoint_url d)")
  case (Inl e)
  then show ?thesis using assms by (simp add: proxy_request_def give_def)
next
  case (Inr req)
  obtain res w1 where c: "client_do env req w = (Ret res, w1)" "\<forall>t. res \<noteq> Inr (Send_Error t)"
    "\<forall>st h b e. res = Inr (Reply st h b e) \<longrightarrow> 100 \<le> st \<and> st \<le> 999" "wd_writer w1 = wd_writer w"
    "h_config (wd_handler w1) = h_config (wd_handler w)" "length (wd_sent w1) \<le> Suc (length (wd_sent w))"
    using client_do_result [OF assms(2), of req w] by blast
  have un: "unanswered w1" using assms(1) c(4) by (simp add: unanswered_def)
  show ?thesis
  proof (cases res)
    case Inl': (Inl e)
    then show ?thesis using Inr c un by (simp add: proxy_request_def seq_Ret [where m = "client_do env req"] give_def)
  next
    case Inr': (Inr rep)
    then obtain st h b e where rep: "rep = Reply st h b e" using c(2) by (cases rep) auto
    then have "100 \<le> st" "st \<le> 999" using c(3) Inr' by blast+
    from respond_result [OF un this assms(2)] show ?thesis
      using Inr Inr' rep c \<open>100 \<le> st\<close>
      by (fastforce simp: proxy_request_def seq_Ret [where m = "client_do env req", OF c(1)])
  qed
qed

text \<open>The end of \<open>proxy_stage\<close> before the completion is logged: 502 if there was no response.\<close>

lemma error_answer:
  assumes "st = 0 \<and> e \<noteq> None \<and> wr_status (wd_writer w) = None \<or> st \<noteq> 0 \<and> wr_status (wd_writer w) = Some st"
  shows "\<exists>st' w'. (case e of None \<Rightarrow> give st
      | Some e \<Rightarrow> seq (fault env n msg (Some (ev_error_text env e)) fs) (\<lambda>_.
         if st = 0 then seq (on_writer (http_error ''Bad Gateway'' 502)) (\<lambda>_. give 502) else give st)) w
      = (Ret st', w') \<and> wr_status (wd_writer w') = Some st' \<and> h_config (wd_handler w') = h_config (wd_handler w) \<and> wd_sent w' = wd_sent w"
proof (cases "st = 0")
  case True
  with assms obtain x where x: "e = Some x" and un: "wr_status (wd_writer w) = None" by auto
  obtain wr where "http_error ''Bad Gateway'' 502 (wd_writer w) = Ret wr" "wr_status wr = Some 502"
    using http_error_status [OF _ _ un, of 502] by auto
  with True x show ?thesis by (simp add: seq_def fault_def emit_def on_writer_def give_def)
next
  case False
  with assms show ?thesis by (cases e) (auto simp: seq_def fault_def emit_def give_def)
qed

lemma yields_proxy_stage:
  assumes "env_ok env"
  shows "yields c 1 (proxy_stage env rid r key b t) (\<lambda>_. False)"
proof (rule yieldsI)
  fix w
  assume w: "unanswered w" "h_config (wd_handler w) = c"
  let ?d = "tg_decision t"
  obtain st e w1 where p: "proxy_request env r ?d rid (tg_failover t) w = (Ret (st, e), w1)"
    and cases: "st = 0 \<and> e \<noteq> None \<and> unanswered w1 \<or> st \<noteq> 0 \<and> wr_status (wd_writer w1) = Some st"
    and kept: "h_config (wd_handler w1) = c" "length (wd_sent w1) \<le> Suc (length (wd_sent w))"
    using proxy_request_result [OF w(1) assms] w(2) by metis
  obtain w2 where rec: "record_result (ev_clock env 40) (e \<noteq> None \<or> 500 \<le> st) b w1 = (Ret (), w2)"
    "wd_writer w2 = wd_writer w1" "h_config (wd_handler w2) = c" "wd_sent w2 = wd_sent w1"
    using record_result_result [of "ev_clock env 40" "e \<noteq> None \<or> 500 \<le> st" b w1] kept(1) by auto
  have "st = 0 \<and> e \<noteq> None \<and> wr_status (wd_writer w2) = None \<or> st \<noteq> 0 \<and> wr_status (wd_writer w2) = Some st"
    using cases rec(2) by (auto simp: unanswered_def)
  from error_answer [OF this, of env 41 "''proxy error''" "[(''request_id'', Log_Str rid), (''routing_key'', Log_Str key),
      (''placement_key'', Log_Str (placement_key ?d)), (''upstream_url'', Log_Str (endpoint_url ?d))]"]
  obtain st' w3 where m: "(case e of None \<Rightarrow> give st
      | Some e \<Rightarrow> seq (fault env 41 ''proxy error'' (Some (ev_error_text env e))
          [(''request_id'', Log_Str rid), (''routing_key'', Log_Str key),
            (''placement_key'', Log_Str (placement_key ?d)), (''upstream_url'', Log_Str (endpoint_url ?d))]) (\<lambda>_.
         if st = 0 then seq (on_writer (http_error ''Bad Gateway'' 502)) (\<lambda>_. give 502) else give st)) w2
      = (Ret st', w3)" "wr_status (wd_writer w3) = Some st'" "h_config (wd_handler w3) = c" "wd_sent w3 = wd_sent w1"
    using rec(3,4) by auto
  obtain l where l: "log_completed env rid r key (placement_key ?d) (reason_text (reason ?d)) (endpoint_url ?d) st'
      (tg_failover t) w3 = (Ret (), w3\<lparr>wd_logs := wd_logs w3 @ [l]\<rparr>)" "log_field l ''status_code'' = Some (Log_Int st')"
    using log_completed_line by blast
  have "proxy_stage env rid r key b t w = (Ret (), w3\<lparr>wd_logs := wd_logs w3 @ [l]\<rparr>)"
    using p rec(1) m(1) l(1) by (simp add: proxy_stage_def Let_def seq_def)
  then show "\<exists>x w'. proxy_stage env rid r key b t w = (Ret x, w') \<and> (if False then unanswered w' else answered w')
      \<and> h_config (wd_handler w') = c \<and> length (wd_sent w') \<le> length (wd_sent w) + 1"
    using m l(2) kept by (simp add: answered_def)
qed

lemma yields_guarded_stages:
  assumes "env_ok env" "config_safe c"
  shows "yields c 1 (guarded_stages env rid r key t) (\<lambda>_. False)"
proof -
  have stages: "yields c 1 (seq (circuit_stage env rid r key b t) (\<lambda>res. case res of None \<Rightarrow> give ()
     | Some t1 \<Rightarrow> seq (health_stage env rid t1) (\<lambda>t2. proxy_stage env rid r key b t2))) (\<lambda>_. False)" for b
    by (rule yields_seq [OF yields_circuit_stage [OF assms(2)]])
      (auto intro!: yields_then [OF yields_health_stage [OF assms(2)]] yields_proxy_stage [OF assms(1)]
        simp del: One_nat_def)
  show ?thesis
    unfolding guarded_stages_def
    by (rule yields_then [OF yields_pure(3)])
      (auto intro!: yields_then [OF yields_breaker(1)] stages yields_then [OF yields_pure(6)] yields_refusal
        split: option.split simp del: One_nat_def)
qed

lemma yields_with_slot:
  assumes "yields c k body P"
  shows "yields c k (with_slot pk body) P"
proof (rule yieldsI)
  fix w
  assume "unanswered w" "h_config (wd_handler w) = c"
  then obtain x w1 where b: "body w = (Ret x, w1)" "if P x then unanswered w1 else answered w1"
    "h_config (wd_handler w1) = c" "length (wd_sent w1) \<le> length (wd_sent w) + k"
    using assms unfolding yields_def by fastforce
  then show "\<exists>x w'. with_slot pk body w = (Ret x, w') \<and> (if P x then unanswered w' else answered w')
      \<and> h_config (wd_handler w') = c \<and> length (wd_sent w') \<le> length (wd_sent w) + k"
    by (cases "release_slot pk (h_limits (wd_handler w1))")
      (auto simp: with_slot_def unanswered_def answered_def split: if_splits)
qed

lemma yields_take_slot: "yields c k (take_slot clk pk) (\<lambda>_. True)"
  by (simp add: yields_def take_slot_def unanswered_def split: prod.splits)

lemma yields_limited_stages:
  assumes "env_ok env" "config_safe c"
  shows "yields c 1 (limited_stages env rid r key d) (\<lambda>_. False)"
  unfolding limited_stages_def Let_def
  by (rule yields_then [OF yields_take_slot])
    (auto intro!: yields_with_slot yields_guarded_stages [OF assms] yields_then [OF yields_pure(6)] yields_refusal
      simp del: One_nat_def)

lemma yields_serve_http:
  assumes "env_ok env" "config_safe c"
  shows "yields c 1 (serve_http env r) (\<lambda>_. False)"
proof -
  obtain res where res: "ev_route env (header_get (rq_header r) ''X-Routing-Key'') = Ret res"
    using assms(1) unfolding env_ok_def by metis
  show ?thesis
    unfolding serve_http_def Let_def res
    by (auto intro!: yields_known(2) yields_limited_stages [OF assms] yields_then [OF yields_pure(6)] yields_refusal
        split: sum.split simp del: One_nat_def)
qed

lemma validated_config_safe:
  assumes "validate c = Ret None"
  shows "config_safe c"
proof -
  from assms obtain eps :: "(string, string) gomap"
    where "\<forall>(k, p) \<in> set (entries (placements c)). placement_ok (keys eps) p"
    by (auto simp: validate_Ret_None validate_placements_None)
  moreover have "placement_ok E p \<Longrightarrow> p \<noteq> None" for E p by (cases p) auto
  ultimately show ?thesis unfolding config_safe_def by fast
qed

lemma request_answered:
  assumes "validate (h_config (wd_handler w)) = Ret None" "env_ok env" "wr_status (wd_writer w) = None"
  shows "fst (serve_http env r w) = Ret () \<and> (let w' = snd (serve_http env r w) in
    (\<exists>st. wr_status (wd_writer w') = Some st \<and> log_field (last (wd_logs w')) ''status_code'' = Some (Log_Int st))
    \<and> length (wd_sent w') \<le> Suc (length (wd_sent w)))"
proof -
  have "unanswered w" using assms(3) by (simp add: unanswered_def)
  with yields_serve_http [OF assms(2) validated_config_safe [OF assms(1)], of r] show ?thesis
    unfolding yields_def by (fastforce simp: answered_def)
qed

text \<open>
  Property C14. Under a validated configuration every request is answered: the handler
  returns without a panic, whatever the router, the transport and the managers answer; it has written
  one status, the last log line carries that status, and it has sent at most one upstream request (a
  failed one is never retried on another placement).
\<close>

theorem every_request_answered:
  assumes "validate (h_config (wd_handler w)) = Ret None" "env_ok env" "wr_status (wd_writer w) = None"
  shows "fst (serve_http env r w) = Ret () \<and> (let w' = snd (serve_http env r w) in
    (\<exists>st. wr_status (wd_writer w') = Some st \<and> log_field (last (wd_logs w')) ''status_code'' = Some (Log_Int st))
    \<and> length (wd_sent w') \<le> Suc (length (wd_sent w)))"
  by (rule request_answered [OF assms])

theorem every_request_answered_witness:
  "fst (serve_http (sample_proxy_env 200) (sample_request ''visa'' 0) (sample_world 0)) = Ret ()"
proof -
  have ok: "env_ok (sample_proxy_env 200)" by (simp add: env_ok_def sample_proxy_env_def)
  have "validate (h_config (wd_handler (sample_world 0))) = Ret None" by simp
  from every_request_answered [OF this ok] show ?thesis by simp
qed

definition unreachable :: "env \<Rightarrow> string \<Rightarrow> request \<Rightarrow> string \<Rightarrow> bool" where
  "unreachable env rid r url \<longleftrightarrow> (case build_request rid r url of Inl e \<Rightarrow> True
     | Inr req \<Rightarrow> \<not> sendable req \<or> (\<exists>t. ev_net env req = Send_Error t))"

lemma unreachable_request:
  assumes "unreachable env rid r (endpoint_url d)" "undisturbed env"
  shows "\<exists>e sent. proxy_request env r d rid failover w = (Ret (0, Some e), w\<lparr>wd_sent := sent\<rparr>)"
proof (cases "build_request rid r (endpoint_url d)")
  case (Inl e)
  then show ?thesis by (intro exI [of _ e] exI [of _ "wd_sent w"]) (simp add: proxy_request_def give_def)
next
  case (Inr req)
  show ?thesis
  proof (cases "sendable req")
    case True
    with assms Inr obtain t where "ev_net env req = Send_Error t" by (auto simp: unreachable_def)
    with True Inr assms(2) show ?thesis
      by (intro exI [of _ "Transport_Error t"] exI [of _ "wd_sent w @ [req]"])
        (auto simp: proxy_request_def client_do_def seq_def sendable_def let_others_run_def undisturbed_def give_def)
  next
    case False
    with Inr show ?thesis
      by (intro exI [of _ "if up_scheme req \<in> {''http'', ''https''} then No_Host else Unsupported_Scheme (up_scheme req)"]
          exI [of _ "wd_sent w"])
        (auto simp: proxy_request_def client_do_def seq_def sendable_def give_def)
  qed
qed

lemma proxy_stage_unreachable:
  assumes "unreachable env rid r (endpoint_url (tg_decision t))" "undisturbed env" "unanswered w"
  shows "\<exists>w'. proxy_stage env rid r key b t w = (Ret (), w') \<and> wr_status (wd_writer w') = Some 502
    \<and> h_circuit (wd_handler w') = write_breaker b (failure (ev_clock env 40) (breaker_at b (wd_handler w)))
         (h_circuit (wd_handler w))"
proof -
  let ?d = "tg_decision t"
  obtain e sent where p: "proxy_request env r ?d rid (tg_failover t) w = (Ret (0, Some e), w\<lparr>wd_sent := sent\<rparr>)"
    using unreachable_request [OF assms(1,2)] by blast
  obtain ls where rec: "record_result (ev_clock env 40) True b (w\<lparr>wd_sent := sent\<rparr>) = (Ret (), w\<lparr>wd_sent := sent,
      wd_handler := (wd_handler w)\<lparr>h_circuit := write_breaker b
        (failure (ev_clock env 40) (breaker_at b (wd_handler w))) (h_circuit (wd_handler w))\<rparr>, wd_logs := wd_logs w @ ls\<rparr>)"
    (is "_ = (_, ?w1)")
    using record_result_result [of "ev_clock env 40" True b "w\<lparr>wd_sent := sent\<rparr>"] by (auto simp: recorded_def)
  have un: "wr_status (wd_writer ?w1) = None" using assms(3) by (simp add: unanswered_def)
  obtain wr where wr: "http_error ''Bad Gateway'' 502 (wd_writer ?w1) = Ret wr" "wr_status wr = Some 502"
    using http_error_status [OF _ _ un, of 502] by auto
  define w2 where "w2 = ?w1\<lparr>wd_logs := wd_logs ?w1 @ [log_error (ev_clock env 41 0) ''proxy error''
      (Some (ev_error_text env e)) [(''request_id'', Log_Str rid), (''routing_key'', Log_Str key),
        (''placement_key'', Log_Str (placement_key ?d)), (''upstream_url'', Log_Str (endpoint_url ?d))]], wd_writer := wr\<rparr>"
  obtain l where l: "log_completed env rid r key (placement_key ?d) (reason_text (reason ?d)) (endpoint_url ?d) 502
      (tg_failover t) w2 = (Ret (), w2\<lparr>wd_logs := wd_logs w2 @ [l]\<rparr>)"
    using log_completed_line by blast
  have "proxy_stage env rid r key b t w = (Ret (), w2\<lparr>wd_logs := wd_logs w2 @ [l]\<rparr>)"
    using p rec wr(1) l by (simp add: proxy_stage_def Let_def seq_def fault_def emit_def on_writer_def give_def w2_def)
  with wr(2) show ?thesis by (simp add: w2_def)
qed

text \<open>
  A request that finds no upstream (the URL of its endpoint does not parse, has
  another scheme or no host, or the transport fails) is answered 502, and the failure is recorded in the
  breaker of its placement.
\<close>

theorem unreachable_is_502:
  assumes "routed env r d" "has_slot w (placement_key d)" "body_fits w r (placement_key d)"
    and "wr_status (wd_writer w) = None" "manager_inv (h_circuit (wd_handler w))"
    and "fst (ask (ev_clock env 10) (breaker_for (ev_clock env 9) (h_circuit (wd_handler w)) (placement_key d)))"
    and "is_healthy (h_checker (wd_handler w)) (placement_key d)"
    and "unreachable env (request_id env r) r (endpoint_url d)" "undisturbed env"
  shows "let w' = snd (serve_http env r w) in wr_status (wd_writer w') = Some 502
    \<and> st_get (cm_breakers (h_circuit (wd_handler w'))) (placement_key d) =
        Some (failure (ev_clock env 40) (snd (ask (ev_clock env 10)
          (breaker_for (ev_clock env 9) (h_circuit (wd_handler w)) (placement_key d)))))"
proof -
  let ?pk = "placement_key d" and ?cm = "h_circuit (wd_handler w)" and ?w = "holding (placement_key d) w"
  let ?rid = "request_id env r" and ?key = "header_get (rq_header r) ''X-Routing-Key''"
  obtain b cm1 where g: "get_breaker (ev_clock env 9) ?pk ?cm = (b, cm1)" by fastforce
  note f = get_breaker_facts [OF assms(5) g]
  define w1 where "w1 = ?w\<lparr>wd_handler := (wd_handler ?w)\<lparr>h_circuit := cm1\<rparr>\<rparr>"
  have br: "breaker_at b (wd_handler w1) = breaker_for (ev_clock env 9) ?cm ?pk" and cm1: "h_circuit (wd_handler w1) = cm1"
    by (simp_all add: w1_def breaker_at_def f(3))
  define asked where "asked = snd (ask (ev_clock env 10) (breaker_for (ev_clock env 9) ?cm ?pk))"
  obtain ls where c: "circuit_stage env ?rid r ?key b (first_target d) w1 = (Ret (Some (first_target d)),
      w1\<lparr>wd_handler := (wd_handler w1)\<lparr>h_circuit := write_breaker b asked cm1\<rparr>, wd_logs := wd_logs w1 @ ls\<rparr>)"
    (is "_ = (_, ?w2)")
    using circuit_stage_passes [of env b w1 ?rid r ?key "first_target d"] assms(6) unfolding br cm1 asked_def by blast
  obtain ls' where h: "health_stage env ?rid (first_target d) ?w2 = (Ret (first_target d), ?w2\<lparr>wd_logs := wd_logs ?w2 @ ls'\<rparr>)"
    using health_stage_passes [of ?w2 "first_target d" env ?rid] assms(7) by (auto simp: w1_def)
  let ?w3 = "?w2\<lparr>wd_logs := wd_logs ?w2 @ ls'\<rparr>"
  have un: "unanswered ?w3" using assms(4) by (simp add: unanswered_def w1_def)
  obtain w4 where p: "proxy_stage env ?rid r ?key b (first_target d) ?w3 = (Ret (), w4)" "wr_status (wd_writer w4) = Some 502"
    "h_circuit (wd_handler w4) = write_breaker b (failure (ev_clock env 40) (breaker_at b (wd_handler ?w3))) (h_circuit (wd_handler ?w3))"
    using proxy_stage_unreachable [OF _ assms(9) un, of ?rid r "first_target d" ?key b] assms(8) by auto
  have fits: "body_fits ?w r (tg_placement (first_target d))" using assms(3) by (simp add: body_fits_def)
  have find: "find_breaker (ev_clock env 9) ?pk ?w = (Ret b, w1)"
    unfolding w1_def by (rule find_breaker_result) (simp add: g)
  have st: "staged env r d w = (Ret (), w4)"
    using find c h p(1) by (simp add: guarded_stages_fits [OF fits] seq_def)
  have len: "b < length (cells (cm_breakers cm1))" using f(1,2) by (simp add: manager_inv_def st_wf_def)
  have "h_circuit (wd_handler w4) = write_breaker b (failure (ev_clock env 40) asked) cm1"
    using p(3) len by (simp add: breaker_at_def write_breaker_def st_write_def)
  then show ?thesis
    using serve_result [OF assms(1,2) st] p(2) write_breaker_get [OF f(1,2)] by (simp add: Let_def asked_def)
qed

theorem unreachable_is_502_witness:
  "let w' = snd (serve_http ((sample_proxy_env 200)\<lparr>ev_net := \<lambda>_. Send_Error ''refused''\<rparr>)
       (sample_request ''visa'' 0) (sample_world 0)) in wr_status (wd_writer w') = Some 502
    \<and> map_option br_failures (st_get (cm_breakers (h_circuit (wd_handler w'))) ''visa'') = Some 1"
proof -
  let ?env = "(sample_proxy_env 200)\<lparr>ev_net := \<lambda>_. Send_Error ''refused''\<rparr>"
  have r: "routed ?env (sample_request ''visa'' 0) sample_visa"
    using sample_routed [of 200 0] by (simp add: routed_def)
  have u: "unreachable ?env rid (sample_request ''visa'' 0) (endpoint_url sample_visa)" for rid
    by (simp add: unreachable_def split: sum.split)
  have o: "undisturbed ?env" by (simp add: undisturbed_def sample_proxy_env_def)
  have h: "is_healthy (h_checker (wd_handler (sample_world 0))) (placement_key sample_visa)"
    by (simp add: is_healthy_def new_checker_def)
  from unreachable_is_502 [OF r sample_has_slot _ _ _ _ h u o] show ?thesis
    by (simp add: Let_def) (simp add: breaker_defs new_breaker_def default_breaker_config_def)
qed

end
