(* ===== verification/Startup.thy ===== *)
theory Startup
  imports Requests
begin

text \<open>
  \<open>NewHandler\<close> and \<open>configureResilienceMechanisms\<close> of \<open>internal/proxy/handler.go\<close>: what the
  managers of a new handler hold, for every order in which the loop visits the endpoints.
\<close>

section \<open>Limits\<close>

text \<open>The limits a placement asks for, if any.\<close>

definition wanted_limits :: "config \<Rightarrow> string \<Rightarrow> limits_config option" where
  "wanted_limits cfg pk = (case get_placement_config cfg pk of
     (Some p, True) \<Rightarrow> if 0 < pl_concurrency_limit p \<or> 0 < pl_max_request_body_bytes p
       then Some \<lparr>max_concurrent_requests = pl_concurrency_limit p, max_request_body_bytes = pl_max_request_body_bytes p\<rparr>
       else None
   | _ \<Rightarrow> None)"

lemma configure_health_keeps [simp]:
  "h_limits (configure_health p pk url h) = h_limits h" "h_circuit (configure_health p pk url h) = h_circuit h"
  "h_config (configure_health p pk url h) = h_config h"
  by (simp_all add: configure_health_def split: option.split sum.split)

lemma configure_limits_cases:
  assumes "get_placement_config cfg pk = (Some p, True)"
  shows "\<exists>lm. configure_limits p pk h = Ret (h\<lparr>h_limits := lm\<rparr>) \<and>
    (case wanted_limits cfg pk of None \<Rightarrow> lm = h_limits h | Some l \<Rightarrow> set_config pk l (h_limits h) = Ret lm)"
proof (cases "0 < pl_concurrency_limit p \<or> 0 < pl_max_request_body_bytes p")
  case True
  with assms have w: "wanted_limits cfg pk = Some \<lparr>max_concurrent_requests = pl_concurrency_limit p,
      max_request_body_bytes = pl_max_request_body_bytes p\<rparr>" by (simp add: wanted_limits_def)
  obtain lm where "set_config pk \<lparr>max_concurrent_requests = pl_concurrency_limit p,
      max_request_body_bytes = pl_max_request_body_bytes p\<rparr> (h_limits h) = Ret lm"
    using set_config_total by blast
  with True w show ?thesis by (simp add: configure_limits_def)
next
  case False
  then have "configure_limits p pk h = Ret (h\<lparr>h_limits := h_limits h\<rparr>)" by (auto simp: configure_limits_def)
  with False assms show ?thesis by (auto simp: wanted_limits_def)
qed

definition limit_of :: "limits_config \<Rightarrow> nat option" where
  "limit_of l = (if 0 < max_concurrent_requests l then Some (nat (max_concurrent_requests l)) else None)"

text \<open>\<open>lm'\<close> is \<open>lm\<close> with the limits of the placements \<open>ks\<close> set, their slots all free.\<close>

definition limits_at :: "limits_config option \<Rightarrow> limits_manager \<Rightarrow> limits_manager \<Rightarrow> string \<Rightarrow> bool" where
  "limits_at wanted lm lm' pk \<longleftrightarrow> (case wanted of
       None \<Rightarrow> get_config lm' pk = get_config lm pk \<and> slot_limit lm' pk = slot_limit lm pk
         \<and> slots_in_use lm' pk = slots_in_use lm pk
     | Some l \<Rightarrow> get_config lm' pk = Some l \<and> slot_limit lm' pk = limit_of l \<and> slots_in_use lm' pk = 0)"

definition limits_set :: "config \<Rightarrow> string set \<Rightarrow> limits_manager \<Rightarrow> limits_manager \<Rightarrow> bool" where
  "limits_set cfg ks lm lm' \<longleftrightarrow> limits_inv lm'
     \<and> (\<forall>pk. limits_at (if pk \<in> ks then wanted_limits cfg pk else None) lm lm' pk)"

lemma limits_set_insert:
  assumes "limits_inv lm" "pk \<notin> ks" "limits_set cfg ks lm1 lm'"
    and "case wanted_limits cfg pk of None \<Rightarrow> lm1 = lm | Some l \<Rightarrow> set_config pk l lm = Ret lm1"
  shows "limits_set cfg (insert pk ks) lm lm'"
proof -
  have at: "limits_at (if q \<in> ks then wanted_limits cfg q else None) lm1 lm' q" for q
    using assms(3) by (simp add: limits_set_def)
  have "limits_at (if q = pk then wanted_limits cfg pk else None) lm lm1 q" for q
  proof (cases "wanted_limits cfg pk")
    case (Some l)
    with assms(4) have s: "set_config pk l lm = Ret lm1" by simp
    show ?thesis
      using Some set_config_get [OF s] set_config_limit [OF s assms(1)] set_config_in_use [OF s assms(1)]
      by (simp add: limits_at_def limit_of_def)
  qed (use assms(4) in \<open>simp add: limits_at_def\<close>)
  with at have "limits_at (if q \<in> insert pk ks then wanted_limits cfg q else None) lm lm' q" for q
  proof (cases "q = pk")
    case True
    with at [of q] \<open>limits_at (if q = pk then wanted_limits cfg pk else None) lm lm1 q\<close> assms(2)
    show ?thesis by (cases "wanted_limits cfg pk") (simp_all add: limits_at_def)
  next
    case False
    with at [of q] \<open>limits_at (if q = pk then wanted_limits cfg pk else None) lm lm1 q\<close>
    show ?thesis by (cases "q \<in> ks"; cases "wanted_limits cfg q") (simp_all add: limits_at_def)
  qed
  with assms(3) show ?thesis by (simp add: limits_set_def)
qed

lemma limits_of_endpoints:
  assumes "limits_inv (h_limits h)" "distinct (map fst es)"
  shows "\<exists>h'. configure_endpoints cfg es h = Ret h' \<and> h_circuit h' = h_circuit h \<and> h_config h' = h_config h
    \<and> limits_set cfg (fst ` set es) (h_limits h) (h_limits h')"
  using assms
proof (induction es arbitrary: h)
  case Nil
  then show ?case by (simp add: limits_set_def limits_at_def)
next
  case (Cons e es)
  obtain pk url where e: "e = (pk, url)" by fastforce
  have pk: "pk \<notin> fst ` set es" using Cons.prems(2) e by simp
  show ?case
  proof (cases "\<exists>p. get_placement_config cfg pk = (Some p, True)")
    case True
    then obtain p where p: "get_placement_config cfg pk = (Some p, True)" by blast
    let ?h = "configure_health p pk url h"
    obtain lm where lm: "configure_limits p pk ?h = Ret (?h\<lparr>h_limits := lm\<rparr>)"
      "case wanted_limits cfg pk of None \<Rightarrow> lm = h_limits h | Some l \<Rightarrow> set_config pk l (h_limits h) = Ret lm"
      using configure_limits_cases [OF p, of ?h] unfolding configure_health_keeps by blast
    have inv: "limits_inv (h_limits (?h\<lparr>h_limits := lm\<rparr>))"
      using lm(2) Cons.prems(1) set_config_inv by (auto split: option.splits)
    obtain h' where h': "configure_endpoints cfg es (?h\<lparr>h_limits := lm\<rparr>) = Ret h'" "h_circuit h' = h_circuit h"
      "h_config h' = h_config h" "limits_set cfg (fst ` set es) lm (h_limits h')"
      using Cons.IH [OF inv] Cons.prems(2) by auto
    with p lm(1) e limits_set_insert [OF Cons.prems(1) pk h'(4) lm(2)] show ?thesis by simp
  next
    case False
    then have w: "wanted_limits cfg pk = None" and
      step: "configure_endpoints cfg (e # es) h
        = configure_endpoints cfg es (h\<lparr>h_checker := register_endpoint pk url (h_checker h)\<rparr>)"
      by (auto simp: wanted_limits_def e split: option.splits bool.splits prod.splits)
    obtain h' where h': "configure_endpoints cfg (e # es) h = Ret h'" "h_circuit h' = h_circuit h"
      "h_config h' = h_config h" "limits_set cfg (fst ` set es) (h_limits h) (h_limits h')"
      using Cons.IH [of "h\<lparr>h_checker := register_endpoint pk url (h_checker h)\<rparr>"] Cons.prems step by auto
    with w e limits_set_insert [OF Cons.prems(1) pk h'(4)] show ?thesis by simp
  qed
qed

lemma limits_inv_new: "limits_inv new_limits_manager"
  by (simp add: limits_inv_def new_limits_manager_def) (simp add: st_empty_def)

lemma new_handler_facts:
  assumes "validate cfg = Ret None" "config_wf cfg"
  shows "\<exists>h. new_handler cfg = Ret h \<and> limits_inv (h_limits h)
    \<and> (\<forall>pk. get_config (h_limits h) pk = (if endpoint_of cfg pk = None then None else wanted_limits cfg pk))
    \<and> (\<forall>pk. slot_limit (h_limits h) pk = Option.bind (get_config (h_limits h) pk) limit_of \<and> slots_in_use (h_limits h) pk = 0)
    \<and> (\<forall>clk pk. br_config (breaker_for clk (h_circuit h) pk) = \<lparr>failure_threshold = 5, open_timeout = 30 * second\<rparr>)"
proof -
  obtain eps where eps: "get_cell_endpoints cfg = Ret eps" using assms(1) by (auto simp: validate_Ret_None)
  let ?h0 = "\<lparr>h_config = cfg, h_checker = new_checker default_check_config, h_orphans = [],
      h_circuit = new_circuit_manager default_breaker_config, h_limits = new_limits_manager\<rparr>"
  have "distinct (map fst (entries eps))" using get_cell_endpoints_wf [OF eps assms(2)] by (simp add: gomap_wf_def)
  then obtain h where h: "configure_endpoints cfg (entries eps) ?h0 = Ret h" "h_circuit h = new_circuit_manager default_breaker_config"
    "limits_set cfg (fst ` set (entries eps)) new_limits_manager (h_limits h)"
    using limits_of_endpoints [of ?h0 "entries eps" cfg] limits_inv_new by auto
  have ks: "pk \<in> fst ` set (entries eps) \<longleftrightarrow> endpoint_of cfg pk \<noteq> None" for pk
    using endpoint_keys [OF eps assms(2)] by (auto simp: keys_def)
  have new: "get_config new_limits_manager pk = None" "slot_limit new_limits_manager pk = None"
    "slots_in_use new_limits_manager pk = 0" for pk
    by (simp_all add: new_limits_manager_def get_config_def slot_limit_def slots_in_use_def)
  have "get_config (h_limits h) pk = (if endpoint_of cfg pk = None then None else wanted_limits cfg pk)
      \<and> slot_limit (h_limits h) pk = Option.bind (get_config (h_limits h) pk) limit_of
      \<and> slots_in_use (h_limits h) pk = 0" for pk
  proof -
    have "limits_at (if endpoint_of cfg pk \<noteq> None then wanted_limits cfg pk else None) new_limits_manager (h_limits h) pk"
      using h(3) unfolding limits_set_def ks by blast
    then show ?thesis
      by (cases "endpoint_of cfg pk"; cases "wanted_limits cfg pk") (simp_all add: limits_at_def new)
  qed
  moreover have "new_handler cfg = Ret h" using eps h(1) by (simp add: new_handler_def configure_resilience_def)
  moreover have "br_config (breaker_for clk (h_circuit h) pk) = \<lparr>failure_threshold = 5, open_timeout = 30 * second\<rparr>" for clk pk
    by (simp add: h(2) breaker_for_def new_circuit_manager_def default_breaker_config_def)
  moreover have "limits_inv (h_limits h)" using h(3) by (simp add: limits_set_def)
  ultimately show ?thesis by blast
qed

lemma new_handler_config:
  assumes "validate cfg = Ret None" "config_wf cfg"
  shows "\<exists>h. new_handler cfg = Ret h \<and> h_config h = cfg"
proof -
  obtain eps where eps: "get_cell_endpoints cfg = Ret eps" using assms(1) by (auto simp: validate_Ret_None)
  have "distinct (map fst (entries eps))" using get_cell_endpoints_wf [OF eps assms(2)] by (simp add: gomap_wf_def)
  with eps limits_of_endpoints [of "\<lparr>h_config = cfg, h_checker = new_checker default_check_config, h_orphans = [],
      h_circuit = new_circuit_manager default_breaker_config, h_limits = new_limits_manager\<rparr>" "entries eps" cfg]
  show ?thesis using limits_inv_new by (auto simp: new_handler_def configure_resilience_def)
qed

text \<open>
  Property C39. A new handler of a validated configuration enforces exactly the limits its
  placements ask for, with every slot free; but every breaker it makes has the fixed threshold 5 and timeout
  30s, whatever the \<open>circuit_breaker\<close> settings of the placements say.
\<close>

theorem new_handler_limits:
  assumes "validate cfg = Ret None" "config_wf cfg"
  shows "\<exists>h. new_handler cfg = Ret h \<and> limits_inv (h_limits h)
    \<and> (\<forall>pk. get_config (h_limits h) pk = (if endpoint_of cfg pk = None then None else wanted_limits cfg pk))
    \<and> (\<forall>pk. slot_limit (h_limits h) pk = Option.bind (get_config (h_limits h) pk) limit_of \<and> slots_in_use (h_limits h) pk = 0)
    \<and> (\<forall>clk pk. br_config (breaker_for clk (h_circuit h) pk) = \<lparr>failure_threshold = 5, open_timeout = 30 * second\<rparr>)"
  by (rule new_handler_facts [OF assms])

theorem new_handler_limits_witness:
  "\<exists>h. new_handler sample_m4 = Ret h \<and> slot_limit (h_limits h) ''visa'' = Some 50
    \<and> br_config (breaker_for (\<lambda>_. 1) (h_circuit h) ''visa'') = \<lparr>failure_threshold = 5, open_timeout = 30 * second\<rparr>"
proof -
  have w: "wanted_limits sample_m4 ''visa'' = Some \<lparr>max_concurrent_requests = 50, max_request_body_bytes = 1000\<rparr>"
    and e: "endpoint_of sample_m4 ''visa'' \<noteq> None"
    by (simp_all add: wanted_limits_def get_placement_config_def endpoint_of_def sample_m4_def sample_placement_def)
  obtain h where "new_handler sample_m4 = Ret h"
    "get_config (h_limits h) ''visa'' = Some \<lparr>max_concurrent_requests = 50, max_request_body_bytes = 1000\<rparr>"
    "slot_limit (h_limits h) ''visa'' = Option.bind (get_config (h_limits h) ''visa'') limit_of"
    "br_config (breaker_for (\<lambda>_. 1) (h_circuit h) ''visa'') = \<lparr>failure_threshold = 5, open_timeout = 30 * second\<rparr>"
    using new_handler_limits [of sample_m4] w e by auto
  then show ?thesis by (auto simp: limit_of_def)
qed

section \<open>Health checks\<close>

text \<open>An endpoint whose placement brings health check settings that parse.\<close>

definition own_check :: "config \<Rightarrow> string \<Rightarrow> parsed_health_check_config \<Rightarrow> bool" where
  "own_check cfg pk phc \<longleftrightarrow> (\<exists>p hc. get_placement_config cfg pk = (Some p, True)
     \<and> pl_health_check p = Some hc \<and> parse_health_check hc = Inr phc)"

lemma configure_endpoints_append:
  "configure_endpoints cfg (xs @ ys) h = obind (configure_endpoints cfg xs h) (configure_endpoints cfg ys)"
proof (induction xs arbitrary: h)
  case (Cons x xs)
  obtain pk url where x: "x = (pk, url)" by fastforce
  show ?case
  proof (cases "\<exists>p. get_placement_config cfg pk = (Some p, True)")
    case True
    then obtain p where p: "get_placement_config cfg pk = (Some p, True)" by blast
    then show ?thesis
      using Cons by (cases "configure_limits p pk (configure_health p pk url h)") (simp_all add: x)
  next
    case False
    then show ?thesis using Cons by (auto simp: x split: option.splits bool.splits prod.splits)
  qed
qed simp

lemma configure_last:
  assumes "own_check cfg pk phc" "configure_endpoints cfg [(pk, url)] h = Ret h'"
  shows "h_checker h' = register_endpoint pk url
      (new_checker \<lparr>ck_path = phc_path phc, ck_interval = phc_interval phc, ck_timeout = phc_timeout phc\<rparr>)
    \<and> h_orphans h' = h_checker h # h_orphans h"
  using assms by (auto simp: own_check_def configure_health_def configure_limits_def split: if_splits)

definition run_checks :: "(clock \<times> check_env \<times> string \<times> nat) list \<Rightarrow> checker \<Rightarrow> checker" where
  "run_checks cs c = fold (\<lambda>(clk, env, pk, i) c. fst (perform_check clk env pk i c)) cs c"

lemma run_checks_refs [simp]: "st_ref (ck_endpoints (run_checks cs c)) = st_ref (ck_endpoints c)"
proof (induction cs arbitrary: c)
  case (Cons x cs)
  then show ?case by (cases x) (simp add: run_checks_def fst_perform_check)
qed (simp add: run_checks_def)

text \<open>
  Property C40. When the endpoint visited last has health check settings of its own, the
  handler is left with a checker for this endpoint alone: every other placement counts as healthy
  whatever the checks find, and the checker used before it runs on, out of reach of \<open>Stop\<close>.
\<close>

theorem last_health_check_wins:
  assumes "get_cell_endpoints cfg = Ret eps" "entries eps = es @ [(pk, url)]" "own_check cfg pk phc"
    and "new_handler cfg = Ret h" "q \<noteq> pk"
  shows "is_healthy (run_checks cs (h_checker h)) q \<and> st_ref (ck_endpoints (h_checker h)) pk \<noteq> None
    \<and> (\<exists>h1 h'. configure_endpoints cfg es \<lparr>h_config = cfg, h_checker = new_checker default_check_config, h_orphans = [],
            h_circuit = new_circuit_manager default_breaker_config, h_limits = new_limits_manager\<rparr> = Ret h1
         \<and> stop_handler h = Ret h' \<and> h_orphans h' = h_checker h1 # h_orphans h1)"
proof -
  let ?h0 = "\<lparr>h_config = cfg, h_checker = new_checker default_check_config, h_orphans = [],
      h_circuit = new_circuit_manager default_breaker_config, h_limits = new_limits_manager\<rparr>"
  obtain h1 where h1: "configure_endpoints cfg es ?h0 = Ret h1" "configure_endpoints cfg [(pk, url)] h1 = Ret h"
    using assms(1,2,4) by (auto simp: new_handler_def configure_resilience_def configure_endpoints_append)
  note last = configure_last [OF assms(3) h1(2)]
  have "st_ref (ck_endpoints (h_checker h)) q = None" "st_ref (ck_endpoints (h_checker h)) pk \<noteq> None"
    using last assms(5) by (simp_all add: register_endpoint_def new_checker_def st_ref_bind)
  moreover have "\<not> ck_stopped (h_checker h)" using last by (simp add: register_endpoint_def new_checker_def)
  ultimately show ?thesis
    using h1(1) last by (simp add: is_healthy_def st_get_def stop_handler_def stop_checker_def)
qed

lemma sample_m4_endpoints:
  "get_cell_endpoints sample_m4 = Ret (Some [(''tier1'', ''http://cell-tier1:9001''),
     (''tier3'', ''http://cell-tier3:9003''), (''visa'', ''http://cell-visa:9004'')])"
  by (simp add: get_cell_endpoints_def sample_m4_def sample_placement_def)

lemma sample_own_check:
  "own_check sample_m4 ''visa'' \<lparr>phc_path = ''/health'', phc_interval = 10 * second, phc_timeout = 2 * second\<rparr>"
  by (simp add: own_check_def get_placement_config_def sample_m4_def sample_placement_def sample_health_def
      parse_health_check_def duration_eval)

theorem last_health_check_wins_witness:
  "\<exists>h. new_handler sample_m4 = Ret h \<and> is_healthy (run_checks
     [(\<lambda>_. 5, \<lparr>http_get = \<lambda>_. Inr 500, url_error_text = \<lambda>_. []\<rparr>, ''tier1'', 0)] (h_checker h)) ''tier1''"
proof -
  obtain h where h: "new_handler sample_m4 = Ret h" using new_handler_facts [of sample_m4] by auto
  have "entries (Some [(''tier1'', ''http://cell-tier1:9001''), (''tier3'', ''http://cell-tier3:9003''),
      (''visa'', ''http://cell-visa:9004'')]) = [(''tier1'', ''http://cell-tier1:9001''),
      (''tier3'', ''http://cell-tier3:9003'')] @ [(''visa'', ''http://cell-visa:9004'')]" by simp
  from last_health_check_wins [OF sample_m4_endpoints this sample_own_check h, of "''tier1''"] h
  show ?thesis by auto
qed

text \<open>The checkers that a handler has made and nobody has stopped.\<close>

definition checkers_running :: "handler \<Rightarrow> bool" where
  "checkers_running h \<longleftrightarrow> (\<forall>c\<in>insert (h_checker h) (set (h_orphans h)). \<not> ck_stopped c)"

lemma register_stopped [simp]: "ck_stopped (register_endpoint pk url c) = ck_stopped c"
  by (simp add: register_endpoint_def split: option.split)

lemma configure_health_running: "checkers_running h \<Longrightarrow> checkers_running (configure_health p pk url h)"
  by (auto simp: configure_health_def checkers_running_def new_checker_def split: option.split sum.split)

lemma configure_limits_running: "configure_limits p pk h = Ret h' \<Longrightarrow> checkers_running h' = checkers_running h"
  by (cases "set_config pk \<lparr>max_concurrent_requests = pl_concurrency_limit p,
      max_request_body_bytes = pl_max_request_body_bytes p\<rparr> (h_limits h)")
    (auto simp: configure_limits_def checkers_running_def split: if_splits)

lemma configure_endpoints_running:
  "configure_endpoints cfg es h = Ret h' \<Longrightarrow> checkers_running h \<Longrightarrow> checkers_running h'"
proof (induction es arbitrary: h)
  case (Cons e es)
  obtain pk url where e: "e = (pk, url)" by fastforce
  obtain q found where q: "get_placement_config cfg pk = (q, found)" by fastforce
  have r: "checkers_running (h\<lparr>h_checker := register_endpoint pk url (h_checker h)\<rparr>)"
    using Cons.prems(2) by (simp add: checkers_running_def)
  show ?case
  proof (cases "found \<and> q \<noteq> None")
    case True
    then obtain p where p: "q = Some p" by blast
    with Cons.prems(1) e q True obtain h1 where h1: "configure_limits p pk (configure_health p pk url h) = Ret h1"
      "configure_endpoints cfg es h1 = Ret h'" by auto
    have "checkers_running h1"
      using configure_limits_running [OF h1(1)] configure_health_running [OF Cons.prems(2)] by simp
    with Cons.IH [OF h1(2)] show ?thesis .
  next
    case False
    with Cons.prems(1) e q have "configure_endpoints cfg es (h\<lparr>h_checker := register_endpoint pk url (h_checker h)\<rparr>) = Ret h'"
      by (cases q) auto
    from Cons.IH [OF this r] show ?thesis .
  qed
qed simp

lemma new_handler_running: "new_handler cfg = Ret h \<Longrightarrow> checkers_running h"
  by (auto simp: new_handler_def configure_resilience_def dest!: configure_endpoints_running)
    (simp_all add: checkers_running_def new_checker_def)

text \<open>
  Validation accepts a health check interval of zero or less, and the goroutine
  that \<open>NewHandler\<close> starts for its endpoint then panics, which ends the process.
\<close>

theorem non_positive_interval_crashes:
  assumes "get_cell_endpoints cfg = Ret eps" "entries eps = es @ [(pk, url)]" "own_check cfg pk phc"
    and "phc_interval phc \<le> 0" "new_handler cfg = Ret h"
  shows "\<exists>i. (pk, i) \<in> set (ck_loops (h_checker h))
    \<and> check_loop_start clk env pk i (h_checker h) = Panic Non_Positive_Ticker"
proof -
  obtain h1 where "configure_endpoints cfg [(pk, url)] h1 = Ret h"
    using assms(1,2,5) by (auto simp: new_handler_def configure_resilience_def configure_endpoints_append)
  from configure_last [OF assms(3) this] assms(4) show ?thesis
    by (auto simp: register_endpoint_def new_checker_def check_loop_start_def)
qed

definition sample_zero_interval :: config where
  "sample_zero_interval = \<lparr>version = ''1'', routing_table = None, cell_endpoints = None,
     placements = Some [(''tier3'', Some \<lparr>pl_url = ''http://cell-tier3:9003'', pl_fallback = [],
       pl_health_check = Some \<lparr>hc_path = ''/health'', hc_interval = ''0s'', hc_timeout = ''2s''\<rparr>,
       pl_circuit_breaker = None, pl_concurrency_limit = 0, pl_max_request_body_bytes = 0\<rparr>)],
     default_placement = ''tier3''\<rparr>"

theorem non_positive_interval_crashes_witness:
  "validate sample_zero_interval = Ret None \<and> (\<exists>h i. new_handler sample_zero_interval = Ret h
    \<and> check_loop_start (\<lambda>_. 1) sample_env ''tier3'' i (h_checker h) = Panic Non_Positive_Ticker)"
proof -
  have valid: "validate sample_zero_interval = Ret None"
    by (simp add: validate_def sample_zero_interval_def get_cell_endpoints_def validate_placement_def
        parse_health_check_def duration_eval url_eval)
  have "config_wf sample_zero_interval" by (simp add: sample_zero_interval_def config_wf_def)
  then obtain h where h: "new_handler sample_zero_interval = Ret h" using new_handler_facts [OF valid] by blast
  have eps: "get_cell_endpoints sample_zero_interval = Ret (Some [(''tier3'', ''http://cell-tier3:9003'')])"
    by (simp add: sample_zero_interval_def get_cell_endpoints_def)
  have split: "entries (Some [(''tier3'', ''http://cell-tier3:9003'')]) = [] @ [(''tier3'', ''http://cell-tier3:9003'')]" by simp
  have own: "own_check sample_zero_interval ''tier3'' \<lparr>phc_path = ''/health'', phc_interval = 0, phc_timeout = 2 * second\<rparr>"
    by (simp add: own_check_def get_placement_config_def sample_zero_interval_def parse_health_check_def duration_eval)
  show ?thesis
    using non_positive_interval_crashes [OF eps split own _ h] valid h by auto
qed

end
