(* ===== verification/Json_Text.thy ===== *)
theory Json_Text
  imports Go_Std
begin

text \<open>
  The text syntax of \<open>encoding/json\<close> (Go 1.22), for files and messages alike: \<open>parse_json\<close> is what
  \<open>json.Unmarshal\<close> makes of the bytes before it fills a struct, \<open>print_json\<close> what \<open>json.Marshal\<close> writes.
  A text is cut into tokens, the tokens are read by a stack machine as the scanner of the package does, with
  its limit on the nesting. Strings are bytes: invalid UTF-8 is replaced by U+FFFD in both directions.
\<close>

datatype json = JNull | JBool bool | JNum string | JStr string | JArr "json list" | JObj "(string \<times> json) list"

section \<open>UTF-8\<close>

definition is_cont :: "char \<Rightarrow> bool" where
  "is_cont c \<longleftrightarrow> 0x80 \<le> byte_of c \<and> byte_of c \<le> 0xBF"

text \<open>
  \<open>utf8.DecodeRune\<close>: the first byte gives the length of an encoding and the range of its second byte;
  \<open>rune_len\<close> is the length of the valid encoding a string begins with, or 0.
\<close>

definition lead_len :: "char \<Rightarrow> nat" where
  "lead_len a = (let x = byte_of a in
     if x < 0x80 then 1 else if 0xC2 \<le> x \<and> x \<le> 0xDF then 2 else if 0xE0 \<le> x \<and> x \<le> 0xEF then 3
     else if 0xF0 \<le> x \<and> x \<le> 0xF4 then 4 else 0)"

definition second_ok :: "char \<Rightarrow> char \<Rightarrow> bool" where
  "second_ok a b \<longleftrightarrow> (let x = byte_of a in
     (if x = 0xE0 then 0xA0 else if x = 0xF0 then 0x90 else 0x80) \<le> byte_of b
     \<and> byte_of b \<le> (if x = 0xED then 0x9F else if x = 0xF4 then 0x8F else 0xBF))"

definition tail_ok :: "char \<Rightarrow> string \<Rightarrow> bool" where
  "tail_ok a bs \<longleftrightarrow> length bs = lead_len a - 1
     \<and> (case bs of [] \<Rightarrow> True | b # cs \<Rightarrow> second_ok a b \<and> list_all is_cont cs)"

fun rune_len :: "string \<Rightarrow> nat" where
  "rune_len [] = 0"
| "rune_len (a # cs) = (if 0 < lead_len a \<and> tail_ok a (take (lead_len a - 1) cs) then lead_len a else 0)"

lemma rune_len_le: "rune_len s \<le> length s"
proof (cases s)
  case (Cons a cs)
  have "tail_ok a (take (lead_len a - 1) cs) \<Longrightarrow> 0 < lead_len a \<Longrightarrow> lead_len a \<le> Suc (length cs)"
    by (auto simp: tail_ok_def)
  with Cons show ?thesis by simp
qed simp

function utf8_valid :: "string \<Rightarrow> bool" where
  "utf8_valid [] = True"
| "utf8_valid (c # cs) =
     (if rune_len (c # cs) = 0 then False else utf8_valid (drop (rune_len (c # cs)) (c # cs)))"
  by pat_completeness auto
termination
  by (relation "measure length") (auto simp del: rune_len.simps)

text \<open>\<open>utf8.EncodeRune\<close>; a rune that is no code point is the replacement character.\<close>

definition rune_error :: string where
  "rune_error = [CHR 0xEF, CHR 0xBF, CHR 0xBD]"

definition is_surrogate :: "nat \<Rightarrow> bool" where
  "is_surrogate r \<longleftrightarrow> 0xD800 \<le> r \<and> r < 0xE000"

definition encode_rune :: "nat \<Rightarrow> string" where
  "encode_rune r =
     (if r < 0x80 then [char_of r]
      else if r < 0x800 then [char_of (0xC0 + r div 64), char_of (0x80 + r mod 64)]
      else if 0x10FFFF < r \<or> is_surrogate r then rune_error
      else if r < 0x10000 then [char_of (0xE0 + r div 4096), char_of (0x80 + r div 64 mod 64), char_of (0x80 + r mod 64)]
      else [char_of (0xF0 + r div 262144), char_of (0x80 + r div 4096 mod 64), char_of (0x80 + r div 64 mod 64),
        char_of (0x80 + r mod 64)])"

lemma rune_len_2:
  fixes a b :: nat
  assumes "2 \<le> a" "a < 32" "b < 64"
  shows "rune_len (char_of (0xC0 + a) # char_of (0x80 + b) # s) = 2"
proof -
  have "byte_of (char_of (0xC0 + a)) = 0xC0 + a" "byte_of (char_of (0x80 + b)) = 0x80 + b"
    using assms by simp_all
  with assms show ?thesis
    by (auto simp: lead_len_def second_ok_def tail_ok_def is_cont_def Let_def simp del: of_char_of)
qed

lemma rune_len_3:
  fixes a b c :: nat
  assumes "a < 16" "b < 64" "c < 64" "a = 0 \<longrightarrow> 32 \<le> b" "a = 13 \<longrightarrow> b < 32"
  shows "rune_len (char_of (0xE0 + a) # char_of (0x80 + b) # char_of (0x80 + c) # s) = 3"
proof -
  have "byte_of (char_of (0xE0 + a)) = 0xE0 + a" "byte_of (char_of (0x80 + b)) = 0x80 + b"
    "byte_of (char_of (0x80 + c)) = 0x80 + c"
    using assms by simp_all
  with assms show ?thesis
    by (auto simp: lead_len_def second_ok_def tail_ok_def is_cont_def Let_def simp del: of_char_of)
qed

lemma rune_len_4:
  fixes a b c d :: nat
  assumes "a < 5" "b < 64" "c < 64" "d < 64" "a = 0 \<longrightarrow> 16 \<le> b" "a = 4 \<longrightarrow> b < 16"
  shows "rune_len (char_of (0xF0 + a) # char_of (0x80 + b) # char_of (0x80 + c) # char_of (0x80 + d) # s) = 4"
proof -
  have "byte_of (char_of (0xF0 + a)) = 0xF0 + a" "byte_of (char_of (0x80 + b)) = 0x80 + b"
    "byte_of (char_of (0x80 + c)) = 0x80 + c" "byte_of (char_of (0x80 + d)) = 0x80 + d"
    using assms by simp_all
  with assms show ?thesis
    by (auto simp: lead_len_def second_ok_def tail_ok_def is_cont_def Let_def simp del: of_char_of)
qed

lemma div_64: "(r :: nat) div 64 div 64 = r div 4096" "(r :: nat) div 4096 div 64 = r div 262144"
  by (simp_all flip: div_mult2_eq)

lemma rune_len_encode: "rune_len (encode_rune r @ s) = length (encode_rune r)"
proof -
  consider "r < 0x80" | "0x80 \<le> r" "r < 0x800" | "0x800 \<le> r" "0x10FFFF < r \<or> is_surrogate r"
    | "0x800 \<le> r" "r < 0x10000" "\<not> is_surrogate r" | "0x10000 \<le> r" "r \<le> 0x10FFFF"
    by (force simp: is_surrogate_def)
  then show ?thesis
  proof cases
    case 2
    then have "2 \<le> r div 64" "r div 64 < 32" by auto
    with 2 rune_len_2 [of "r div 64" "r mod 64" s] show ?thesis by (simp add: encode_rune_def del: rune_len.simps)
  next
    case 4
    define x y where "x = r div 4096" and "y = r div 64 mod 64"
    have "r = 64 * (r div 64) + r mod 64" "r div 64 = 64 * (r div 64 div 64) + r div 64 mod 64" by simp_all
    then have "r = 4096 * x + 64 * y + r mod 64"
      unfolding x_def y_def div_64 by linarith
    then have xy: "r = 4096 * x + 64 * y + r mod 64" "x < 16" "y < 64"
      using 4 by (simp_all add: x_def y_def)
    then have "x = 0 \<longrightarrow> 32 \<le> y" "x = 13 \<longrightarrow> y < 32" using 4 by (auto simp: is_surrogate_def)
    from rune_len_3 [OF xy(2,3) _ this, of "r mod 64" s] 4 show ?thesis
      by (simp add: encode_rune_def x_def y_def del: rune_len.simps)
  next
    case 5
    define x y where "x = r div 262144" and "y = r div 4096 mod 64"
    have "r = 4096 * (r div 4096) + r mod 4096" "r div 4096 = 64 * (r div 4096 div 64) + r div 4096 mod 64" by simp_all
    then have "r = 262144 * x + 4096 * y + r mod 4096"
      unfolding x_def y_def div_64 by linarith
    then have xy: "r = 262144 * x + 4096 * y + r mod 4096" "x < 5" "y < 64"
      using 5 by (simp_all add: x_def y_def)
    have "r mod 4096 < 4096" by simp
    with xy have "x = 0 \<longrightarrow> 16 \<le> y" "x = 4 \<longrightarrow> y < 16" using 5 by auto
    from rune_len_4 [OF xy(2,3) _ _ this, of "r div 64 mod 64" "r mod 64" s] 5 show ?thesis
      by (simp add: encode_rune_def is_surrogate_def x_def y_def del: rune_len.simps)
  qed (simp_all add: encode_rune_def rune_error_def lead_len_def second_ok_def tail_ok_def is_cont_def Let_def)
qed

lemma encode_rune_nonempty [simp]: "encode_rune r \<noteq> []"
  by (simp add: encode_rune_def rune_error_def)

lemma utf8_valid_encode [simp]: "utf8_valid (encode_rune r @ s) = utf8_valid s"
proof -
  obtain c cs where e: "encode_rune r = c # cs" by (cases "encode_rune r") auto
  with rune_len_encode [of r s] show ?thesis by (simp del: rune_len.simps)
qed

section \<open>Strings\<close>

abbreviation backslash :: char where "backslash \<equiv> CHR 0x5C"
abbreviation double_quote :: char where "double_quote \<equiv> CHR 0x22"

text \<open>\<open>json.Marshal\<close> of a string, between the quotes; the characters of HTML are escaped.\<close>

definition quote_byte :: "char \<Rightarrow> string" where
  "quote_byte c =
     (if c = backslash \<or> c = double_quote then [backslash, c]
      else if c = CHR 0x08 then [backslash, CHR ''b''] else if c = CHR 0x0C then [backslash, CHR ''f'']
      else if c = CHR 0x0A then [backslash, CHR ''n''] else if c = CHR 0x0D then [backslash, CHR ''r'']
      else if c = CHR 0x09 then [backslash, CHR ''t'']
      else if byte_of c < 0x20 \<or> c = CHR ''<'' \<or> c = CHR ''>'' \<or> c = CHR ''&''
        then [backslash, CHR ''u'', CHR ''0'', CHR ''0'', hex_digit (byte_of c div 16), hex_digit (byte_of c mod 16)]
      else [c])"

definition line_separators :: "string list" where
  "line_separators = [[CHR 0xE2, CHR 0x80, CHR 0xA8], [CHR 0xE2, CHR 0x80, CHR 0xA9]]"

definition quote_piece :: "char \<Rightarrow> string \<Rightarrow> string \<times> string" where
  "quote_piece c cs =
     (let n = rune_len (c # cs); r = take n (c # cs) in
      if byte_of c < 0x80 then (quote_byte c, cs)
      else if n = 0 then ([backslash, CHR ''u'', CHR ''f'', CHR ''f'', CHR ''f'', CHR ''d''], cs)
      else if r \<in> set line_separators
        then ([backslash, CHR ''u'', CHR ''2'', CHR ''0'', CHR ''2'', hex_digit (byte_of (last r) mod 16)], drop n (c # cs))
      else (r, drop n (c # cs)))"

lemma quote_piece_shorter: "length (snd (quote_piece c cs)) < Suc (length cs)"
  by (simp add: quote_piece_def Let_def del: rune_len.simps)

function quote :: "string \<Rightarrow> string" where
  "quote [] = []"
| "quote (c # cs) = fst (quote_piece c cs) @ quote (snd (quote_piece c cs))"
  by pat_completeness auto
termination
  by (relation "measure length") (auto simp: quote_piece_shorter)

text \<open>The scanner's part: the bytes up to the closing quote, and the rest.\<close>

definition simple_escape :: "char \<Rightarrow> char option" where
  "simple_escape e =
     (if e = double_quote \<or> e = backslash \<or> e = CHR ''/'' then Some e
      else map_of [(CHR ''b'', CHR 0x08), (CHR ''f'', CHR 0x0C), (CHR ''n'', CHR 0x0A), (CHR ''r'', CHR 0x0D),
        (CHR ''t'', CHR 0x09)] e)"

text \<open>The length of what follows a backslash, 0 if that is no escape.\<close>

definition escape_len :: "string \<Rightarrow> nat" where
  "escape_len cs = (case cs of [] \<Rightarrow> 0
     | e # ds \<Rightarrow> if simple_escape e \<noteq> None then 1
         else if e = CHR ''u'' \<and> 4 \<le> length ds \<and> list_all is_hex (take 4 ds) then 5 else 0)"

function lex_string :: "string \<Rightarrow> (string \<times> string) option" where
  "lex_string [] = None"
| "lex_string (c # cs) =
     (if c = double_quote then Some ([], cs)
      else if byte_of c < 0x20 then None
      else if c = backslash then
        (if escape_len cs = 0 then None
         else map_option (\<lambda>(raw, rest). (c # take (escape_len cs) cs @ raw, rest)) (lex_string (drop (escape_len cs) cs)))
      else map_option (\<lambda>(raw, rest). (c # raw, rest)) (lex_string cs))"
  by pat_completeness auto
termination
  by (relation "measure length") auto

text \<open>\<open>unquote\<close>: the value of the bytes between the quotes; \<open>get_u4\<close> reads an escape with four hexadecimal digits.\<close>

fun get_u4 :: "string \<Rightarrow> (nat \<times> string) option" where
  "get_u4 (b # u # w # x # y # z # t) =
     (if b = backslash \<and> u = CHR ''u'' \<and> is_hex w \<and> is_hex x \<and> is_hex y \<and> is_hex z
      then Some (((unhex w * 16 + unhex x) * 16 + unhex y) * 16 + unhex z, t) else None)"
| "get_u4 s = None"

definition decode_pair :: "nat \<Rightarrow> nat \<Rightarrow> nat option" where
  "decode_pair r1 r2 = (if 0xD800 \<le> r1 \<and> r1 < 0xDC00 \<and> 0xDC00 \<le> r2 \<and> r2 < 0xE000
     then Some ((r1 - 0xD800) * 0x400 + (r2 - 0xDC00) + 0x10000) else None)"

definition unquote_piece :: "char \<Rightarrow> string \<Rightarrow> string \<times> string" where
  "unquote_piece c cs =
     (if c = backslash then
        (case get_u4 (c # cs) of
           Some (r, t) \<Rightarrow>
             if is_surrogate r then
               (case Option.bind (get_u4 t) (\<lambda>(r2, t2). map_option (\<lambda>p. (p, t2)) (decode_pair r r2)) of
                  Some (p, t2) \<Rightarrow> (encode_rune p, t2) | None \<Rightarrow> (rune_error, t))
             else (encode_rune r, t)
         | None \<Rightarrow>
             (case cs of [] \<Rightarrow> ([], [])
              | e # ds \<Rightarrow> (case simple_escape e of None \<Rightarrow> ([], ds) | Some x \<Rightarrow> ([x], ds))))
      else if byte_of c < 0x80 then ([c], cs)
      else if rune_len (c # cs) = 0 then (rune_error, cs)
      else (take (rune_len (c # cs)) (c # cs), drop (rune_len (c # cs)) (c # cs)))"

lemma get_u4_shorter: "get_u4 s = Some (r, t) \<Longrightarrow> length t < length s"
  by (induction s rule: get_u4.induct) (auto split: if_splits)

lemma unquote_piece_shorter: "length (snd (unquote_piece c cs)) < Suc (length cs)"
  by (auto simp: unquote_piece_def bind_eq_Some_conv dest!: get_u4_shorter simp del: rune_len.simps
      split: option.split prod.split list.split)

function unquote :: "string \<Rightarrow> string" where
  "unquote [] = []"
| "unquote (c # cs) = fst (unquote_piece c cs) @ unquote (snd (unquote_piece c cs))"
  by pat_completeness auto
termination
  by (relation "measure length") (auto simp: unquote_piece_shorter)

subsection \<open>Quoting is undone by scanning and unquoting\<close>

lemma hex_digit_range: "d < 16 \<Longrightarrow> is_hex (hex_digit d) \<and> unhex (hex_digit d) = d"
  by (simp add: is_hex_def unhex_def is_digit_def hex_digit_def)

lemma rune_bytes:
  assumes "0 < rune_len (c # cs)" "0x80 \<le> byte_of c" "x \<in> set (take (rune_len (c # cs)) (c # cs))"
  shows "0x80 \<le> byte_of x"
proof -
  from assms(1,3) have "x = c \<or> x \<in> set (take (lead_len c - 1) cs)" "tail_ok c (take (lead_len c - 1) cs)"
    by (auto simp: take_Cons' split: if_splits)
  with assms(2) show ?thesis
    by (auto simp: tail_ok_def second_ok_def is_cont_def list_all_iff Let_def split: list.splits if_splits)
qed

lemma rune_len_take:
  assumes "0 < rune_len (c # cs)"
  shows "rune_len (take (rune_len (c # cs)) (c # cs) @ t) = rune_len (c # cs)"
proof -
  from assms have "0 < lead_len c" and ok: "tail_ok c (take (lead_len c - 1) cs)" by (auto split: if_splits)
  moreover from ok have "length (take (lead_len c - 1) cs) = lead_len c - 1" by (simp add: tail_ok_def)
  ultimately show ?thesis by (simp add: take_Cons')
qed

text \<open>The scanner passes over \<open>xs\<close>; unquoting turns \<open>xs\<close> into \<open>ys\<close> and goes on behind it.\<close>

definition scans :: "string \<Rightarrow> bool" where
  "scans xs \<longleftrightarrow> (\<forall>t. lex_string (xs @ t) = map_option (\<lambda>(raw, rest). (xs @ raw, rest)) (lex_string t))"

definition unquotes :: "string \<Rightarrow> string \<Rightarrow> bool" where
  "unquotes xs ys \<longleftrightarrow> (\<forall>t. unquote (xs @ t) = ys @ unquote t)"

lemma scans_Nil [simp]: "scans []"
  by (simp add: scans_def option.map_id)

lemma scans_append: "scans xs \<Longrightarrow> scans ys \<Longrightarrow> scans (xs @ ys)"
  by (simp add: scans_def option.map_comp comp_def case_prod_unfold)

lemma scans_plain: "c \<noteq> double_quote \<Longrightarrow> c \<noteq> backslash \<Longrightarrow> \<not> byte_of c < 0x20 \<Longrightarrow> scans [c]"
  by (simp add: scans_def)

lemma scans_high: "\<forall>x \<in> set xs. 0x80 \<le> byte_of x \<Longrightarrow> scans xs"
proof (induction xs)
  case (Cons x xs)
  then have "scans [x]" by (intro scans_plain) auto
  with Cons scans_append [of "[x]" xs] show ?case by simp
qed simp

lemma scans_simple: "simple_escape e \<noteq> None \<Longrightarrow> scans [backslash, e]"
  by (simp add: scans_def escape_len_def)

lemma scans_u: "is_hex w \<Longrightarrow> is_hex x \<Longrightarrow> is_hex y \<Longrightarrow> is_hex z \<Longrightarrow> scans [backslash, CHR ''u'', w, x, y, z]"
  by (simp add: scans_def escape_len_def simple_escape_def)

lemma hex_letters [simp]: "is_hex (CHR ''0'')" "is_hex (CHR ''2'')" "is_hex (CHR ''f'')" "is_hex (CHR ''d'')"
  "unhex (CHR ''0'') = 0" "unhex (CHR ''2'') = 2" "unhex (CHR ''f'') = 15" "unhex (CHR ''d'') = 13"
  by (simp_all add: is_hex_def unhex_def is_digit_def)

lemma simple_escapes [simp]:
  "simple_escape backslash = Some backslash" "simple_escape double_quote = Some double_quote"
  "simple_escape (CHR ''b'') = Some (CHR 0x08)" "simple_escape (CHR ''f'') = Some (CHR 0x0C)"
  "simple_escape (CHR ''n'') = Some (CHR 0x0A)" "simple_escape (CHR ''r'') = Some (CHR 0x0D)"
  "simple_escape (CHR ''t'') = Some (CHR 0x09)"
  by (simp_all add: simple_escape_def)

lemma scans_quote_byte:
  assumes "byte_of c < 0x80"
  shows "scans (quote_byte c)"
proof -
  have "byte_of c div 16 < 16" "byte_of c mod 16 < 16" using assms by auto
  then have "is_hex (hex_digit (byte_of c div 16))" "is_hex (hex_digit (byte_of c mod 16))"
    by (simp_all add: hex_digit_range)
  then show ?thesis
    by (simp add: quote_byte_def scans_simple scans_u scans_plain)
qed

lemma scans_quote: "scans (quote s)"
proof (induction s rule: quote.induct)
  case (2 c cs)
  have "scans (fst (quote_piece c cs))"
    using scans_high rune_bytes [of c cs]
    by (auto simp: quote_piece_def Let_def scans_quote_byte scans_u hex_digit_range simp del: rune_len.simps)
  with 2 show ?case by (simp add: scans_append)
qed simp

lemma lex_string_quote: "lex_string (quote s @ double_quote # rest) = Some (quote s, rest)"
  using scans_quote [of s] by (simp add: scans_def)

lemma get_u4_None: "e \<noteq> CHR ''u'' \<Longrightarrow> get_u4 (b # e # t) = None"
  by (cases "b # e # t" rule: get_u4.cases) auto

lemma unquotes_simple:
  assumes "simple_escape e = Some x"
  shows "unquotes [backslash, e] [x]"
proof -
  have "e \<noteq> CHR ''u''" using assms by (auto simp: simple_escape_def)
  then show ?thesis using assms by (simp add: unquotes_def unquote_piece_def get_u4_None)
qed

lemma unquotes_u:
  assumes "is_hex w" "is_hex x" "is_hex y" "is_hex z" "\<not> is_surrogate (((unhex w * 16 + unhex x) * 16 + unhex y) * 16 + unhex z)"
  shows "unquotes [backslash, CHR ''u'', w, x, y, z] (encode_rune (((unhex w * 16 + unhex x) * 16 + unhex y) * 16 + unhex z))"
  using assms by (simp add: unquotes_def unquote_piece_def)

lemma unquotes_plain: "byte_of c < 0x80 \<Longrightarrow> c \<noteq> backslash \<Longrightarrow> unquotes [c] [c]"
  by (simp add: unquotes_def unquote_piece_def)

text \<open>A valid encoding at the head of a string stays one before any other string.\<close>

lemma rune_take:
  assumes "0 < rune_len (c # cs)"
  obtains ds where "take (rune_len (c # cs)) (c # cs) = c # ds"
    "\<And>t. rune_len (c # ds @ t) = rune_len (c # cs)" "\<And>t. take (rune_len (c # cs)) (c # ds @ t) = c # ds"
    "\<And>t. drop (rune_len (c # cs)) (c # ds @ t) = t"
proof -
  let ?n = "rune_len (c # cs)"
  obtain ds where ds: "take ?n (c # cs) = c # ds" using assms by (cases ?n) (auto simp del: rune_len.simps)
  have len: "length (c # ds) = ?n" using ds rune_len_le [of "c # cs"] by (metis length_take min.absorb2)
  show ?thesis
  proof (rule that [OF ds])
    show "rune_len (c # ds @ t) = ?n" for t using rune_len_take [OF assms, of t] ds by simp
    show "take ?n (c # ds @ t) = c # ds" "drop ?n (c # ds @ t) = t" for t
      unfolding len [symmetric] by simp_all
  qed
qed

lemma unquotes_rune:
  assumes "0 < rune_len (c # cs)" "0x80 \<le> byte_of c"
  shows "unquotes (take (rune_len (c # cs)) (c # cs)) (take (rune_len (c # cs)) (c # cs))"
proof -
  obtain ds where ds: "take (rune_len (c # cs)) (c # cs) = c # ds"
    "\<And>t. rune_len (c # ds @ t) = rune_len (c # cs)" "\<And>t. take (rune_len (c # cs)) (c # ds @ t) = c # ds"
    "\<And>t. drop (rune_len (c # cs)) (c # ds @ t) = t"
    using rune_take [OF assms(1)] by metis
  have "c \<noteq> backslash" using assms(2) by auto
  then show ?thesis
    using assms by (simp add: unquotes_def ds unquote_piece_def del: rune_len.simps)
qed

lemma unquotes_quote_byte:
  assumes "byte_of c < 0x80"
  shows "unquotes (quote_byte c) [c]"
proof -
  have "byte_of c div 16 < 16" "byte_of c mod 16 < 16" using assms by auto
  note hex = hex_digit_range [OF this(1)] hex_digit_range [OF this(2)]
  have "encode_rune (byte_of c) = [c]" "\<not> is_surrogate (byte_of c)"
    using assms by (simp_all add: encode_rune_def is_surrogate_def)
  then have "unquotes [backslash, CHR ''u'', CHR ''0'', CHR ''0'', hex_digit (byte_of c div 16), hex_digit (byte_of c mod 16)] [c]"
    using hex unquotes_u [of "CHR ''0''" "CHR ''0''" "hex_digit (byte_of c div 16)" "hex_digit (byte_of c mod 16)"] by simp
  then show ?thesis
    using assms by (auto simp: quote_byte_def unquotes_simple unquotes_plain)
qed

lemma char_of_eval:
  "char_of (56 :: nat) = CHR ''8''" "char_of (57 :: nat) = CHR ''9''" "char_of (226 :: nat) = CHR 0xE2"
  "char_of (128 :: nat) = CHR 0x80" "char_of (168 :: nat) = CHR 0xA8" "char_of (169 :: nat) = CHR 0xA9"
  "char_of (239 :: nat) = CHR 0xEF" "char_of (191 :: nat) = CHR 0xBF" "char_of (189 :: nat) = CHR 0xBD"
  by code_simp+

lemma unquotes_separators:
  "unquotes [backslash, CHR ''u'', CHR ''2'', CHR ''0'', CHR ''2'', CHR ''8''] [CHR 0xE2, CHR 0x80, CHR 0xA8]"
  "unquotes [backslash, CHR ''u'', CHR ''2'', CHR ''0'', CHR ''2'', CHR ''9''] [CHR 0xE2, CHR 0x80, CHR 0xA9]"
  using unquotes_u [of "CHR ''2''" "CHR ''0''" "CHR ''2''" "CHR ''8''"] unquotes_u [of "CHR ''2''" "CHR ''0''" "CHR ''2''" "CHR ''9''"]
  by (simp_all add: encode_rune_def is_surrogate_def is_hex_def unhex_def is_digit_def char_of_eval)

lemma unquotes_quote_piece:
  assumes "0 < rune_len (c # cs)"
  shows "unquotes (fst (quote_piece c cs)) (take (rune_len (c # cs)) (c # cs))
    \<and> snd (quote_piece c cs) = drop (rune_len (c # cs)) (c # cs)"
proof (cases "byte_of c < 0x80")
  case True
  then have "rune_len (c # cs) = 1" by (simp add: lead_len_def tail_ok_def)
  with True show ?thesis by (simp add: quote_piece_def unquotes_quote_byte del: rune_len.simps)
next
  case False
  with unquotes_rune [OF assms] assms unquotes_separators show ?thesis
    by (auto simp: quote_piece_def Let_def line_separators_def hex_digit_def char_of_eval simp del: rune_len.simps)
qed

text \<open>A string with a replacement character for every byte that is not part of a rune: what quoting makes of it.\<close>

function to_utf8 :: "string \<Rightarrow> string" where
  "to_utf8 [] = []"
| "to_utf8 (c # cs) =
     (if rune_len (c # cs) = 0 then rune_error @ to_utf8 cs
      else take (rune_len (c # cs)) (c # cs) @ to_utf8 (drop (rune_len (c # cs)) (c # cs)))"
  by pat_completeness auto
termination
  by (relation "measure length") (auto simp del: rune_len.simps)

lemma to_utf8_id: "utf8_valid s \<Longrightarrow> to_utf8 s = s"
  by (induction s rule: utf8_valid.induct) (simp_all del: rune_len.simps split: if_splits)

lemma unquotes_error: "unquotes [backslash, CHR ''u'', CHR ''f'', CHR ''f'', CHR ''f'', CHR ''d''] rune_error"
proof -
  have "unquotes [backslash, CHR ''u'', CHR ''f'', CHR ''f'', CHR ''f'', CHR ''d'']
      (encode_rune (((unhex (CHR ''f'') * 16 + unhex (CHR ''f'')) * 16 + unhex (CHR ''f'')) * 16 + unhex (CHR ''d'')))"
    by (rule unquotes_u) (simp_all add: is_hex_def unhex_def is_digit_def is_surrogate_def)
  moreover have "encode_rune 0xFFFD = rune_error" by (simp add: encode_rune_def rune_error_def is_surrogate_def char_of_eval)
  ultimately show ?thesis by (simp add: unhex_def is_digit_def)
qed

theorem unquote_quote: "unquote (quote s) = to_utf8 s"
proof (induction s rule: to_utf8.induct)
  case (2 c cs)
  show ?case
  proof (cases "rune_len (c # cs) = 0")
    case True
    then have "\<not> byte_of c < 0x80" by (auto simp: lead_len_def tail_ok_def)
    with True have "quote_piece c cs = ([backslash, CHR ''u'', CHR ''f'', CHR ''f'', CHR ''f'', CHR ''d''], cs)"
      by (simp add: quote_piece_def Let_def del: rune_len.simps)
    with 2(1) [OF True] True unquotes_error show ?thesis by (simp add: unquotes_def del: rune_len.simps unquote.simps)
  next
    case False
    with 2(2) [OF False] unquotes_quote_piece [of c cs] show ?thesis
      by (simp add: unquotes_def del: rune_len.simps unquote.simps)
  qed
qed simp

text \<open>The value of a string token is valid UTF-8, whatever its bytes were.\<close>

lemma rune_error_encode: "rune_error = encode_rune 0xD800"
  by (simp add: encode_rune_def is_surrogate_def)

lemma utf8_valid_error [simp]: "utf8_valid (rune_error @ s) = utf8_valid s"
  unfolding rune_error_encode by simp

lemma utf8_valid_ascii: "byte_of c < 0x80 \<Longrightarrow> utf8_valid (c # s) = utf8_valid s"
  by (simp add: lead_len_def tail_ok_def)

lemma utf8_valid_take:
  assumes "0 < rune_len (c # cs)"
  shows "utf8_valid (take (rune_len (c # cs)) (c # cs) @ t) = utf8_valid t"
proof -
  obtain ds where "take (rune_len (c # cs)) (c # cs) = c # ds" "rune_len (c # ds @ t) = rune_len (c # cs)"
    "drop (rune_len (c # cs)) (c # ds @ t) = t"
    using rune_take [OF assms] by metis
  with assms show ?thesis by (simp del: rune_len.simps)
qed

lemma utf8_valid_piece: "utf8_valid (fst (unquote_piece c cs) @ t) = utf8_valid t"
proof (cases "c = backslash")
  case True
  have plain: "simple_escape e = Some x \<Longrightarrow> byte_of x < 0x80" for e x
    by (auto simp: simple_escape_def split: if_splits)
  show ?thesis
  proof (cases "get_u4 (c # cs)")
    case None
    then show ?thesis
      using True plain
      by (cases cs) (auto simp: unquote_piece_def utf8_valid_ascii simp del: utf8_valid.simps(2) split: option.split)
  next
    case (Some p)
    obtain r t' where p: "p = (r, t')" by fastforce
    show ?thesis
      by (cases "Option.bind (get_u4 t') (\<lambda>(r2, t2). map_option (\<lambda>p. (p, t2)) (decode_pair r r2))")
        (auto simp: unquote_piece_def True Some [unfolded True] p)
  qed
next
  case False
  then show ?thesis
    by (auto simp: unquote_piece_def utf8_valid_ascii utf8_valid_take simp del: rune_len.simps utf8_valid.simps(2))
qed

lemma utf8_valid_unquote: "utf8_valid (unquote raw)"
  by (induction raw rule: unquote.induct) (simp_all add: utf8_valid_piece)

section \<open>Tokens\<close>

datatype token = T_Null | T_Bool bool | T_Num string | T_Str string | T_Comma | T_Colon
  | T_Left_Bracket | T_Right_Bracket | T_Left_Brace | T_Right_Brace

definition is_space :: "char \<Rightarrow> bool" where
  "is_space c \<longleftrightarrow> c = CHR '' '' \<or> c = CHR 0x09 \<or> c = CHR 0x0A \<or> c = CHR 0x0D"

text \<open>The characters of numbers and names: such a token ends where another character follows.\<close>

definition is_word :: "char \<Rightarrow> bool" where
  "is_word c \<longleftrightarrow> is_digit c \<or> is_alpha c \<or> c = CHR ''-'' \<or> c = CHR ''+'' \<or> c = CHR ''.''"

definition digits_ok :: "string \<Rightarrow> bool" where
  "digits_ok ds \<longleftrightarrow> ds \<noteq> [] \<and> list_all is_digit ds"

definition exponent_ok :: "string \<Rightarrow> bool" where
  "exponent_ok s = (case s of [] \<Rightarrow> True
     | e # t \<Rightarrow> (e = CHR ''e'' \<or> e = CHR ''E'')
         \<and> digits_ok (case t of [] \<Rightarrow> [] | c # ds \<Rightarrow> if c = CHR ''+'' \<or> c = CHR ''-'' then ds else t))"

definition fraction_ok :: "string \<Rightarrow> bool" where
  "fraction_ok s = (case s of [] \<Rightarrow> True
     | c # t \<Rightarrow> if c = CHR ''.'' then takeWhile is_digit t \<noteq> [] \<and> exponent_ok (dropWhile is_digit t) else exponent_ok s)"

definition number_ok :: "string \<Rightarrow> bool" where
  "number_ok s =
     (let t = (if s \<noteq> [] \<and> hd s = CHR ''-'' then tl s else s) in
      case t of [] \<Rightarrow> False
      | c # cs \<Rightarrow> if c = CHR ''0'' then fraction_ok cs
          else is_digit c \<and> fraction_ok (dropWhile is_digit cs))"

definition word_token :: "string \<Rightarrow> token option" where
  "word_token w =
     (if w = ''null'' then Some T_Null else if w = ''true'' then Some (T_Bool True)
      else if w = ''false'' then Some (T_Bool False) else if number_ok w then Some (T_Num w) else None)"

definition punctuation :: "char \<Rightarrow> token option" where
  "punctuation = map_of [(CHR '','', T_Comma), (CHR '':'', T_Colon), (CHR ''['', T_Left_Bracket), (CHR '']'', T_Right_Bracket),
     (CHR ''{'', T_Left_Brace), (CHR ''}'', T_Right_Brace)]"

text \<open>The first token of a text that does not begin with a space, and the rest.\<close>

definition next_token :: "char \<Rightarrow> string \<Rightarrow> (token \<times> string) option" where
  "next_token c cs =
     (if c = double_quote then map_option (\<lambda>(raw, rest). (T_Str (unquote raw), rest)) (lex_string cs)
      else case punctuation c of Some t \<Rightarrow> Some (t, cs)
      | None \<Rightarrow> map_option (\<lambda>t. (t, dropWhile is_word (c # cs))) (word_token (takeWhile is_word (c # cs))))"

lemma lex_string_split: "lex_string s = Some (raw, rest) \<Longrightarrow> s = raw @ double_quote # rest"
  by (induction s arbitrary: raw rest rule: lex_string.induct) (auto split: if_splits, metis append_take_drop_id)

lemma lex_string_shorter: "lex_string s = Some (raw, rest) \<Longrightarrow> length rest < length s"
  using lex_string_split by fastforce

lemma word_token_nonempty: "word_token w = Some t \<Longrightarrow> w \<noteq> []"
  by (auto simp: word_token_def number_ok_def)

lemma next_token_shorter: "next_token c cs = Some (t, rest) \<Longrightarrow> length rest < Suc (length cs)"
proof -
  assume n: "next_token c cs = Some (t, rest)"
  have "length (dropWhile is_word cs) < Suc (length cs)"
    using length_dropWhile_le [of is_word cs] by simp
  with n show ?thesis
    by (auto simp: next_token_def dest!: lex_string_shorter word_token_nonempty split: if_splits option.splits)
qed

function lex_json :: "string \<Rightarrow> token list option" where
  "lex_json [] = Some []"
| "lex_json (c # cs) = (if is_space c then lex_json cs
     else case next_token c cs of None \<Rightarrow> None | Some (t, rest) \<Rightarrow> map_option ((#) t) (lex_json rest))"
  by pat_completeness auto
termination
  by (relation "measure length") (auto dest: next_token_shorter)

section \<open>Values\<close>

text \<open>
  The scanner's stack: an array with the values read, or an object with its members and the key that waits
  for a value, the last first. A state says what must come next.
\<close>

datatype frame = In_Array "json list" | In_Object "(string \<times> json) list" string

datatype scan_state = Value "frame list" | First_Element "frame list" | First_Key "frame list"
  | Next_Key "(string \<times> json) list" "frame list" | Colon "(string \<times> json) list" string "frame list"
  | After json "frame list"

definition max_nesting :: nat where
  "max_nesting = 10000"

definition begin_value :: "frame list \<Rightarrow> token \<Rightarrow> scan_state option" where
  "begin_value st t = (case t of T_Null \<Rightarrow> Some (After JNull st) | T_Bool b \<Rightarrow> Some (After (JBool b) st)
     | T_Num s \<Rightarrow> Some (After (JNum s) st) | T_Str s \<Rightarrow> Some (After (JStr s) st)
     | T_Left_Bracket \<Rightarrow> if length st < max_nesting then Some (First_Element st) else None
     | T_Left_Brace \<Rightarrow> if length st < max_nesting then Some (First_Key st) else None
     | _ \<Rightarrow> None)"

fun scan_step :: "scan_state \<Rightarrow> token \<Rightarrow> scan_state option" where
  "scan_step (Value st) t = begin_value st t"
| "scan_step (First_Element st) t =
     (if t = T_Right_Bracket then Some (After (JArr []) st) else begin_value (In_Array [] # st) t)"
| "scan_step (First_Key st) t = (case t of T_Right_Brace \<Rightarrow> Some (After (JObj []) st) | T_Str k \<Rightarrow> Some (Colon [] k st) | _ \<Rightarrow> None)"
| "scan_step (Next_Key ms st) t = (case t of T_Str k \<Rightarrow> Some (Colon ms k st) | _ \<Rightarrow> None)"
| "scan_step (Colon ms k st) t = (if t = T_Colon then Some (Value (In_Object ms k # st)) else None)"
| "scan_step (After v []) t = None"
| "scan_step (After v (In_Array vs # st)) t = (case t of T_Comma \<Rightarrow> Some (Value (In_Array (v # vs) # st))
     | T_Right_Bracket \<Rightarrow> Some (After (JArr (rev (v # vs))) st) | _ \<Rightarrow> None)"
| "scan_step (After v (In_Object ms k # st)) t = (case t of T_Comma \<Rightarrow> Some (Next_Key ((k, v) # ms) st)
     | T_Right_Brace \<Rightarrow> Some (After (JObj (rev ((k, v) # ms))) st) | _ \<Rightarrow> None)"

fun scan_tokens :: "scan_state \<Rightarrow> token list \<Rightarrow> scan_state option" where
  "scan_tokens st [] = Some st"
| "scan_tokens st (t # ts) = Option.bind (scan_step st t) (\<lambda>st'. scan_tokens st' ts)"

definition parse_json :: "string \<Rightarrow> json option" where
  "parse_json s = Option.bind (lex_json s) (\<lambda>ts. case scan_tokens (Value []) ts of Some (After v []) \<Rightarrow> Some v | _ \<Rightarrow> None)"

section \<open>Printing\<close>

fun intercalate :: "string \<Rightarrow> string list \<Rightarrow> string" where
  "intercalate sep [] = []"
| "intercalate sep [x] = x"
| "intercalate sep (x # y # ys) = x @ sep @ intercalate sep (y # ys)"

definition print_string :: "string \<Rightarrow> string" where
  "print_string s = double_quote # quote s @ [double_quote]"

fun print_json :: "json \<Rightarrow> string" where
  "print_json JNull = ''null''"
| "print_json (JBool b) = (if b then ''true'' else ''false'')"
| "print_json (JNum s) = s"
| "print_json (JStr s) = print_string s"
| "print_json (JArr vs) = ''['' @ intercalate '','' (map print_json vs) @ '']''"
| "print_json (JObj ms) = ''{'' @ intercalate '','' (map (\<lambda>(k, v). print_string k @ '':'' @ print_json v) ms) @ ''}''"

text \<open>The trees that printing keeps: valid UTF-8, numbers of the syntax, and not too deep.\<close>

fun text_ok :: "json \<Rightarrow> bool" where
  "text_ok JNull = True"
| "text_ok (JBool b) = True"
| "text_ok (JNum s) = number_ok s"
| "text_ok (JStr s) = utf8_valid s"
| "text_ok (JArr vs) = list_all text_ok vs"
| "text_ok (JObj ms) = list_all (\<lambda>(k, v). utf8_valid k \<and> text_ok v) ms"

fun depth :: "json \<Rightarrow> nat" where
  "depth (JArr vs) = Suc (foldr (\<lambda>v. max (depth v)) vs 0)"
| "depth (JObj ms) = Suc (foldr (\<lambda>(k, v). max (depth v)) ms 0)"
| "depth _ = 0"

section \<open>Parsing undoes printing\<close>

fun separated :: "token list list \<Rightarrow> token list" where
  "separated [] = []"
| "separated [ts] = ts"
| "separated (ts # us # uss) = ts @ T_Comma # separated (us # uss)"

fun tokens_of :: "json \<Rightarrow> token list" where
  "tokens_of JNull = [T_Null]"
| "tokens_of (JBool b) = [T_Bool b]"
| "tokens_of (JNum s) = [T_Num s]"
| "tokens_of (JStr s) = [T_Str s]"
| "tokens_of (JArr vs) = T_Left_Bracket # separated (map tokens_of vs) @ [T_Right_Bracket]"
| "tokens_of (JObj ms) = T_Left_Brace # separated (map (\<lambda>(k, v). T_Str k # T_Colon # tokens_of v) ms) @ [T_Right_Brace]"

subsection \<open>The stack machine reads a value back\<close>

lemma scan_first_element:
  "scan_tokens (First_Element st) (tokens_of v @ ts) = scan_tokens (Value (In_Array [] # st)) (tokens_of v @ ts)"
  by (cases v) simp_all

lemma scan_elements:
  assumes "\<And>v ts st'. v \<in> set vs \<Longrightarrow> length st' = Suc (length st) \<Longrightarrow>
      scan_tokens (Value st') (tokens_of v @ ts) = scan_tokens (After v st') ts" "vs \<noteq> []"
  shows "scan_tokens (Value (In_Array acc # st)) (separated (map tokens_of vs) @ T_Right_Bracket # ts)
    = scan_tokens (After (JArr (rev acc @ vs)) st) ts"
  using assms
proof (induction vs arbitrary: acc rule: induct_list012)
  case (3 v w vs)
  have "scan_tokens (Value (In_Array acc # st)) (tokens_of v @ ts') = scan_tokens (After v (In_Array acc # st)) ts'" for ts'
    by (rule 3(3)) simp_all
  moreover have "scan_tokens (Value (In_Array (v # acc) # st)) (separated (map tokens_of (w # vs)) @ T_Right_Bracket # ts)
      = scan_tokens (After (JArr (rev (v # acc) @ w # vs)) st) ts"
    by (rule 3(2)) (simp_all add: 3(3))
  ultimately show ?case by simp
qed simp_all

lemma scan_members:
  assumes "\<And>k v ts st'. (k, v) \<in> set ms \<Longrightarrow> length st' = Suc (length st) \<Longrightarrow>
      scan_tokens (Value st') (tokens_of v @ ts) = scan_tokens (After v st') ts" "ms \<noteq> []"
  shows "scan_tokens (Next_Key acc st) (separated (map (\<lambda>(k, v). T_Str k # T_Colon # tokens_of v) ms) @ T_Right_Brace # ts)
    = scan_tokens (After (JObj (rev acc @ ms)) st) ts"
  using assms
proof (induction ms arbitrary: acc rule: induct_list012)
  case (2 m)
  obtain k v where m: "m = (k, v)" by fastforce
  have "scan_tokens (Value (In_Object acc k # st)) (tokens_of v @ ts') = scan_tokens (After v (In_Object acc k # st)) ts'" for ts'
    by (rule 2(1) [of k]) (simp_all add: m)
  then show ?case by (simp add: m)
next
  case (3 m n ms)
  obtain k v where m: "m = (k, v)" by fastforce
  have "scan_tokens (Value (In_Object acc k # st)) (tokens_of v @ ts') = scan_tokens (After v (In_Object acc k # st)) ts'" for ts'
    by (rule 3(3) [of k]) (simp_all add: m)
  moreover have "scan_tokens (Next_Key ((k, v) # acc) st) (separated (map (\<lambda>(k, v). T_Str k # T_Colon # tokens_of v) (n # ms)) @ T_Right_Brace # ts)
      = scan_tokens (After (JObj (rev ((k, v) # acc) @ n # ms)) st) ts"
    by (rule 3(2)) (auto intro: 3(3))
  ultimately show ?case by (simp add: m)
qed simp_all

lemma scan_first_key:
  "scan_tokens (First_Key st) (T_Str k # ts) = scan_tokens (Next_Key [] st) (T_Str k # ts)"
  by simp

lemma depth_element: "v \<in> set vs \<Longrightarrow> depth v \<le> foldr (\<lambda>v. max (depth v)) vs 0"
  by (induction vs) auto

lemma depth_member: "(k, v) \<in> set ms \<Longrightarrow> depth v \<le> foldr (\<lambda>(k, v). max (depth v)) ms 0"
  by (induction ms) auto

lemma scan_value:
  "depth j + length st \<le> max_nesting \<Longrightarrow> scan_tokens (Value st) (tokens_of j @ ts) = scan_tokens (After j st) ts"
proof (induction j arbitrary: st ts)
  case (JArr vs)
  have ih: "scan_tokens (Value st') (tokens_of v @ ts') = scan_tokens (After v st') ts'"
    if "v \<in> set vs" "length st' = Suc (length st)" for v st' ts'
    using JArr.IH [OF that(1)] JArr.prems depth_element [OF that(1)] that(2) by simp
  show ?case
  proof (cases vs)
    case Nil
    then show ?thesis using JArr.prems by (simp add: begin_value_def)
  next
    case (Cons v ws)
    have "separated (map tokens_of vs) = tokens_of v @ (case ws of [] \<Rightarrow> [] | _ \<Rightarrow> T_Comma # separated (map tokens_of ws))"
      using Cons by (cases ws) simp_all
    then have "scan_tokens (First_Element st) (separated (map tokens_of vs) @ T_Right_Bracket # ts)
        = scan_tokens (Value (In_Array [] # st)) (separated (map tokens_of vs) @ T_Right_Bracket # ts)"
      by (simp add: scan_first_element)
    also have "\<dots> = scan_tokens (After (JArr (rev [] @ vs)) st) ts"
      by (rule scan_elements, erule ih, assumption) (simp add: Cons)
    finally show ?thesis using JArr.prems by (simp add: begin_value_def)
  qed
next
  case (JObj ms)
  have ih: "scan_tokens (Value st') (tokens_of v @ ts') = scan_tokens (After v st') ts'"
    if "(k, v) \<in> set ms" "length st' = Suc (length st)" for k v st' ts'
    using JObj.IH [OF that(1), of v] JObj.prems depth_member [OF that(1)] that(2) by (simp add: snds.simps)
  show ?case
  proof (cases ms)
    case Nil
    then show ?thesis using JObj.prems by (simp add: begin_value_def)
  next
    case (Cons m ns)
    obtain k v where m: "m = (k, v)" by fastforce
    let ?ts = "separated (map (\<lambda>(k, v). T_Str k # T_Colon # tokens_of v) ms) @ T_Right_Brace # ts"
    obtain us where "?ts = T_Str k # us" using Cons m by (cases ns) simp_all
    then have "scan_tokens (First_Key st) ?ts = scan_tokens (Next_Key [] st) ?ts" by simp
    also have "\<dots> = scan_tokens (After (JObj (rev [] @ ms)) st) ts"
      by (rule scan_members, erule ih, assumption) (simp add: Cons)
    finally show ?thesis using JObj.prems by (simp add: begin_value_def)
  qed
qed (simp_all add: begin_value_def)

subsection \<open>The lexer reads the tokens back\<close>

text \<open>No number or name goes on in \<open>rest\<close>.\<close>

definition ends :: "string \<Rightarrow> bool" where
  "ends rest \<longleftrightarrow> (case rest of [] \<Rightarrow> True | c # _ \<Rightarrow> \<not> is_word c)"

lemma ends_simps [simp]: "ends []" "ends (c # cs) \<longleftrightarrow> \<not> is_word c"
  by (simp_all add: ends_def)

lemma is_word_letters [simp]: "\<not> is_word (CHR '','')" "\<not> is_word (CHR '']'')" "\<not> is_word (CHR ''}'')"
  by (simp_all add: is_word_def is_digit_def is_alpha_def)

lemma is_word_not: "is_word c \<Longrightarrow> c \<noteq> double_quote \<and> \<not> is_space c \<and> punctuation c = None"
proof -
  have "\<not> is_word c" if "c \<in> {double_quote, CHR '' '', CHR 0x09, CHR 0x0A, CHR 0x0D, CHR '','', CHR '':'', CHR ''['', CHR '']'',
      CHR ''{'', CHR ''}''}" for c
    using that by (auto simp: is_word_def is_digit_def is_alpha_def)
  moreover have "punctuation c = None" if "c \<notin> {CHR '','', CHR '':'', CHR ''['', CHR '']'', CHR ''{'', CHR ''}''}"
    using that by (simp add: punctuation_def)
  ultimately show "is_word c \<Longrightarrow> ?thesis" by (auto simp: is_space_def)
qed

lemma lex_word:
  assumes "word_token w = Some t" "list_all is_word w" "ends rest"
  shows "lex_json (w @ rest) = map_option ((#) t) (lex_json rest)"
proof -
  obtain c cs where w: "w = c # cs" using word_token_nonempty [OF assms(1)] by (cases w) auto
  have "takeWhile is_word (w @ rest) = w" "dropWhile is_word (w @ rest) = rest"
    using assms(2,3) by (cases rest; auto simp: list_all_iff ends_def)+
  moreover have "\<not> is_space c" "c \<noteq> double_quote" "punctuation c = None" using assms(2) w is_word_not by auto
  ultimately show ?thesis using assms(1) w by (simp add: next_token_def)
qed

lemma lex_print_string: "lex_json (print_string s @ rest) = map_option ((#) (T_Str (to_utf8 s))) (lex_json rest)"
  by (simp add: print_string_def is_space_def next_token_def lex_string_quote unquote_quote)

lemma lex_punctuation: "punctuation c = Some t \<Longrightarrow> lex_json (c # rest) = map_option ((#) t) (lex_json rest)"
  by (auto simp: next_token_def punctuation_def is_space_def split: if_splits)

lemmas lex_marks [simp] =
  lex_punctuation [of "CHR '',''" T_Comma, simplified punctuation_def, simplified]
  lex_punctuation [of "CHR '':''" T_Colon, simplified punctuation_def, simplified]
  lex_punctuation [of "CHR ''[''" T_Left_Bracket, simplified punctuation_def, simplified]
  lex_punctuation [of "CHR '']''" T_Right_Bracket, simplified punctuation_def, simplified]
  lex_punctuation [of "CHR ''{''" T_Left_Brace, simplified punctuation_def, simplified]
  lex_punctuation [of "CHR ''}''" T_Right_Brace, simplified punctuation_def, simplified]

lemma digit_word: "is_digit c \<Longrightarrow> is_word c"
  by (simp add: is_word_def)

lemma words_after_digits: "list_all is_word (dropWhile is_digit s) \<Longrightarrow> list_all is_word s"
  by (induction s) (auto simp: digit_word split: if_splits)

lemma word_marks [simp]: "is_word (CHR ''.'')" "is_word (CHR ''-'')" "is_word (CHR ''0'')" "is_word (CHR ''+'')"
  "is_word (CHR ''e'')" "is_word (CHR ''E'')"
  by (simp_all add: is_word_def is_digit_def is_alpha_def)

lemma digits_word: "digits_ok ds \<Longrightarrow> list_all is_word ds"
  by (auto simp: digits_ok_def list_all_iff digit_word)

lemma exponent_word: "exponent_ok s \<Longrightarrow> list_all is_word s"
proof (cases s)
  case (Cons e t)
  assume "exponent_ok s"
  with Cons have "is_word e" and d: "digits_ok (case t of [] \<Rightarrow> [] | c # ds \<Rightarrow> if c = CHR ''+'' \<or> c = CHR ''-'' then ds else t)"
    by (auto simp: exponent_ok_def)
  moreover have "list_all is_word t"
    using digits_word [OF d] by (cases t) (auto split: if_splits)
  ultimately show ?thesis using Cons by simp
qed simp

lemma fraction_word: "fraction_ok s \<Longrightarrow> list_all is_word s"
proof (cases s)
  case (Cons c t)
  assume "fraction_ok s"
  with Cons consider "c = CHR ''.''" "exponent_ok (dropWhile is_digit t)" | "exponent_ok s"
    by (auto simp: fraction_ok_def split: if_splits)
  then show ?thesis
  proof cases
    case 1
    from words_after_digits [OF exponent_word [OF 1(2)]] 1(1) Cons show ?thesis by simp
  qed (rule exponent_word)
qed simp

lemma number_word: "number_ok s \<Longrightarrow> list_all is_word s"
proof -
  assume "number_ok s"
  then obtain c cs where t: "s = c # cs \<or> s = CHR ''-'' # c # cs"
    "c = CHR ''0'' \<and> fraction_ok cs \<or> is_digit c \<and> fraction_ok (dropWhile is_digit cs)"
    by (cases s) (auto simp: number_ok_def Let_def split: list.splits if_splits)
  then have "list_all is_word (c # cs)"
    using fraction_word words_after_digits [OF fraction_word] digit_word by auto
  with t(1) show ?thesis by auto
qed

lemma number_token: "number_ok s \<Longrightarrow> word_token s = Some (T_Num s)"
  by (auto simp: word_token_def) (simp_all add: number_ok_def is_digit_def)

lemma map_option_Nil: "map_option ((@) []) x = x"
  by (cases x) simp_all

lemma lex_separated:
  assumes "\<And>x rest. x \<in> set xs \<Longrightarrow> ends rest \<Longrightarrow> lex_json (p x @ rest) = map_option ((@) (q x)) (lex_json rest)" "ends rest"
  shows "lex_json (intercalate '','' (map p xs) @ rest) = map_option ((@) (separated (map q xs))) (lex_json rest)"
  using assms(1)
proof (induction xs rule: induct_list012)
  case (3 x y ys)
  have "lex_json (p x @ CHR '','' # r) = map_option ((@) (q x)) (lex_json (CHR '','' # r))" for r
    by (rule 3(3)) simp_all
  with 3 show ?case by (simp add: option.map_comp comp_def)
qed (simp_all add: assms(2) map_option_Nil)

lemma map_option_single: "map_option ((@) [t]) x = map_option ((#) t) x"
  by (cases x) simp_all

lemma lex_names:
  assumes "ends rest"
  shows "lex_json (''null'' @ rest) = map_option ((#) T_Null) (lex_json rest)"
    "lex_json (''true'' @ rest) = map_option ((#) (T_Bool True)) (lex_json rest)"
    "lex_json (''false'' @ rest) = map_option ((#) (T_Bool False)) (lex_json rest)"
  by (rule lex_word [OF _ _ assms]; simp add: word_token_def is_word_def is_alpha_def)+

text \<open>What a tree is after it was printed and read: all its strings are valid UTF-8.\<close>

fun sanitize :: "json \<Rightarrow> json" where
  "sanitize (JStr s) = JStr (to_utf8 s)"
| "sanitize (JArr vs) = JArr (map sanitize vs)"
| "sanitize (JObj ms) = JObj (map (\<lambda>(k, v). (to_utf8 k, sanitize v)) ms)"
| "sanitize j = j"

fun numbers_ok :: "json \<Rightarrow> bool" where
  "numbers_ok (JNum s) = number_ok s"
| "numbers_ok (JArr vs) = list_all numbers_ok vs"
| "numbers_ok (JObj ms) = list_all (\<lambda>(k, v). numbers_ok v) ms"
| "numbers_ok j = True"

lemma sanitize_id: "text_ok j \<Longrightarrow> sanitize j = j"
proof (induction j)
  case (JObj ms)
  have "(case m of (k, v) \<Rightarrow> (to_utf8 k, sanitize v)) = m" if "m \<in> set ms" for m
    using that JObj.prems JObj.IH [of m "snd m"] by (auto simp: list_all_iff to_utf8_id snds.simps)
  then show ?case by (simp add: map_idI)
qed (auto simp: list_all_iff to_utf8_id map_idI)

lemma text_numbers: "text_ok j \<Longrightarrow> numbers_ok j"
proof (induction j)
  case (JObj ms)
  then show ?case by (fastforce simp: list_all_iff snds.simps)
qed (auto simp: list_all_iff)

lemma depth_sanitize [simp]: "depth (sanitize j) = depth j"
proof (induction j)
  case (JArr vs)
  have "foldr (\<lambda>v. max (depth v)) (map sanitize vs) n = foldr (\<lambda>v. max (depth v)) vs n" for n
    using JArr by (induction vs) simp_all
  then show ?case by simp
next
  case (JObj ms)
  have "foldr (\<lambda>(k, v). max (depth v)) (map (\<lambda>(k, v). (to_utf8 k, sanitize v)) ms) n = foldr (\<lambda>(k, v). max (depth v)) ms n"
    if "\<forall>(k, v)\<in>set ms. depth (sanitize v) = depth v" for ms n
    using that by (induction ms) auto
  moreover have "depth (sanitize v) = depth v" if "(k, v) \<in> set ms" for k v
    by (rule JObj.IH [OF that]) (simp add: snds.simps)
  ultimately have "foldr (\<lambda>(k, v). max (depth v)) (map (\<lambda>(k, v). (to_utf8 k, sanitize v)) ms) 0 = foldr (\<lambda>(k, v). max (depth v)) ms 0"
    by blast
  then show ?case by simp
qed simp_all

lemma lex_print: "numbers_ok j \<Longrightarrow> ends rest \<Longrightarrow> lex_json (print_json j @ rest) = map_option ((@) (tokens_of (sanitize j))) (lex_json rest)"
proof (induction j arbitrary: rest)
  case (JNum s)
  then show ?case using lex_word [OF number_token number_word] by (simp add: map_option_single del: lex_json.simps)
next
  case (JArr vs)
  have "lex_json (intercalate '','' (map print_json vs) @ CHR '']'' # rest)
      = map_option ((@) (separated (map (\<lambda>v. tokens_of (sanitize v)) vs))) (lex_json (CHR '']'' # rest))"
    using JArr by (intro lex_separated) (simp_all add: list_all_iff)
  then show ?case by (simp add: option.map_comp comp_def)
next
  case (JObj ms)
  have "lex_json (intercalate '','' (map (\<lambda>(k, v). print_string k @ '':'' @ print_json v) ms) @ CHR ''}'' # rest)
      = map_option ((@) (separated (map (\<lambda>(k, v). T_Str (to_utf8 k) # T_Colon # tokens_of (sanitize v)) ms))) (lex_json (CHR ''}'' # rest))"
  proof (rule lex_separated)
    fix x and r :: string
    assume x: "x \<in> set ms" "ends r"
    obtain k v where m: "x = (k, v)" by fastforce
    with x JObj.prems(1) have "numbers_ok v" by (auto simp: list_all_iff)
    with JObj.IH [of "(k, v)" v r] x m show "lex_json ((case x of (k, v) \<Rightarrow> print_string k @ '':'' @ print_json v) @ r)
        = map_option ((@) (case x of (k, v) \<Rightarrow> T_Str (to_utf8 k) # T_Colon # tokens_of (sanitize v))) (lex_json r)"
      by (cases "lex_json r") (simp_all add: lex_print_string snds.simps)
  qed simp
  then show ?case by (simp add: option.map_comp comp_def split_def)
qed (simp_all add: lex_print_string map_option_single lex_names del: append.simps lex_json.simps)

theorem parse_print_any: "numbers_ok j \<Longrightarrow> depth j \<le> max_nesting \<Longrightarrow> parse_json (print_json j) = Some (sanitize j)"
  using lex_print [of j "[]"] scan_value [of "sanitize j" "[]" "[]"] by (simp add: parse_json_def)

theorem parse_print: "text_ok j \<Longrightarrow> depth j \<le> max_nesting \<Longrightarrow> parse_json (print_json j) = Some j"
  using parse_print_any [OF text_numbers] sanitize_id by simp

section \<open>What parsing yields\<close>

fun token_ok :: "token \<Rightarrow> bool" where
  "token_ok (T_Num s) = number_ok s"
| "token_ok (T_Str s) = utf8_valid s"
| "token_ok t = True"

fun frame_ok :: "frame \<Rightarrow> bool" where
  "frame_ok (In_Array vs) = list_all text_ok vs"
| "frame_ok (In_Object ms k) = (utf8_valid k \<and> list_all (\<lambda>(k, v). utf8_valid k \<and> text_ok v) ms)"

fun scan_ok :: "scan_state \<Rightarrow> bool" where
  "scan_ok (Value st) = list_all frame_ok st"
| "scan_ok (First_Element st) = list_all frame_ok st"
| "scan_ok (First_Key st) = list_all frame_ok st"
| "scan_ok (Next_Key ms st) = (list_all (\<lambda>(k, v). utf8_valid k \<and> text_ok v) ms \<and> list_all frame_ok st)"
| "scan_ok (Colon ms k st) = (utf8_valid k \<and> list_all (\<lambda>(k, v). utf8_valid k \<and> text_ok v) ms \<and> list_all frame_ok st)"
| "scan_ok (After v st) = (text_ok v \<and> list_all frame_ok st)"

lemma next_token_ok: "next_token c cs = Some (t, rest) \<Longrightarrow> token_ok t"
  by (auto simp: next_token_def punctuation_def word_token_def utf8_valid_unquote split: if_splits)

lemma lex_json_ok: "lex_json s = Some ts \<Longrightarrow> list_all token_ok ts"
  by (induction s arbitrary: ts rule: lex_json.induct)
    (auto dest: next_token_ok split: if_splits option.splits)

lemma begin_value_ok: "begin_value st t = Some s \<Longrightarrow> token_ok t \<Longrightarrow> list_all frame_ok st \<Longrightarrow> scan_ok s"
  by (auto simp: begin_value_def split: token.splits if_splits)

lemma scan_step_ok: "scan_step s t = Some s' \<Longrightarrow> token_ok t \<Longrightarrow> scan_ok s \<Longrightarrow> scan_ok s'"
  by (induction s t rule: scan_step.induct) (auto dest: begin_value_ok split: token.splits if_splits)

lemma scan_tokens_ok: "scan_tokens s ts = Some s' \<Longrightarrow> list_all token_ok ts \<Longrightarrow> scan_ok s \<Longrightarrow> scan_ok s'"
  by (induction s ts rule: scan_tokens.induct) (auto simp: bind_eq_Some_conv dest: scan_step_ok)

lemma parse_json_Some:
  "parse_json s = Some j \<longleftrightarrow> (\<exists>ts. lex_json s = Some ts \<and> scan_tokens (Value []) ts = Some (After j []))"
  by (cases "lex_json s"; cases "Option.bind (lex_json s) (scan_tokens (Value []))")
    (auto simp: parse_json_def split: scan_state.splits list.splits)

lemma parse_json_ok: "parse_json s = Some j \<Longrightarrow> text_ok j"
  by (fastforce simp: parse_json_Some dest: lex_json_ok scan_tokens_ok)

text \<open>\<open>json.Unmarshal\<close> into a struct that \<open>dec\<close> fills: what is not JSON, or does not fit, is an error.\<close>

definition unmarshal :: "(json \<Rightarrow> 'a option) \<Rightarrow> string \<Rightarrow> 'a option" where
  "unmarshal dec bytes = Option.bind (parse_json bytes) dec"

lemma unmarshal_print: "text_ok j \<Longrightarrow> depth j \<le> max_nesting \<Longrightarrow> unmarshal dec (print_json j) = dec j"
  by (simp add: unmarshal_def parse_print)

declare utf8_valid.simps(2) [simp del] utf8_valid_ascii [simp] to_utf8.simps(2) [simp del]

lemma utf8_valid_append: "utf8_valid s \<Longrightarrow> utf8_valid t \<Longrightarrow> utf8_valid (s @ t)"
proof (induction s rule: utf8_valid.induct)
  case (2 c cs)
  let ?n = "rune_len (c # cs)"
  have n: "0 < ?n" "utf8_valid (drop ?n (c # cs))"
    using "2.prems"(1) by (auto simp: utf8_valid.simps(2) simp del: rune_len.simps split: if_splits)
  have "utf8_valid ((c # cs) @ t) = utf8_valid (take ?n (c # cs) @ (drop ?n (c # cs) @ t))"
    by (metis append.assoc append_take_drop_id)
  also have "\<dots> = utf8_valid (drop ?n (c # cs) @ t)" by (rule utf8_valid_take [OF n(1)])
  finally show ?case using "2.IH" [OF _ n(2) "2.prems"(2)] n(1) by simp
qed simp

text \<open>A date is text.\<close>

lemma show_nat_ascii: "c \<in> set (show_nat n) \<Longrightarrow> byte_of c < 0x80"
proof (induction n rule: show_nat.induct)
  case (1 n)
  then show ?case by (auto simp: show_nat.simps [of n] digit_char_def split: if_splits)
qed

lemma utf8_valid_if_ascii: "\<forall>c\<in>set s. byte_of c < 0x80 \<Longrightarrow> utf8_valid s"
  by (induction s) simp_all

lemma pad_ascii: "c \<in> set (pad n i) \<Longrightarrow> byte_of c < 0x80"
  by (auto simp: pad_def Let_def show_int_def dest: show_nat_ascii split: if_splits)

lemma rfc3339_utf8 [simp]: "utf8_valid (rfc3339 offset t)"
  by (rule utf8_valid_if_ascii) (auto simp: rfc3339_def Let_def dest: pad_ascii split: prod.splits if_splits)

section \<open>Reading a text line by line\<close>

lemma escape_len_append: "0 < escape_len cs \<Longrightarrow> escape_len (cs @ u) = escape_len cs"
  by (auto simp: escape_len_def split: list.splits if_splits)

lemma lex_string_append: "lex_string s = Some (raw, rest) \<Longrightarrow> lex_string (s @ u) = Some (raw, rest @ u)"
proof (induction s arbitrary: raw rest rule: lex_string.induct)
  case (2 c cs)
  have "take (escape_len cs) (cs @ u) = take (escape_len cs) cs" "drop (escape_len cs) (cs @ u) = drop (escape_len cs) cs @ u"
    if "0 < escape_len cs"
    using that by (auto simp: escape_len_def split: list.splits if_splits)
  with 2 show ?case by (auto simp: escape_len_append split: if_splits)
qed simp

lemma next_token_line:
  assumes "next_token c cs = Some (t, rest)" "\<not> is_word nl"
  shows "next_token c (cs @ nl # ys) = Some (t, rest @ nl # ys)"
proof -
  have w: "takeWhile is_word (c # cs @ nl # ys) = takeWhile is_word (c # cs)"
    "dropWhile is_word (c # cs @ nl # ys) = dropWhile is_word (c # cs) @ nl # ys"
    using assms(2) by (induction cs) auto
  show ?thesis
    using assms(1) w lex_string_append [of cs _ rest "nl # ys"] by (auto simp: next_token_def split: if_splits option.splits)
qed

lemma lex_line:
  "lex_json xs = Some ts \<Longrightarrow> lex_json (xs @ CHR 0x0A # ys) = map_option ((@) ts) (lex_json ys)"
proof (induction xs arbitrary: ts rule: lex_json.induct)
  case 1
  then show ?case by (simp add: is_space_def option.map_ident)
next
  case (2 c cs)
  have nl: "\<not> is_word (CHR 0x0A)" by (simp add: is_word_def is_digit_def is_alpha_def)
  show ?case
  proof (cases "is_space c")
    case True
    with 2 show ?thesis by simp
  next
    case False
    with "2.prems" obtain t rest us where n: "next_token c cs = Some (t, rest)" and us: "lex_json rest = Some us" "ts = t # us"
      by (auto split: option.splits)
    from 2(2) [OF False n refl us(1)] next_token_line [OF n nl, of ys] False us(2) show ?thesis
      by (simp add: option.map_comp comp_def)
  qed
qed

lemma parse_json_line: "parse_json s = Some j \<Longrightarrow> parse_json (s @ [CHR 0x0A]) = Some j"
  by (auto simp: parse_json_Some lex_line)

definition unlines :: "string list \<Rightarrow> string" where
  "unlines ls = concat (map (\<lambda>l. l @ [CHR 0x0A]) ls)"

lemma lex_lines: "list_all2 (\<lambda>l ts. lex_json l = Some ts) ls tss \<Longrightarrow> lex_json (unlines ls) = Some (concat tss)"
  by (induction rule: list_all2_induct) (simp_all add: unlines_def lex_line)

lemma parse_lines:
  "list_all2 (\<lambda>l ts. lex_json l = Some ts) ls tss \<Longrightarrow> scan_tokens (Value []) (concat tss) = Some (After j []) \<Longrightarrow>
   parse_json (unlines ls) = Some j"
  by (simp add: parse_json_def lex_lines)

end
