(* ===== verification/Protocol.thy ===== *)
theory Protocol
  imports Config Json_Text "HOL-Library.List_Lexorder" "HOL-Library.Char_ord" "HOL-Library.Multiset"
begin

text \<open>
  \<open>internal/protocol/messages.go\<close> and the struct tags of \<open>internal/config/config.go\<close>: how
  \<open>encoding/json\<close> decodes and encodes the program's structs, on JSON trees. A field is found by its
  name up to case folding, members are taken in order (a repeated map member adds to the map), null leaves
  a string or number as it is and makes a map or pointer nil, any other mismatch is an error.
\<close>

section \<open>Structs\<close>

text \<open>
  Case folding of field names: ASCII letters, and the two other letters that fold to one (the
  long s and the Kelvin sign, in UTF-8).
\<close>

fun fold_name :: "string \<Rightarrow> string" where
  "fold_name [] = []"
| "fold_name (c # cs) =
     (if c = CHR 0xC5 \<and> take 1 cs = [CHR 0xBF] then CHR ''s'' # fold_name (drop 1 cs)
      else if c = CHR 0xE2 \<and> take 2 cs = [CHR 0x84, CHR 0xAA] then CHR ''k'' # fold_name (drop 2 cs)
      else to_lower c # fold_name cs)"

type_synonym 'r field = "string \<times> (json \<Rightarrow> 'r \<Rightarrow> 'r option)"

definition find_field :: "'r field list \<Rightarrow> string \<Rightarrow> (json \<Rightarrow> 'r \<Rightarrow> 'r option) option" where
  "find_field fs k = map_of (map (\<lambda>(n, d). (fold_name n, d)) fs) (fold_name k)"

fun decode_members :: "'r field list \<Rightarrow> (string \<times> json) list \<Rightarrow> 'r \<Rightarrow> 'r option" where
  "decode_members fs [] r = Some r"
| "decode_members fs ((k, v) # ms) r =
     (case find_field fs k of None \<Rightarrow> decode_members fs ms r
      | Some d \<Rightarrow> Option.bind (d v r) (decode_members fs ms))"

definition decode_struct :: "'r field list \<Rightarrow> json \<Rightarrow> 'r \<Rightarrow> 'r option" where
  "decode_struct fs j r = (case j of JObj ms \<Rightarrow> decode_members fs ms r | JNull \<Rightarrow> Some r | _ \<Rightarrow> None)"

definition decode_string :: "json \<Rightarrow> string \<Rightarrow> string option" where
  "decode_string j cur = (case j of JStr s \<Rightarrow> Some s | JNull \<Rightarrow> Some cur | _ \<Rightarrow> None)"

text \<open>\<open>strconv.ParseInt\<close> on a JSON number, for a 64-bit field.\<close>

definition int_literal :: "string \<Rightarrow> int option" where
  "int_literal s =
     (let neg = (s \<noteq> [] \<and> hd s = CHR ''-''); ds = (if neg then tl s else s)
      in if ds = [] \<or> \<not> list_all is_digit ds then None
         else let n = int (foldl (\<lambda>v d. 10 * v + digit_value d) 0 ds); i = (if neg then - n else n)
              in if - (2 ^ 63) \<le> i \<and> i < 2 ^ 63 then Some i else None)"

definition decode_int :: "json \<Rightarrow> int \<Rightarrow> int option" where
  "decode_int j cur = (case j of JNum s \<Rightarrow> int_literal s | JNull \<Rightarrow> Some cur | _ \<Rightarrow> None)"

fun decode_entries :: "(json \<Rightarrow> 'v option) \<Rightarrow> (string \<times> json) list \<Rightarrow> (string \<times> 'v) list \<Rightarrow> (string \<times> 'v) list option" where
  "decode_entries elem [] es = Some es"
| "decode_entries elem ((k, v) # ms) es =
     (case elem v of None \<Rightarrow> None | Some x \<Rightarrow> decode_entries elem ms (AList.update k x es))"

definition decode_map :: "(json \<Rightarrow> 'v option) \<Rightarrow> json \<Rightarrow> (string, 'v) gomap \<Rightarrow> (string, 'v) gomap option" where
  "decode_map elem j cur = (case j of JNull \<Rightarrow> Some None
     | JObj ms \<Rightarrow> map_option Some (decode_entries elem ms (entries cur)) | _ \<Rightarrow> None)"

definition decode_string_map :: "json \<Rightarrow> (string, string) gomap \<Rightarrow> (string, string) gomap option" where
  "decode_string_map = decode_map (\<lambda>v. decode_string v [])"

text \<open>A pointer to a struct: null is nil, an object goes into the struct pointed to or a new one.\<close>

definition decode_pointer :: "'r field list \<Rightarrow> 'r \<Rightarrow> json \<Rightarrow> 'r option \<Rightarrow> 'r option option" where
  "decode_pointer fs zero j cur = (case j of JNull \<Rightarrow> Some None
     | _ \<Rightarrow> map_option Some (decode_struct fs j (case cur of None \<Rightarrow> zero | Some r \<Rightarrow> r)))"

section \<open>The configuration\<close>

definition health_check_fields :: "health_check_config field list" where
  "health_check_fields =
     [(''path'', \<lambda>v h. map_option (\<lambda>s. h\<lparr>hc_path := s\<rparr>) (decode_string v (hc_path h))),
      (''interval'', \<lambda>v h. map_option (\<lambda>s. h\<lparr>hc_interval := s\<rparr>) (decode_string v (hc_interval h))),
      (''timeout'', \<lambda>v h. map_option (\<lambda>s. h\<lparr>hc_timeout := s\<rparr>) (decode_string v (hc_timeout h)))]"

definition circuit_breaker_fields :: "circuit_breaker_config field list" where
  "circuit_breaker_fields =
     [(''failure_threshold'', \<lambda>v c. map_option (\<lambda>n. c\<lparr>cb_failure_threshold := n\<rparr>) (decode_int v (cb_failure_threshold c))),
      (''timeout'', \<lambda>v c. map_option (\<lambda>s. c\<lparr>cb_timeout := s\<rparr>) (decode_string v (cb_timeout c)))]"

definition placement_fields :: "placement_config field list" where
  "placement_fields =
     [(''url'', \<lambda>v p. map_option (\<lambda>s. p\<lparr>pl_url := s\<rparr>) (decode_string v (pl_url p))),
      (''fallback'', \<lambda>v p. map_option (\<lambda>s. p\<lparr>pl_fallback := s\<rparr>) (decode_string v (pl_fallback p))),
      (''health_check'', \<lambda>v p. map_option (\<lambda>h. p\<lparr>pl_health_check := h\<rparr>)
         (decode_pointer health_check_fields \<lparr>hc_path = [], hc_interval = [], hc_timeout = []\<rparr> v (pl_health_check p))),
      (''circuit_breaker'', \<lambda>v p. map_option (\<lambda>c. p\<lparr>pl_circuit_breaker := c\<rparr>)
         (decode_pointer circuit_breaker_fields \<lparr>cb_failure_threshold = 0, cb_timeout = []\<rparr> v (pl_circuit_breaker p))),
      (''concurrency_limit'', \<lambda>v p. map_option (\<lambda>n. p\<lparr>pl_concurrency_limit := n\<rparr>) (decode_int v (pl_concurrency_limit p))),
      (''max_request_body_bytes'', \<lambda>v p. map_option (\<lambda>n. p\<lparr>pl_max_request_body_bytes := n\<rparr>)
         (decode_int v (pl_max_request_body_bytes p)))]"

definition zero_placement :: placement_config where
  "zero_placement = \<lparr>pl_url = [], pl_fallback = [], pl_health_check = None, pl_circuit_breaker = None,
     pl_concurrency_limit = 0, pl_max_request_body_bytes = 0\<rparr>"

definition config_fields :: "config field list" where
  "config_fields =
     [(''version'', \<lambda>v c. map_option (\<lambda>s. c\<lparr>version := s\<rparr>) (decode_string v (version c))),
      (''routingTable'', \<lambda>v c. map_option (\<lambda>m. c\<lparr>routing_table := m\<rparr>) (decode_string_map v (routing_table c))),
      (''cellEndpoints'', \<lambda>v c. map_option (\<lambda>m. c\<lparr>cell_endpoints := m\<rparr>) (decode_string_map v (cell_endpoints c))),
      (''placements'', \<lambda>v c. map_option (\<lambda>m. c\<lparr>placements := m\<rparr>)
         (decode_map (\<lambda>v. decode_pointer placement_fields zero_placement v None) v (placements c))),
      (''defaultPlacement'', \<lambda>v c. map_option (\<lambda>s. c\<lparr>default_placement := s\<rparr>) (decode_string v (default_placement c)))]"

definition zero_config :: config where
  "zero_config = \<lparr>version = [], routing_table = None, cell_endpoints = None, placements = None, default_placement = []\<rparr>"

definition decode_config :: "json \<Rightarrow> config option" where
  "decode_config j = decode_struct config_fields j zero_config"

section \<open>The messages\<close>

definition type_snapshot :: string where "type_snapshot = ''config_snapshot''"
definition type_ack :: string where "type_ack = ''ack''"
definition type_nack :: string where "type_nack = ''nack''"

record message =
  msg_type :: string
  msg_version :: string

record nack_message = message +
  nack_error :: string

record snapshot =
  sn_type :: string
  sn_version :: string
  sn_routing_table :: "(string, string) gomap"
  sn_cell_endpoints :: "(string, string) gomap"
  sn_default_placement :: string

definition message_fields :: "'a message_scheme field list" where
  "message_fields =
     [(''type'', \<lambda>v m. map_option (\<lambda>s. m\<lparr>msg_type := s\<rparr>) (decode_string v (msg_type m))),
      (''version'', \<lambda>v m. map_option (\<lambda>s. m\<lparr>msg_version := s\<rparr>) (decode_string v (msg_version m)))]"

text \<open>\<open>Message\<close> and \<open>AckMessage\<close> have the same fields.\<close>

definition decode_message :: "json \<Rightarrow> message option" where
  "decode_message j = decode_struct message_fields j \<lparr>msg_type = [], msg_version = []\<rparr>"

definition decode_nack :: "json \<Rightarrow> nack_message option" where
  "decode_nack j = decode_struct (message_fields @
     [(''error'', \<lambda>v m. map_option (\<lambda>s. m\<lparr>nack_error := s\<rparr>) (decode_string v (nack_error m)))])
     j \<lparr>msg_type = [], msg_version = [], nack_error = []\<rparr>"

definition snapshot_fields :: "snapshot field list" where
  "snapshot_fields =
     [(''type'', \<lambda>v s. map_option (\<lambda>t. s\<lparr>sn_type := t\<rparr>) (decode_string v (sn_type s))),
      (''version'', \<lambda>v s. map_option (\<lambda>t. s\<lparr>sn_version := t\<rparr>) (decode_string v (sn_version s))),
      (''routingTable'', \<lambda>v s. map_option (\<lambda>m. s\<lparr>sn_routing_table := m\<rparr>) (decode_string_map v (sn_routing_table s))),
      (''cellEndpoints'', \<lambda>v s. map_option (\<lambda>m. s\<lparr>sn_cell_endpoints := m\<rparr>) (decode_string_map v (sn_cell_endpoints s))),
      (''defaultPlacement'', \<lambda>v s. map_option (\<lambda>t. s\<lparr>sn_default_placement := t\<rparr>) (decode_string v (sn_default_placement s)))]"

definition decode_snapshot :: "json \<Rightarrow> snapshot option" where
  "decode_snapshot j = decode_struct snapshot_fields j
     \<lparr>sn_type = [], sn_version = [], sn_routing_table = None, sn_cell_endpoints = None, sn_default_placement = []\<rparr>"

text \<open>\<open>json.Marshal\<close>: fields in the order of the struct, maps sorted by key, a nil map as null.\<close>

definition encode_string_map :: "(string, string) gomap \<Rightarrow> json" where
  "encode_string_map m = (case m of None \<Rightarrow> JNull
     | Some es \<Rightarrow> JObj (map (\<lambda>(k, v). (k, JStr v)) (sort_key fst es)))"

definition encode_message :: "message \<Rightarrow> json" where
  "encode_message m = JObj [(''type'', JStr (msg_type m)), (''version'', JStr (msg_version m))]"

definition encode_nack :: "nack_message \<Rightarrow> json" where
  "encode_nack m = JObj [(''type'', JStr (msg_type m)), (''version'', JStr (msg_version m)), (''error'', JStr (nack_error m))]"

definition encode_snapshot :: "snapshot \<Rightarrow> json" where
  "encode_snapshot s = JObj [(''type'', JStr (sn_type s)), (''version'', JStr (sn_version s)),
     (''routingTable'', encode_string_map (sn_routing_table s)),
     (''cellEndpoints'', encode_string_map (sn_cell_endpoints s)),
     (''defaultPlacement'', JStr (sn_default_placement s))]"

section \<open>Round trips\<close>

lemmas json_eval = decode_struct_def find_field_def decode_string_def to_lower_def

text \<open>What a map is after a round trip: the same bindings, sorted by key.\<close>

definition sorted_map :: "(string, string) gomap \<Rightarrow> (string, string) gomap" where
  "sorted_map m = map_option (sort_key fst) m"

lemma map_fst_sort_key: "set (map fst (sort_key fst es)) = fst ` set es" "distinct (map fst (sort_key fst es)) = distinct (map fst es)"
proof -
  have "mset (map fst (sort_key fst es)) = mset (map fst es)" by simp
  then show "distinct (map fst (sort_key fst es)) = distinct (map fst es)" by (rule mset_eq_imp_distinct_iff)
qed simp

lemma lookup_sorted_map [simp]: "gomap_wf m \<Longrightarrow> lookup (sorted_map m) k = lookup m k"
proof (cases m)
  case (Some es)
  assume "gomap_wf m"
  then have "distinct (map fst es)" using Some by simp
  moreover from this have "distinct (map fst (sort_key fst es))" by (simp add: map_fst_sort_key)
  ultimately have "map_of (sort_key fst es) k = map_of es k"
    by (metis map_of_inject_set set_sort)
  then show ?thesis using Some by (simp add: sorted_map_def)
qed (simp add: sorted_map_def)

lemma sorted_map_None [simp]: "sorted_map m = None \<longleftrightarrow> m = None"
  by (simp add: sorted_map_def)

lemma gomap_wf_sorted [simp]: "gomap_wf (sorted_map m) = gomap_wf m"
  by (cases m) (simp_all add: sorted_map_def map_fst_sort_key(2) del: map_map)

lemma keys_sorted [simp]: "keys (sorted_map m) = keys m"
  by (cases m) (simp_all add: sorted_map_def)

lemma entries_sorted_empty [simp]: "entries (sorted_map m) = [] \<longleftrightarrow> entries m = []"
  by (cases m) (simp_all add: sorted_map_def, metis set_empty set_sort)

lemma update_fresh: "k \<notin> fst ` set es \<Longrightarrow> AList.update k v es = es @ [(k, v)]"
  by (induction es) auto

lemma decode_entries_encoded:
  "distinct (map fst (acc @ es)) \<Longrightarrow>
   decode_entries (\<lambda>v. decode_string v []) (map (\<lambda>(k, v). (k, JStr v)) es) acc = Some (acc @ es)"
proof (induction es arbitrary: acc)
  case (Cons e es)
  obtain k v where e: "e = (k, v)" by fastforce
  have "AList.update k v acc = acc @ [(k, v)]"
    using Cons.prems e by (intro update_fresh) auto
  with Cons e show ?case by (simp add: decode_string_def)
qed simp

lemma decode_encoded_map:
  assumes "gomap_wf m"
  shows "decode_string_map (encode_string_map m) None = Some (sorted_map m)"
proof (cases m)
  case (Some es)
  with assms have "distinct (map fst ([] @ sort_key fst es))" by (simp add: map_fst_sort_key(2) del: map_map)
  from decode_entries_encoded [OF this] show ?thesis
    using Some by (simp add: decode_string_map_def decode_map_def encode_string_map_def sorted_map_def)
qed (simp add: decode_string_map_def decode_map_def encode_string_map_def sorted_map_def)

lemma decode_encoded_message: "decode_message (encode_snapshot s) = Some \<lparr>msg_type = sn_type s, msg_version = sn_version s\<rparr>"
  by (simp add: decode_message_def encode_snapshot_def message_fields_def json_eval)

lemma decode_encoded_snapshot:
  assumes "gomap_wf (sn_routing_table s)" "gomap_wf (sn_cell_endpoints s)"
  shows "decode_snapshot (encode_snapshot s) = Some (s\<lparr>sn_routing_table := sorted_map (sn_routing_table s),
      sn_cell_endpoints := sorted_map (sn_cell_endpoints s)\<rparr>)"
  by (simp add: decode_snapshot_def encode_snapshot_def snapshot_fields_def json_eval
      decode_encoded_map [OF assms(1)] decode_encoded_map [OF assms(2)])

subsection \<open>Bytes\<close>

definition map_text :: "(string, string) gomap \<Rightarrow> bool" where
  "map_text m \<longleftrightarrow> (\<forall>(k, v) \<in> set (entries m). utf8_valid k \<and> utf8_valid v)"

definition snapshot_text :: "snapshot \<Rightarrow> bool" where
  "snapshot_text s \<longleftrightarrow> utf8_valid (sn_type s) \<and> utf8_valid (sn_version s) \<and> utf8_valid (sn_default_placement s)
     \<and> map_text (sn_routing_table s) \<and> map_text (sn_cell_endpoints s)"

lemma encode_string_map_text: "map_text m \<Longrightarrow> text_ok (encode_string_map m) \<and> depth (encode_string_map m) \<le> 1"
proof -
  have flat: "foldr (\<lambda>(k, v). max (depth v)) (map (\<lambda>(k, v). (k, JStr v)) es) 0 = 0" for es :: "(string \<times> string) list"
    by (induction es) auto
  assume "map_text m"
  then show ?thesis
    by (auto simp: encode_string_map_def map_text_def list_all_iff flat split: option.split)
qed

lemma encode_snapshot_text: "snapshot_text s \<Longrightarrow> text_ok (encode_snapshot s) \<and> depth (encode_snapshot s) \<le> max_nesting"
  using encode_string_map_text [of "sn_routing_table s"] encode_string_map_text [of "sn_cell_endpoints s"]
  by (simp add: snapshot_text_def encode_snapshot_def max_nesting_def)

lemma unmarshal_snapshot: "snapshot_text s \<Longrightarrow> unmarshal dec (print_json (encode_snapshot s)) = dec (encode_snapshot s)"
  by (simp add: unmarshal_print encode_snapshot_text)

text \<open>
  Property C12. A configuration snapshot survives its trip over the wire, byte for byte: what the data plane
  reads from the bytes the control plane wrote has the same type, version and default placement, and maps
  with the same bindings, nil exactly if they were nil; and the base message read from the same bytes has
  the snapshot's type. The strings are UTF-8, as all strings are that were read from JSON.
\<close>

theorem snapshot_roundtrip:
  assumes "gomap_wf (sn_routing_table s)" "gomap_wf (sn_cell_endpoints s)" "snapshot_text s"
  shows "unmarshal decode_snapshot (print_json (encode_snapshot s)) = Some (s\<lparr>sn_routing_table := sorted_map (sn_routing_table s),
      sn_cell_endpoints := sorted_map (sn_cell_endpoints s)\<rparr>)
    \<and> unmarshal decode_message (print_json (encode_snapshot s)) = Some \<lparr>msg_type = sn_type s, msg_version = sn_version s\<rparr>
    \<and> (\<forall>k. lookup (sorted_map (sn_routing_table s)) k = lookup (sn_routing_table s) k)
    \<and> (\<forall>k. lookup (sorted_map (sn_cell_endpoints s)) k = lookup (sn_cell_endpoints s) k)
    \<and> (sorted_map (sn_routing_table s) = None \<longleftrightarrow> sn_routing_table s = None)"
  using assms by (simp add: unmarshal_snapshot decode_encoded_snapshot decode_encoded_message)

text \<open>A snapshot with a line separator and a byte that HTML gives a meaning, which the encoding escapes.\<close>

definition sample_snapshot :: snapshot where
  "sample_snapshot = \<lparr>sn_type = type_snapshot, sn_version = ''1.0'' @ [CHR 0xE2, CHR 0x80, CHR 0xA8, CHR 0x3C],
     sn_routing_table = Some [(''visa'', ''visa''), (''acme'', ''tier1'')],
     sn_cell_endpoints = None, sn_default_placement = ''tier3''\<rparr>"

theorem snapshot_roundtrip_witness:
  "\<exists>s. unmarshal decode_snapshot (print_json (encode_snapshot sample_snapshot)) = Some s \<and> lookup (sn_routing_table s) ''acme'' = Some ''tier1''
    \<and> sn_version s = ''1.0'' @ [CHR 0xE2, CHR 0x80, CHR 0xA8, CHR 0x3C] \<and> sn_cell_endpoints s = None"
proof -
  have "gomap_wf (sn_routing_table sample_snapshot)" "gomap_wf (sn_cell_endpoints sample_snapshot)"
    by (simp_all add: sample_snapshot_def)
  moreover have "snapshot_text sample_snapshot"
    by (simp add: snapshot_text_def sample_snapshot_def map_text_def type_snapshot_def)
      (simp add: utf8_valid.simps(2) lead_len_def tail_ok_def second_ok_def is_cont_def)
  ultimately show ?thesis using snapshot_roundtrip [of sample_snapshot] by (simp add: sample_snapshot_def sorted_map_def)
qed

lemma ack_roundtrip: "decode_message (encode_message m) = Some m"
  by (simp add: decode_message_def encode_message_def message_fields_def json_eval)

lemma nack_roundtrip: "decode_nack (encode_nack m) = Some m"
  by (simp add: decode_nack_def encode_nack_def message_fields_def json_eval)

section \<open>What decoding guarantees\<close>

text \<open>A property that every field keeps, from values with \<open>Q\<close>, holds of the decoded struct.\<close>

definition member_values :: "json \<Rightarrow> json set" where
  "member_values j = (case j of JObj ms \<Rightarrow> snd ` set ms | _ \<Rightarrow> {})"

lemma decode_members_keeps:
  assumes "\<And>n d v r r'. (n, d) \<in> set fs \<Longrightarrow> Q v \<Longrightarrow> d v r = Some r' \<Longrightarrow> P r \<Longrightarrow> P r'"
  shows "decode_members fs ms r = Some r' \<Longrightarrow> \<forall>v \<in> snd ` set ms. Q v \<Longrightarrow> P r \<Longrightarrow> P r'"
proof (induction ms arbitrary: r)
  case (Cons m ms)
  obtain k v where m: "m = (k, v)" by fastforce
  show ?case
  proof (cases "find_field fs k")
    case (Some d)
    then obtain n where n: "(n, d) \<in> set fs" by (auto simp: find_field_def dest!: map_of_SomeD)
    from Cons.prems(1) Some m obtain r1 where r1: "d v r = Some r1" "decode_members fs ms r1 = Some r'"
      by (auto simp: bind_eq_Some_conv)
    have "P r1" using assms [OF n _ r1(1) Cons.prems(3)] Cons.prems(2) m by simp
    then show ?thesis using Cons.IH [OF r1(2)] Cons.prems(2) by simp
  qed (use Cons m in simp)
qed simp

lemma decode_struct_values:
  assumes "\<And>n d v r r'. (n, d) \<in> set fs \<Longrightarrow> Q v \<Longrightarrow> d v r = Some r' \<Longrightarrow> P r \<Longrightarrow> P r'"
    and "decode_struct fs j r = Some r'" "\<forall>v \<in> member_values j. Q v" "P r"
  shows "P r'"
  using decode_members_keeps [of fs Q P, OF assms(1)] assms(2-4)
  by (auto simp: decode_struct_def member_values_def split: json.splits)

lemma decode_struct_keeps:
  assumes "\<And>n d v r r'. (n, d) \<in> set fs \<Longrightarrow> d v r = Some r' \<Longrightarrow> P r \<Longrightarrow> P r'"
    and "decode_struct fs j r = Some r'" "P r"
  shows "P r'"
proof (rule decode_struct_values [where P = P and Q = "\<lambda>_. True", OF _ assms(2) _ assms(3)])
  show "P r'" if "(n, d) \<in> set fs" "True" "d v r = Some r'" "P r" for n d v r r'
    by (rule assms(1) [OF that(1,3,4)])
qed simp

lemma decode_entries_wf:
  "decode_entries elem ms es = Some es' \<Longrightarrow> distinct (map fst es) \<Longrightarrow> distinct (map fst es')"
  by (induction elem ms es rule: decode_entries.induct) (auto simp: distinct_update split: option.splits)

lemma decode_map_wf: "decode_map elem j cur = Some m \<Longrightarrow> gomap_wf cur \<Longrightarrow> gomap_wf m"
  by (auto simp: decode_map_def gomap_wf_def split: json.splits dest: decode_entries_wf)

text \<open>A decoded configuration holds each key of its maps once, as Go maps do.\<close>

lemma decode_config_wf: "decode_config j = Some c \<Longrightarrow> config_wf c"
  unfolding decode_config_def
  by (erule decode_struct_keeps [where P = config_wf, rotated])
    (auto simp: config_fields_def zero_config_def config_wf_def decode_string_map_def dest: decode_map_wf)

text \<open>A configuration read from a file holds valid UTF-8 only; so does its part that travels as a snapshot.\<close>

definition config_text :: "config \<Rightarrow> bool" where
  "config_text c \<longleftrightarrow> utf8_valid (version c) \<and> utf8_valid (default_placement c)
     \<and> map_text (routing_table c) \<and> map_text (cell_endpoints c)"

lemma decode_string_text: "decode_string v cur = Some s \<Longrightarrow> text_ok v \<Longrightarrow> utf8_valid cur \<Longrightarrow> utf8_valid s"
  by (auto simp: decode_string_def split: json.splits)

lemma update_entries: "set (AList.update k v es) \<subseteq> insert (k, v) (set es)"
  by (induction es) auto

lemma decode_entries_text:
  "decode_entries elem ms es = Some es' \<Longrightarrow> elem = (\<lambda>v. decode_string v []) \<Longrightarrow>
   list_all (\<lambda>(k, v). utf8_valid k \<and> text_ok v) ms \<Longrightarrow> map_text (Some es) \<Longrightarrow> map_text (Some es')"
proof (induction elem ms es rule: decode_entries.induct)
  case (2 elem k v ms es)
  then obtain x where x: "elem v = Some x" "decode_entries elem ms (AList.update k x es) = Some es'"
    by (auto split: option.splits)
  then have "map_text (Some (AList.update k x es))"
    using 2(3-5) update_entries [of k x es] decode_string_text [of v "[]" x] by (fastforce simp: map_text_def)
  with 2(1) [OF x] 2(3,4) show ?case by simp
qed simp

lemma decode_string_map_text:
  assumes "decode_string_map v cur = Some m" "text_ok v" "map_text cur"
  shows "map_text m"
proof (cases v)
  case (JObj ms)
  with assms(1) obtain es where es: "decode_entries (\<lambda>v. decode_string v []) ms (entries cur) = Some es" "m = Some es"
    by (auto simp: decode_string_map_def decode_map_def)
  have "map_text (Some (entries cur))" using assms(3) by (simp add: map_text_def)
  from decode_entries_text [OF es(1) refl _ this] es(2) assms(2) JObj show ?thesis by simp
qed (use assms(1) in \<open>auto simp: decode_string_map_def decode_map_def map_text_def\<close>)

lemma decode_config_text:
  assumes "decode_config j = Some c" "text_ok j"
  shows "config_text c"
proof (rule decode_struct_values [where Q = text_ok, OF _ assms(1) [unfolded decode_config_def]])
  fix n d v r r'
  assume "(n, d) \<in> set config_fields" "text_ok v" "d v r = Some r'" "config_text r"
  then show "config_text r'"
    by (auto simp: config_fields_def config_text_def dest: decode_string_text decode_string_map_text)
next
  show "\<forall>v \<in> member_values j. text_ok v"
    using assms(2) by (auto simp: member_values_def list_all_iff split: json.split)
qed (simp add: zero_config_def config_text_def map_text_def)

section \<open>A snapshot read as a base message\<close>

lemma fold_field_names:
  "fold_name ''type'' = ''type''" "fold_name ''version'' = ''version''" "fold_name ''routingTable'' = ''routingtable''"
  "fold_name ''cellEndpoints'' = ''cellendpoints''" "fold_name ''defaultPlacement'' = ''defaultplacement''"
  by code_simp+

lemma find_message_field:
  "find_field message_fields k =
     (if fold_name k = ''type'' then Some (\<lambda>v m. map_option (\<lambda>s. m\<lparr>msg_type := s\<rparr>) (decode_string v (msg_type m)))
      else if fold_name k = ''version'' then Some (\<lambda>v m. map_option (\<lambda>s. m\<lparr>msg_version := s\<rparr>) (decode_string v (msg_version m)))
      else None)"
  by (simp add: find_field_def message_fields_def fold_field_names del: fold_name.simps)

lemma find_snapshot_field:
  "find_field snapshot_fields k = Some d \<Longrightarrow>
     fold_name k = ''type'' \<and> d = (\<lambda>v s. map_option (\<lambda>t. s\<lparr>sn_type := t\<rparr>) (decode_string v (sn_type s)))
   \<or> fold_name k = ''version'' \<and> d = (\<lambda>v s. map_option (\<lambda>t. s\<lparr>sn_version := t\<rparr>) (decode_string v (sn_version s)))
   \<or> fold_name k \<noteq> ''type'' \<and> fold_name k \<noteq> ''version'' \<and> (\<forall>v s s'. d v s = Some s' \<longrightarrow> sn_type s' = sn_type s \<and> sn_version s' = sn_version s)"
  by (auto simp: find_field_def snapshot_fields_def fold_field_names simp del: fold_name.simps split: if_splits)

lemma find_snapshot_field_None:
  "find_field snapshot_fields k = None \<Longrightarrow> find_field message_fields k = None"
  by (auto simp: find_field_def snapshot_fields_def message_fields_def fold_field_names simp del: fold_name.simps split: if_splits)

lemma decode_members_base:
  "decode_members snapshot_fields ms s = Some s' \<Longrightarrow> msg_type r = sn_type s \<Longrightarrow> msg_version r = sn_version s \<Longrightarrow>
   decode_members message_fields ms r = Some \<lparr>msg_type = sn_type s', msg_version = sn_version s'\<rparr>"
proof (induction ms arbitrary: s r)
  case (Cons m ms)
  obtain k v where m: "m = (k, v)" by fastforce
  show ?case
  proof (cases "find_field snapshot_fields k")
    case None
    with Cons m show ?thesis by (simp add: find_snapshot_field_None)
  next
    case (Some d)
    with Cons.prems(1) m obtain s1 where s1: "d v s = Some s1" "decode_members snapshot_fields ms s1 = Some s'"
      by (auto simp: bind_eq_Some_conv)
    note ih = Cons.IH [OF s1(2)]
    from find_snapshot_field [OF Some] s1(1) Cons.prems(2,3) show ?thesis
      by (auto simp: m find_message_field ih)
  qed
qed simp

text \<open>What reads as a snapshot reads as a base message with its type and version.\<close>

lemma decode_snapshot_base:
  "decode_snapshot j = Some s \<Longrightarrow> decode_message j = Some \<lparr>msg_type = sn_type s, msg_version = sn_version s\<rparr>"
  by (auto simp: decode_snapshot_def decode_message_def decode_struct_def intro!: decode_members_base split: json.splits)

end
