(* ===== verification/Loader.thy ===== *)
theory Loader
  imports Protocol Routing
begin

text \<open>
  \<open>internal/config/loader.go\<close> and \<open>LoadFromFile\<close> of \<open>internal/config/config.go\<close>: the active
  configuration, where it came from, and the reload loop. The atomic values are fields of one record,
  each method is a function on it; a file is read as often as the code reads it, and each read can
  find other contents. The loader is shown to be a \<open>config_provider\<close> for the router exactly in the
  legacy format.
\<close>

section \<open>The loader\<close>

datatype config_source = Source_File | Source_Control_Plane

fun source_text :: "config_source \<Rightarrow> string" where
  "source_text Source_File = ''file''"
| "source_text Source_Control_Plane = ''control_plane''"

text \<open>A nil \<open>atomic.Value\<close> is \<open>None\<close>.\<close>

record loader =
  ld_path :: string
  ld_active :: "config option"
  ld_source :: "config_source option"
  ld_checksum :: "string option"
  ld_reload :: "instant option"
  ld_poll :: duration
  ld_stopped :: bool

definition new_loader :: "string \<Rightarrow> duration \<Rightarrow> loader" where
  "new_loader path poll = \<lparr>ld_path = path, ld_active = None, ld_source = None, ld_checksum = None,
     ld_reload = None, ld_poll = poll, ld_stopped = False\<rparr>"

text \<open>SHA-256 (in hexadecimal), a function of the bytes of a file.\<close>

record file_env =
  fe_sha256 :: "string \<Rightarrow> string"

text \<open>What one \<open>os.ReadFile\<close> gives: an error or the bytes.\<close>

type_synonym file_read = "string + string"

datatype load_error = Read_Failed string | Parse_Failed | Invalid_Config config_error | Checksum_Failed string

definition load_from_file :: "file_read \<Rightarrow> load_error + config" where
  "load_from_file rd = (case rd of Inl e \<Rightarrow> Inl (Read_Failed e)
     | Inr bytes \<Rightarrow> (case unmarshal decode_config bytes of
         None \<Rightarrow> Inl Parse_Failed | Some c \<Rightarrow> Inr c))"

definition file_checksum :: "file_env \<Rightarrow> file_read \<Rightarrow> string + string" where
  "file_checksum env rd = (case rd of Inl e \<Rightarrow> Inl e | Inr bytes \<Rightarrow> Inr (fe_sha256 env bytes))"

text \<open>The lines the loader prints.\<close>

datatype loader_note = Loaded_Initial string | Reload_Checksum_Failed string | Reload_Failed load_error
  | Reload_Invalid config_error | Reloaded string

text \<open>\<open>LoadInitial\<close> reads the file twice: for the configuration (\<open>rd1\<close>) and for the checksum (\<open>rd2\<close>).\<close>

definition load_initial ::
    "file_env \<Rightarrow> instant \<Rightarrow> file_read \<Rightarrow> file_read \<Rightarrow> loader \<Rightarrow> (load_error option \<times> loader \<times> loader_note list) outcome" where
  "load_initial env now rd1 rd2 l =
     (case load_from_file rd1 of Inl e \<Rightarrow> Ret (Some e, l, [])
      | Inr cfg \<Rightarrow> obind (validate cfg) (\<lambda>verdict.
          case verdict of Some e \<Rightarrow> Ret (Some (Invalid_Config e), l, [])
          | None \<Rightarrow> (case file_checksum env rd2 of Inl e \<Rightarrow> Ret (Some (Checksum_Failed e), l, [])
              | Inr digest \<Rightarrow> Ret (None, l\<lparr>ld_active := Some cfg, ld_source := Some Source_File,
                  ld_checksum := Some digest, ld_reload := Some now\<rparr>, [Loaded_Initial (version cfg)]))))"

text \<open>\<open>ApplyConfig\<close> never fails.\<close>

definition apply_config :: "instant \<Rightarrow> config \<Rightarrow> loader \<Rightarrow> string option \<times> loader" where
  "apply_config now cfg l = (None, l\<lparr>ld_active := Some cfg, ld_source := Some Source_Control_Plane, ld_reload := Some now\<rparr>)"

definition get_config_source :: "loader \<Rightarrow> config_source" where
  "get_config_source l = (case ld_source l of None \<Rightarrow> Source_File | Some s \<Rightarrow> s)"

text \<open>The type assertion on a nil value panics.\<close>

definition active_config :: "loader \<Rightarrow> config outcome" where
  "active_config l = (case ld_active l of None \<Rightarrow> Panic Bad_Type_Assertion | Some c \<Rightarrow> Ret c)"

definition get_config_version :: "loader \<Rightarrow> string outcome" where
  "get_config_version l = omap version (active_config l)"

definition loader_table :: "loader \<Rightarrow> (string, string) gomap outcome" where
  "loader_table l = omap routing_table (active_config l)"

definition loader_endpoints :: "loader \<Rightarrow> (string, string) gomap outcome" where
  "loader_endpoints l = omap cell_endpoints (active_config l)"

definition loader_default :: "loader \<Rightarrow> string outcome" where
  "loader_default l = omap default_placement (active_config l)"

definition last_reload_time :: "loader \<Rightarrow> instant" where
  "last_reload_time l = (case ld_reload l of None \<Rightarrow> 0 | Some t \<Rightarrow> t)"

definition stop_loader :: "loader \<Rightarrow> loader outcome" where
  "stop_loader l = (if ld_stopped l then Panic Close_Closed_Channel else Ret (l\<lparr>ld_stopped := True\<rparr>))"

text \<open>\<open>tryReload\<close> reads the file for the checksum (\<open>rd1\<close>) and, if that changed, for the contents (\<open>rd2\<close>).\<close>

definition try_reload ::
    "file_env \<Rightarrow> instant \<Rightarrow> file_read \<Rightarrow> file_read \<Rightarrow> loader \<Rightarrow> (loader \<times> loader_note list) outcome" where
  "try_reload env now rd1 rd2 l =
     (case file_checksum env rd1 of Inl e \<Rightarrow> Ret (l, [Reload_Checksum_Failed e])
      | Inr current \<Rightarrow>
        (case ld_checksum l of None \<Rightarrow> Panic Bad_Type_Assertion
         | Some prev \<Rightarrow>
           if current = prev then Ret (l, [])
           else (case load_from_file rd2 of Inl e \<Rightarrow> Ret (l, [Reload_Failed e])
             | Inr cfg \<Rightarrow> obind (validate cfg) (\<lambda>verdict.
                 case verdict of Some e \<Rightarrow> Ret (l, [Reload_Invalid e])
                 | None \<Rightarrow> Ret (l\<lparr>ld_active := Some cfg, ld_source := Some Source_File,
                     ld_checksum := Some current, ld_reload := Some now\<rparr>, [Reloaded (version cfg)])))))"

text \<open>What the loop can receive: a tick, with what its two reads find, or the closed channel.\<close>

datatype loop_event = Tick instant file_read file_read | Stop_Closed

fun reload_ticks :: "file_env \<Rightarrow> loop_event list \<Rightarrow> loader \<Rightarrow> loader outcome" where
  "reload_ticks env [] l = Ret l"
| "reload_ticks env (Stop_Closed # es) l = Ret l"
| "reload_ticks env (Tick now rd1 rd2 # es) l =
     obind (try_reload env now rd1 rd2 l) (\<lambda>(l', ns). reload_ticks env es l')"

definition reload_loop :: "file_env \<Rightarrow> loop_event list \<Rightarrow> loader \<Rightarrow> loader outcome" where
  "reload_loop env es l = (if ld_poll l \<le> 0 then Panic Non_Positive_Ticker else reload_ticks env es l)"

lemmas loader_defs = load_from_file_def file_checksum_def load_initial_def apply_config_def try_reload_def
  active_config_def

section \<open>The last good configuration\<close>

text \<open>With files only, the active configuration is always one that validation accepted.\<close>

definition good_loader :: "loader \<Rightarrow> bool" where
  "good_loader l \<longleftrightarrow> ld_checksum l \<noteq> None \<and> (\<exists>c. ld_active l = Some c \<and> validate c = Ret None \<and> config_wf c \<and> config_text c)"

inductive reload_step :: "loader \<Rightarrow> loader \<Rightarrow> bool" where
  rs_tick: "try_reload env now rd1 rd2 l = Ret (l', ns) \<Longrightarrow> reload_step l l'"
| rs_stop: "stop_loader l = Ret l' \<Longrightarrow> reload_step l l'"

inductive_cases reload_stepE: "reload_step l l'"

lemma load_from_file_wf: "load_from_file rd = Inr c \<Longrightarrow> config_wf c \<and> config_text c"
  by (auto simp: load_from_file_def unmarshal_def bind_eq_Some_conv dest: decode_config_wf decode_config_text parse_json_ok
      split: sum.splits option.splits)

lemma load_initial_good:
  "load_initial env now rd1 rd2 l = Ret (None, l', ns) \<Longrightarrow> good_loader l'"
  by (auto simp: load_initial_def good_loader_def dest: load_from_file_wf split: sum.splits option.splits)

lemma try_reload_cases:
  assumes "try_reload env now rd1 rd2 l = Ret (l', ns)"
  shows "l' = l \<or> (\<exists>c digest. validate c = Ret None \<and> config_wf c \<and> config_text c \<and> load_from_file rd2 = Inr c
    \<and> l' = l\<lparr>ld_active := Some c, ld_source := Some Source_File, ld_checksum := Some digest, ld_reload := Some now\<rparr>)"
  using assms by (auto simp: try_reload_def dest: load_from_file_wf split: sum.splits option.splits if_splits)

lemma reload_step_good: "reload_step l l' \<Longrightarrow> good_loader l \<Longrightarrow> good_loader l'"
  by (elim reload_stepE)
    (auto simp: good_loader_def stop_loader_def dest!: try_reload_cases split: if_splits)

interpretation loaders: invariant_system
    "\<lambda>l. \<exists>env now rd1 rd2 path poll ns. load_initial env now rd1 rd2 (new_loader path poll) = Ret (None, l, ns)"
    reload_step good_loader
  by unfold_locales (auto intro: load_initial_good reload_step_good)

lemma reload_ticks_good: "reload_ticks env es l = Ret l' \<Longrightarrow> good_loader l \<Longrightarrow> good_loader l'"
  by (induction env es l rule: reload_ticks.induct) (auto dest: reload_step_good [OF rs_tick])

text \<open>
  Property C8. A loader that only reads files serves, in every reachable state, a configuration that
  validation accepted; a reload that cannot read, parse or validate the file leaves the
  loader as it was, and the next tick tries again.
\<close>

theorem last_good_config_kept:
  assumes "reach (\<lambda>l. \<exists>env now rd1 rd2 path poll ns.
      load_initial env now rd1 rd2 (new_loader path poll) = Ret (None, l, ns)) reload_step l"
  shows "(\<exists>c. active_config l = Ret c \<and> valid_config c) \<and>
    (\<forall>env now rd1 rd2 l' ns. try_reload env now rd1 rd2 l = Ret (l', ns) \<longrightarrow>
      l' = l \<or> (\<exists>c. load_from_file rd2 = Inr c \<and> valid_config c \<and> active_config l' = Ret c))"
proof -
  have "good_loader l" by (rule loaders.reach_inv [OF assms])
  then have "\<exists>c. active_config l = Ret c \<and> valid_config c"
    using validate_iff by (auto simp: good_loader_def active_config_def)
  moreover have "l' = l \<or> (\<exists>c. load_from_file rd2 = Inr c \<and> valid_config c \<and> active_config l' = Ret c)"
    if t: "try_reload env now rd1 rd2 l = Ret (l', ns)" for env now rd1 rd2 l' ns
    using try_reload_cases [OF t] validate_iff by (auto simp: active_config_def)
  ultimately show ?thesis by blast
qed


text \<open>Two files for samples, with a legacy configuration each, and a checksum that tells all files apart.\<close>

definition legacy_json :: "string \<Rightarrow> (string \<times> json) list \<Rightarrow> json" where
  "legacy_json v table = JObj [(''version'', JStr v), (''routingTable'', JObj table),
     (''cellEndpoints'', JObj ((''tier3'', JStr ''http://cell-tier3:9003'') #
       (if table = [] then [] else [(''visa'', JStr ''http://cell-visa:9004'')]))),
     (''defaultPlacement'', JStr ''tier3'')]"

definition old_file :: string where
  "old_file = print_json (legacy_json ''1'' [(''visa'', JStr ''visa'')])"

definition new_file :: string where
  "new_file = print_json (legacy_json ''2'' [])"

definition sample_files :: file_env where
  "sample_files = \<lparr>fe_sha256 = (\<lambda>bytes. bytes)\<rparr>"

lemma fe_sample [simp]: "fe_sha256 sample_files bytes = bytes"
  by (simp add: sample_files_def)

definition sample_config :: "string \<Rightarrow> (string \<times> string) list \<Rightarrow> config" where
  "sample_config v table = \<lparr>version = v, routing_table = Some table,
     cell_endpoints = Some ((''tier3'', ''http://cell-tier3:9003'') #
       (if table = [] then [] else [(''visa'', ''http://cell-visa:9004'')])),
     placements = None, default_placement = ''tier3''\<rparr>"

lemma load_printed:
  "text_ok j \<Longrightarrow> depth j \<le> max_nesting \<Longrightarrow> decode_config j = Some c \<Longrightarrow> load_from_file (Inr (print_json j)) = Inr c"
  by (simp add: load_from_file_def unmarshal_print)

lemma sample_files_load [simp]:
  "load_from_file (Inr old_file) = Inr (sample_config ''1'' [(''visa'', ''visa'')])"
  "load_from_file (Inr new_file) = Inr (sample_config ''2'' [])"
  unfolding old_file_def new_file_def
  by (rule load_printed; simp add: legacy_json_def max_nesting_def decode_config_def config_fields_def zero_config_def
      json_eval decode_string_map_def decode_map_def sample_config_def)+

lemma torn_file_load [simp]: "load_from_file (Inr ''{'') = Inl Parse_Failed"
  by (simp add: load_from_file_def unmarshal_def parse_json_def is_space_def next_token_def punctuation_def
      begin_value_def max_nesting_def)

lemma sample_files_differ [simp]: "old_file \<noteq> new_file" "new_file \<noteq> old_file" "''{'' \<noteq> old_file" "old_file \<noteq> ''{''"
proof -
  have "load_from_file (Inr old_file) \<noteq> load_from_file (Inr new_file)" by (simp add: sample_config_def)
  then show "old_file \<noteq> new_file" "new_file \<noteq> old_file" by metis+
  have "load_from_file (Inr old_file) \<noteq> load_from_file (Inr ''{'')" by simp
  then show "''{'' \<noteq> old_file" "old_file \<noteq> ''{''" by metis+
qed

lemma sample_configs_valid [simp]:
  "validate (sample_config ''1'' [(''visa'', ''visa'')]) = Ret None" "validate (sample_config ''2'' []) = Ret None"
  by (simp_all add: validate_def sample_config_def get_cell_endpoints_def url_eval)

definition sample_loader :: loader where
  "sample_loader = \<lparr>ld_path = ''routing.json'', ld_active = Some (sample_config ''1'' [(''visa'', ''visa'')]),
     ld_source = Some Source_File, ld_checksum = Some old_file, ld_reload = Some 5, ld_poll = 5 * second, ld_stopped = False\<rparr>"

definition sample_loader_new :: loader where
  "sample_loader_new = sample_loader\<lparr>ld_active := Some (sample_config ''2'' []), ld_checksum := Some new_file, ld_reload := Some 9\<rparr>"

lemma sample_loader_initial:
  "load_initial sample_files 5 (Inr old_file) (Inr old_file) (new_loader ''routing.json'' (5 * second))
     = Ret (None, sample_loader, [Loaded_Initial ''1''])"
  by (simp add: load_initial_def file_checksum_def new_loader_def sample_loader_def)
    (simp add: sample_config_def)

lemma sample_loader_reload:
  "try_reload sample_files 9 (Inr new_file) (Inr new_file) sample_loader = Ret (sample_loader_new, [Reloaded ''2''])"
  by (simp add: try_reload_def file_checksum_def sample_loader_def sample_loader_new_def)
    (simp add: sample_config_def)

lemma sample_loader_reach:
  "reach (\<lambda>l. \<exists>env now rd1 rd2 path poll ns. load_initial env now rd1 rd2 (new_loader path poll) = Ret (None, l, ns))
     reload_step sample_loader"
  using sample_loader_initial by (blast intro: reach_init)

theorem last_good_config_kept_witness:
  "try_reload sample_files 7 (Inr ''{'') (Inr ''{'') sample_loader = Ret (sample_loader, [Reload_Failed Parse_Failed])
   \<and> (\<exists>c. active_config sample_loader = Ret c \<and> valid_config c)"
proof -
  have "try_reload sample_files 7 (Inr ''{'') (Inr ''{'') sample_loader = Ret (sample_loader, [Reload_Failed Parse_Failed])"
    by (simp add: try_reload_def file_checksum_def sample_loader_def)
  with last_good_config_kept [OF sample_loader_reach] show ?thesis by blast
qed

section \<open>The two reads of one load\<close>

lemma unchanged_checksum:
  assumes "ld_checksum l = Some (fe_sha256 env bytes)"
  shows "try_reload env now (Inr bytes) rd2 l = Ret (l, [])"
  using assms by (simp add: try_reload_def file_checksum_def)

text \<open>
  When the file is replaced between the two reads of \<open>LoadInitial\<close>, the loader serves the
  old configuration under the checksum of the new one: the reload loop never loads the new
  contents, for any number of ticks, until the file changes again.
\<close>

theorem initial_load_race_sticks:
  assumes "load_initial env now (Inr old) (Inr new) l0 = Ret (None, l, ns)" "load_from_file (Inr old) = Inr c"
  shows "active_config l = Ret c
    \<and> reload_ticks env (map (\<lambda>t. Tick t (Inr new) (Inr new)) ts) l = Ret l"
proof -
  have l: "ld_active l = Some c" "ld_checksum l = Some (fe_sha256 env new)"
    using assms by (auto simp: load_initial_def file_checksum_def split: option.splits)
  have "reload_ticks env (map (\<lambda>t. Tick t (Inr new) (Inr new)) ts) l = Ret l"
    by (induction ts) (simp_all add: unchanged_checksum [OF l(2)])
  with l show ?thesis by (simp add: active_config_def)
qed

theorem initial_load_race_sticks_witness:
  "\<exists>l ns. load_initial sample_files 5 (Inr old_file) (Inr new_file) (new_loader ''routing.json'' (5 * second)) = Ret (None, l, ns)
    \<and> reload_ticks sample_files [Tick 10 (Inr new_file) (Inr new_file), Tick 15 (Inr new_file) (Inr new_file)] l = Ret l
    \<and> active_config l = Ret (sample_config ''1'' [(''visa'', ''visa'')])"
proof -
  obtain l ns where l: "load_initial sample_files 5 (Inr old_file) (Inr new_file) (new_loader ''routing.json'' (5 * second)) = Ret (None, l, ns)"
    by (simp add: load_initial_def file_checksum_def)
  from initial_load_race_sticks [OF l sample_files_load(1), of "[10, 15]"] l show ?thesis by simp
qed

section \<open>The loader as the router's provider\<close>

definition loader_provider :: "loader provider" where
  "loader_provider = \<lparr>get_table = loader_table, get_endpoints = loader_endpoints, get_default = loader_default\<rparr>"

text \<open>The getters read the legacy map only, so the contract holds for configurations in that format.\<close>

definition serves_legacy :: "loader \<Rightarrow> bool" where
  "serves_legacy l \<longleftrightarrow> (\<exists>c. ld_active l = Some c \<and> valid_config c \<and> entries (cell_endpoints c) \<noteq> [])"

definition served_config :: "loader \<Rightarrow> config" where
  "served_config l = (case ld_active l of None \<Rightarrow> zero_config | Some c \<Rightarrow> c)"

interpretation dynamic: config_provider loader_provider serves_legacy
    "\<lambda>l. routing_table (served_config l)" "\<lambda>l. cell_endpoints (served_config l)" "\<lambda>l. default_placement (served_config l)"
  by unfold_locales (auto simp: loader_provider_def serves_legacy_def served_config_def loader_table_def
      loader_endpoints_def loader_default_def active_config_def valid_config_def endpoint_of_def)

lemma route_placements_format:
  assumes "ld_active l = Some c" "entries (cell_endpoints c) = []"
  shows "route loader_provider l l l key = Ret (Inl (No_Endpoint (placement_for (routing_table c) (default_placement c) key)))"
  using assms by (simp add: route_def loader_provider_def loader_table_def loader_endpoints_def loader_default_def
      active_config_def decide_spec lookup_def)

text \<open>
  Property C36. The three getters of one \<open>Route\<close> call are not one snapshot: when the configuration is
  swapped between the first and the second, a key that both configurations can route fails if the new
  one no longer has the placement that the old one gave it.
\<close>

theorem swap_during_route_fails:
  assumes "good_loader l1" "good_loader l2" "ld_active l1 = Some c1" "ld_active l2 = Some c2"
    and "entries (cell_endpoints c1) \<noteq> []" "entries (cell_endpoints c2) \<noteq> []"
    and "key \<noteq> []" "lookup (routing_table c1) key = Some p" "lookup (cell_endpoints c2) p = None"
  shows "(\<exists>d. route loader_provider l1 l1 l1 key = Ret (Inr d))
    \<and> (\<exists>d. route loader_provider l2 l2 l2 key = Ret (Inr d))
    \<and> route loader_provider l1 l2 l2 key = Ret (Inl (No_Endpoint p))"
proof -
  have "valid_config c1" "valid_config c2"
    using assms(1-4) validate_iff by (auto simp: good_loader_def)
  then have "serves_legacy l1" "serves_legacy l2" using assms(3-6) by (simp_all add: serves_legacy_def)
  moreover have "route loader_provider l1 l2 l2 key = Ret (Inl (No_Endpoint p))"
    using assms(3,4,7-9) by (simp add: route_def loader_provider_def loader_table_def loader_endpoints_def
        loader_default_def active_config_def decide_spec placement_for_def)
  ultimately show ?thesis
    using dynamic.route_stable_total by blast
qed

lemma sample_loaders_good [simp]: "good_loader sample_loader" "good_loader sample_loader_new"
proof -
  show "good_loader sample_loader" by (rule loaders.reach_inv [OF sample_loader_reach])
  then show "good_loader sample_loader_new"
    using reload_step_good rs_tick sample_loader_reload by blast
qed

theorem swap_during_route_fails_witness:
  "reload_step sample_loader sample_loader_new
   \<and> route loader_provider sample_loader sample_loader_new sample_loader_new ''visa'' = Ret (Inl (No_Endpoint ''visa''))"
proof -
  have "route loader_provider sample_loader sample_loader_new sample_loader_new ''visa'' = Ret (Inl (No_Endpoint ''visa''))"
    using swap_during_route_fails [OF sample_loaders_good, of "sample_config ''1'' [(''visa'', ''visa'')]"
        "sample_config ''2'' []" "''visa''" "''visa''"]
    by (simp add: sample_loader_def sample_loader_new_def sample_config_def)
  then show ?thesis using rs_tick [OF sample_loader_reload] by simp
qed

end
