(* ===== verification/Data_Plane.thy ===== *)
theory Data_Plane
  imports Loader
begin

text \<open>
  \<open>internal/dataplane/client.go\<close>: the handling of messages from the control plane, the reconnection with
  exponential backoff, and the interplay of the connection goroutine with \<open>Stop\<close> as a step
  relation. The websocket library only supplies what a dial and the reads yield.
\<close>

section \<open>Messages\<close>

text \<open>The bytes of a message.\<close>

type_synonym wire = string

datatype client_note = Bad_Message | Unknown_Type string | Bad_Snapshot | Received string | Apply_Failed string
  | Applied string | Reply_Failed

text \<open>\<open>sendAck\<close> and \<open>sendNack\<close>: nothing without a connection; the version is always empty.\<close>

definition send_ack :: "nat option \<Rightarrow> wire list" where
  "send_ack conn = (case conn of None \<Rightarrow> [] | Some c \<Rightarrow> [print_json (encode_message \<lparr>msg_type = type_ack, msg_version = []\<rparr>)])"

definition send_nack :: "nat option \<Rightarrow> string \<Rightarrow> wire list" where
  "send_nack conn why = (case conn of None \<Rightarrow> []
     | Some c \<Rightarrow> [print_json (encode_nack \<lparr>msg_type = type_nack, msg_version = [], nack_error = why\<rparr>)])"

definition config_of_snapshot :: "snapshot \<Rightarrow> config" where
  "config_of_snapshot s = \<lparr>version = sn_version s, routing_table = sn_routing_table s,
     cell_endpoints = sn_cell_endpoints s, placements = None, default_placement = sn_default_placement s\<rparr>"

text \<open>\<open>err_text\<close> is the text of the decoding error of a message.\<close>

definition handle_config_snapshot ::
    "(wire \<Rightarrow> string) \<Rightarrow> instant \<Rightarrow> nat option \<Rightarrow> wire \<Rightarrow> loader \<Rightarrow> loader \<times> wire list \<times> client_note list" where
  "handle_config_snapshot err_text now conn w l =
     (case unmarshal decode_snapshot w of None \<Rightarrow> (l, send_nack conn (err_text w), [Bad_Snapshot])
      | Some s \<Rightarrow>
        (case apply_config now (config_of_snapshot s) l of
           (Some e, l') \<Rightarrow> (l', send_nack conn e, [Received (sn_version s), Apply_Failed e])
         | (None, l') \<Rightarrow> (l', send_ack conn, [Received (sn_version s), Applied (sn_version s)])))"

definition handle_message ::
    "(wire \<Rightarrow> string) \<Rightarrow> instant \<Rightarrow> nat option \<Rightarrow> wire \<Rightarrow> loader \<Rightarrow> loader \<times> wire list \<times> client_note list" where
  "handle_message err_text now conn w l =
     (case unmarshal decode_message w of None \<Rightarrow> (l, [], [Bad_Message])
      | Some m \<Rightarrow> if msg_type m = type_snapshot then handle_config_snapshot err_text now conn w l
          else (l, [], [Unknown_Type (msg_type m)]))"

text \<open>The messages of one connection, with the times they arrive at, until a read fails.\<close>

fun handle_messages ::
    "(wire \<Rightarrow> string) \<Rightarrow> nat option \<Rightarrow> (instant \<times> wire) list \<Rightarrow> loader \<Rightarrow> loader \<times> wire list" where
  "handle_messages err_text None ws l = (l, [])"
| "handle_messages err_text (Some c) [] l = (l, [])"
| "handle_messages err_text (Some c) ((now, w) # ws) l =
     (let (l1, out, ns) = handle_message err_text now (Some c) w l;
          (l2, outs) = handle_messages err_text (Some c) ws l1
      in (l2, out @ outs))"

lemma handle_snapshot:
  assumes "unmarshal decode_snapshot w = Some s"
  shows "handle_message err_text now conn w l = (if sn_type s = type_snapshot
    then (snd (apply_config now (config_of_snapshot s) l), send_ack conn, [Received (sn_version s), Applied (sn_version s)])
    else (l, [], [Unknown_Type (sn_type s)]))"
proof -
  from assms have "unmarshal decode_message w = Some \<lparr>msg_type = sn_type s, msg_version = sn_version s\<rparr>"
    by (auto simp: unmarshal_def bind_eq_Some_conv dest: decode_snapshot_base)
  with assms show ?thesis by (simp add: handle_message_def handle_config_snapshot_def apply_config_def)
qed

lemma handle_other:
  "unmarshal decode_snapshot w = None \<Longrightarrow> handle_message err_text now (Some c) w l = (l', out, ns) \<Longrightarrow>
   l' = l \<and> set out \<subseteq> set (send_nack (Some c) (err_text w))"
  by (auto simp: handle_message_def handle_config_snapshot_def send_nack_def split: option.splits if_splits)

text \<open>
  Property C37. For any bytes that arrive: they become the active configuration exactly if they read as a snapshot of
  type \<open>config_snapshot\<close>, and are then acknowledged, with an empty version. Nothing validates them:
  the previous configuration and all placements are gone, whether or not \<open>Validate\<close> accepts the new one. All
  other bytes leave the loader as it was and are at most rejected.
\<close>

theorem snapshot_applied_unvalidated:
  assumes "handle_message err_text now (Some c) w l = (l', out, ns)"
  shows "case unmarshal decode_snapshot w of
      None \<Rightarrow> l' = l \<and> set out \<subseteq> {print_json (encode_nack \<lparr>msg_type = type_nack, msg_version = [], nack_error = err_text w\<rparr>)}
    | Some s \<Rightarrow> if sn_type s = type_snapshot
        then ld_active l' = Some (config_of_snapshot s) \<and> get_config_source l' = Source_Control_Plane
          \<and> out = [print_json (encode_message \<lparr>msg_type = type_ack, msg_version = []\<rparr>)]
        else l' = l \<and> out = []"
  using assms handle_other [of w err_text now c l l' out ns]
  by (auto simp: handle_snapshot apply_config_def send_ack_def send_nack_def get_config_source_def split: option.split)

definition empty_snapshot :: wire where
  "empty_snapshot = print_json (JObj [(''type'', JStr type_snapshot)])"

lemma empty_snapshot_reads: "unmarshal dec empty_snapshot = dec (JObj [(''type'', JStr type_snapshot)])"
  by (simp add: empty_snapshot_def unmarshal_print type_snapshot_def max_nesting_def del: print_json.simps)

theorem snapshot_applied_unvalidated_witness:
  "\<exists>l' out ns c. handle_message (\<lambda>_. []) 7 (Some 0) empty_snapshot sample_loader = (l', out, ns)
    \<and> out = [print_json (encode_message \<lparr>msg_type = type_ack, msg_version = []\<rparr>)]
    \<and> ld_active l' = Some c \<and> validate c = Ret (Some Version_Empty)"
proof -
  let ?s = "\<lparr>sn_type = type_snapshot, sn_version = [], sn_routing_table = None, sn_cell_endpoints = None, sn_default_placement = []\<rparr>"
  have s: "unmarshal decode_snapshot empty_snapshot = Some ?s"
    by (simp add: empty_snapshot_reads decode_snapshot_def snapshot_fields_def json_eval)
  have v: "validate (config_of_snapshot ?s) = Ret (Some Version_Empty)"
    by (simp add: validate_def config_of_snapshot_def)
  obtain l' out ns where h: "handle_message (\<lambda>_. []) 7 (Some 0) empty_snapshot sample_loader = (l', out, ns)"
    by (metis prod_cases3)
  from snapshot_applied_unvalidated [OF h] s v show ?thesis
    by (intro exI [of _ l'] exI [of _ out] exI [of _ ns] exI [of _ "config_of_snapshot ?s"]) (simp add: h)
qed

section \<open>Reconnecting\<close>

definition max_backoff :: duration where
  "max_backoff = 60 * second"

definition next_backoff :: "duration \<Rightarrow> duration" where
  "next_backoff b = (if max_backoff < 2 * b then max_backoff else 2 * b)"

text \<open>The loop without \<open>Stop\<close>: each attempt fails or is a session; the durations it sleeps for, its replies.\<close>

datatype attempt = Dial_Error | Session nat "(instant \<times> wire) list"

fun connection_loop ::
    "(wire \<Rightarrow> string) \<Rightarrow> duration \<Rightarrow> attempt list \<Rightarrow> loader \<Rightarrow> duration list \<times> wire list \<times> loader" where
  "connection_loop err_text b [] l = ([], [], l)"
| "connection_loop err_text b (Dial_Error # as) l =
     (let (sleeps, outs, l') = connection_loop err_text (next_backoff b) as l in (b # sleeps, outs, l'))"
| "connection_loop err_text b (Session c ws # as) l =
     (let (l1, out) = handle_messages err_text (Some c) ws l;
          (sleeps, outs, l') = connection_loop err_text second as l1
      in (sleeps, out @ outs, l'))"

lemma next_backoff_pow: "next_backoff (min (2 ^ i * second) max_backoff) = min (2 ^ Suc i * second) max_backoff"
  by (simp add: next_backoff_def max_backoff_def min_def)

lemma failures_backoff:
  "connection_loop err_text (min (2 ^ i * second) max_backoff) (replicate n Dial_Error) l
     = (map (\<lambda>k. min (2 ^ k * second) max_backoff) [i..<i + n], [], l)"
proof (induction n arbitrary: i)
  case (Suc n)
  have "[i..<i + Suc n] = i # [Suc i..<Suc i + n]" by (simp add: upt_rec)
  with Suc [of "Suc i"] show ?case
    by (simp add: next_backoff_pow del: power_Suc upt_Suc)
qed simp

lemma connection_loop_append:
  "connection_loop err_text b (as @ Session c ws # bs) l =
     (let (s1, o1, l1) = connection_loop err_text b as l; (l2, o2) = handle_messages err_text (Some c) ws l1;
          (s3, o3, l3) = connection_loop err_text second bs l2
      in (s1 @ s3, o1 @ o2 @ o3, l3))"
proof (induction as arbitrary: b l)
  case (Cons a as)
  then show ?case by (cases a) (simp_all add: Let_def split: prod.split)
qed (simp add: Let_def split: prod.split)

text \<open>
  Property C38. After \<open>n\<close> failures in a row the client has slept for 1, 2, 4, ... seconds, never
  more than 60 at a time, and a connection starts the sequence again from one second, however
  short it was; the configuration stays what the last session left.
\<close>

theorem backoff_schedule:
  "connection_loop err_text second (replicate n Dial_Error @ Session c ws # replicate k Dial_Error) l
     = (map (\<lambda>i. min (2 ^ i * second) max_backoff) [0..<n] @ map (\<lambda>i. min (2 ^ i * second) max_backoff) [0..<k],
        snd (handle_messages err_text (Some c) ws l), fst (handle_messages err_text (Some c) ws l))"
  using failures_backoff [of err_text 0 n l] failures_backoff [of err_text 0 k "fst (handle_messages err_text (Some c) ws l)"]
  by (cases "handle_messages err_text (Some c) ws l") (simp add: connection_loop_append max_backoff_def)

section \<open>Stopping\<close>

text \<open>
  Where the connection goroutine and a call of \<open>Stop\<close> are. \<open>Dialing\<close> is the only place where a
  goroutine holds the mutex over a blocking call; the other critical sections are single steps. Reading
  a message changes nothing here, and only the peer can make one arrive.
\<close>

datatype loop_place = Check_Stop | Check_Reconnect | Connect | Dialing | Sleeping | Reading | Exited
datatype stop_place = Not_Called | Close_Channel | Wait_Done | Returned

record client =
  cl_loop :: loop_place
  cl_stop :: stop_place
  cl_reconnect :: bool
  cl_stop_ch :: bool
  cl_conn :: "nat option"
  cl_open :: "nat set"
  cl_backoff :: duration
  cl_fresh :: nat

definition new_client :: client where
  "new_client = \<lparr>cl_loop = Check_Stop, cl_stop = Not_Called, cl_reconnect = True, cl_stop_ch = False,
     cl_conn = None, cl_open = {}, cl_backoff = second, cl_fresh = 0\<rparr>"

inductive loop_step :: "client \<Rightarrow> client \<Rightarrow> bool" where
  ls_stopped: "cl_loop c = Check_Stop \<Longrightarrow> cl_stop_ch c \<Longrightarrow> loop_step c (c\<lparr>cl_loop := Exited\<rparr>)"
| ls_running: "cl_loop c = Check_Stop \<Longrightarrow> \<not> cl_stop_ch c \<Longrightarrow> loop_step c (c\<lparr>cl_loop := Check_Reconnect\<rparr>)"
| ls_reconnect: "cl_loop c = Check_Reconnect \<Longrightarrow> cl_reconnect c \<Longrightarrow> loop_step c (c\<lparr>cl_loop := Connect\<rparr>)"
| ls_no_reconnect: "cl_loop c = Check_Reconnect \<Longrightarrow> \<not> cl_reconnect c \<Longrightarrow> loop_step c (c\<lparr>cl_loop := Exited\<rparr>)"
| ls_lock: "cl_loop c = Connect \<Longrightarrow> loop_step c (c\<lparr>cl_loop := Dialing\<rparr>)"
| ls_dial_failed: "cl_loop c = Dialing \<Longrightarrow> loop_step c (c\<lparr>cl_loop := Sleeping\<rparr>)"
| ls_dialed: "cl_loop c = Dialing \<Longrightarrow> loop_step c (c\<lparr>cl_loop := Reading, cl_conn := Some (cl_fresh c),
    cl_open := insert (cl_fresh c) (cl_open c), cl_backoff := second, cl_fresh := Suc (cl_fresh c)\<rparr>)"
| ls_slept: "cl_loop c = Sleeping \<Longrightarrow> loop_step c (c\<lparr>cl_loop := Check_Stop, cl_backoff := next_backoff (cl_backoff c)\<rparr>)"
| ls_read_failed: "cl_loop c = Reading \<Longrightarrow> cl_conn c = Some n \<Longrightarrow> n \<notin> cl_open c \<Longrightarrow> loop_step c (c\<lparr>cl_loop := Check_Stop\<rparr>)"

inductive stop_step :: "client \<Rightarrow> client \<Rightarrow> bool" where
  st_lock: "cl_stop c = Not_Called \<Longrightarrow> cl_loop c \<noteq> Dialing \<Longrightarrow> stop_step c (c\<lparr>cl_stop := Close_Channel,
    cl_reconnect := False, cl_open := (case cl_conn c of None \<Rightarrow> cl_open c | Some n \<Rightarrow> cl_open c - {n})\<rparr>)"
| st_close: "cl_stop c = Close_Channel \<Longrightarrow> stop_step c (c\<lparr>cl_stop := Wait_Done, cl_stop_ch := True\<rparr>)"
| st_done: "cl_stop c = Wait_Done \<Longrightarrow> cl_loop c = Exited \<Longrightarrow> stop_step c (c\<lparr>cl_stop := Returned\<rparr>)"

text \<open>The control plane or the network ends a connection.\<close>

inductive peer_step :: "client \<Rightarrow> client \<Rightarrow> bool" where
  ps_closed: "n \<in> cl_open c \<Longrightarrow> peer_step c (c\<lparr>cl_open := cl_open c - {n}\<rparr>)"

definition own_step :: "client \<Rightarrow> client \<Rightarrow> bool" where
  "own_step c c' \<longleftrightarrow> loop_step c c' \<or> stop_step c c'"

definition client_step :: "client \<Rightarrow> client \<Rightarrow> bool" where
  "client_step c c' \<longleftrightarrow> own_step c c' \<or> peer_step c c'"

inductive_cases loop_stepE: "loop_step c c'"
inductive_cases stop_stepE: "stop_step c c'"
inductive_cases peer_stepE: "peer_step c c'"
lemmas client_step_elims = loop_stepE stop_stepE peer_stepE

text \<open>The process is waiting for a connection that nobody on its side will close.\<close>

definition stuck_stopping :: "client \<Rightarrow> bool" where
  "stuck_stopping c \<longleftrightarrow> cl_stop c = Wait_Done \<and> cl_loop c = Reading \<and> (\<exists>n. cl_conn c = Some n \<and> n \<in> cl_open c)"

lemma stuck_no_own_step: "stuck_stopping c \<Longrightarrow> \<not> own_step c c'"
  by (auto simp: stuck_stopping_def own_step_def elim!: loop_stepE stop_stepE)

definition client_run :: "client \<Rightarrow> client \<Rightarrow> bool" where
  "client_run = client_step\<^sup>*\<^sup>*"

text \<open>
  Property C16. \<open>Stop\<close> can wait for ever: when it runs after the loop has looked at \<open>reconnect\<close> but
  before it holds the mutex to dial, the loop connects all the same and reads from a
  connection that \<open>Stop\<close> did not close; then neither goroutine gets any further until the peer ends the connection.
\<close>

theorem stop_can_hang:
  "\<exists>c. client_run new_client c \<and> stuck_stopping c \<and> (\<forall>c'. \<not> own_step c c')"
proof -
  let ?c1 = "new_client\<lparr>cl_loop := Check_Reconnect\<rparr>"
  let ?c2 = "?c1\<lparr>cl_loop := Connect\<rparr>"
  let ?c3 = "?c2\<lparr>cl_stop := Close_Channel, cl_reconnect := False, cl_open := {}\<rparr>"
  let ?c4 = "?c3\<lparr>cl_stop := Wait_Done, cl_stop_ch := True\<rparr>"
  let ?c5 = "?c4\<lparr>cl_loop := Dialing\<rparr>"
  let ?c6 = "?c5\<lparr>cl_loop := Reading, cl_conn := Some 0, cl_open := {0}, cl_backoff := second, cl_fresh := 1\<rparr>"
  have "client_step new_client ?c1" "client_step ?c1 ?c2"
    using ls_running [of new_client] ls_reconnect [of ?c1] by (simp_all add: client_step_def own_step_def new_client_def)
  moreover have "client_step ?c2 ?c3" "client_step ?c3 ?c4"
    using st_lock [of ?c2] st_close [of ?c3] by (simp_all add: client_step_def own_step_def new_client_def)
  moreover have "client_step ?c4 ?c5" "client_step ?c5 ?c6"
    using ls_lock [of ?c4] ls_dialed [of ?c5] by (simp_all add: client_step_def own_step_def new_client_def)
  ultimately have "client_run new_client ?c6"
    unfolding client_run_def by (meson converse_rtranclp_into_rtranclp rtranclp.rtrancl_refl)
  moreover have "stuck_stopping ?c6" by (simp add: stuck_stopping_def)
  ultimately show ?thesis using stuck_no_own_step by blast
qed

text \<open>A stop that is not in this race: the loop is not about to dial, and its connection is closed.\<close>

definition stopping :: "client \<Rightarrow> bool" where
  "stopping c \<longleftrightarrow> cl_stop c \<noteq> Not_Called \<and> \<not> cl_reconnect c \<and> cl_loop c \<noteq> Connect \<and> cl_loop c \<noteq> Dialing
     \<and> (cl_stop c = Wait_Done \<or> cl_stop c = Returned \<longrightarrow> cl_stop_ch c)
     \<and> (cl_loop c = Reading \<longrightarrow> (\<exists>n. cl_conn c = Some n \<and> n \<notin> cl_open c))"

fun loop_rank :: "loop_place \<Rightarrow> nat" where
  "loop_rank Exited = 0" | "loop_rank Check_Reconnect = 1" | "loop_rank Check_Stop = 2"
| "loop_rank Sleeping = 3" | "loop_rank Reading = 3" | "loop_rank Connect = 4" | "loop_rank Dialing = 5"

fun stop_rank :: "stop_place \<Rightarrow> nat" where
  "stop_rank Not_Called = 3" | "stop_rank Close_Channel = 2" | "stop_rank Wait_Done = 1" | "stop_rank Returned = 0"

definition stop_measure :: "client \<Rightarrow> nat" where
  "stop_measure c = loop_rank (cl_loop c) + stop_rank (cl_stop c)"

interpretation stop: terminating_system stopping own_step stopping stop_measure "\<lambda>c. cl_stop c = Returned"
proof
  fix c c'
  assume "own_step c c'" "stopping c"
  then show "stopping c'" "stop_measure c' < stop_measure c"
    by (auto simp: own_step_def stopping_def stop_measure_def elim!: loop_stepE stop_stepE)
next
  fix c
  assume "stopping c" "cl_stop c \<noteq> Returned"
  then show "\<exists>c'. own_step c c'"
    unfolding own_step_def stopping_def
    by (cases "cl_stop c"; cases "cl_loop c") (blast intro: loop_step.intros stop_step.intros)+
qed

text \<open>
  Property C15. A call of \<open>Stop\<close> that takes the mutex while the loop is anywhere but on its way to a dial
  ends the client: it never dials again, no run of the two goroutines is longer than five steps
  after it, and every run that cannot go on has returned.
\<close>

theorem stop_terminates:
  assumes "cl_stop c = Not_Called" "cl_loop c \<notin> {Connect, Dialing}" "cl_loop c = Reading \<longrightarrow> cl_conn c \<noteq> None"
    and "stop_step c c1" "(own_step ^^ n) c1 c'"
  shows "cl_loop c' \<noteq> Dialing \<and> n \<le> 5 \<and> ((\<forall>c''. \<not> own_step c' c'') \<longrightarrow> cl_stop c' = Returned)"
proof -
  have c1: "stopping c1" "stop_measure c1 \<le> 5"
    using assms(1-4) by (auto simp: stopping_def stop_measure_def elim!: stop_stepE)
      (cases "cl_loop c"; simp)+
  have c': "stopping c'" "n \<le> 5" using stop.run_bounded [OF assms(5) c1(1)] c1(2) by simp_all
  have "cl_loop c' \<noteq> Dialing" using c'(1) by (simp add: stopping_def)
  with c' stop.end_is_final [OF c'(1)] show ?thesis by blast
qed

theorem stop_terminates_witness:
  "\<exists>c'. own_step\<^sup>*\<^sup>* (new_client\<lparr>cl_stop := Close_Channel, cl_reconnect := False\<rparr>) c' \<and> cl_stop c' = Returned"
proof -
  let ?c1 = "new_client\<lparr>cl_stop := Close_Channel, cl_reconnect := False\<rparr>"
  let ?c2 = "?c1\<lparr>cl_stop := Wait_Done, cl_stop_ch := True\<rparr>" let ?c3 = "?c2\<lparr>cl_loop := Exited\<rparr>"
  let ?c4 = "?c3\<lparr>cl_stop := Returned\<rparr>"
  have s: "stop_step new_client ?c1" using st_lock [of new_client] by (simp add: new_client_def)
  have "own_step ?c1 ?c2" "own_step ?c2 ?c3" "own_step ?c3 ?c4"
    using st_close [of ?c1] ls_stopped [of ?c2] st_done [of ?c3] by (simp_all add: own_step_def new_client_def)
  then have r: "(own_step ^^ 3) ?c1 ?c4" by (auto simp: numeral_3_eq_3 relcompp_apply)
  have "cl_stop ?c4 = Returned"
    using stop_terminates [OF _ _ _ s r] stuck_no_own_step by (simp add: new_client_def)
  with r show ?thesis by (meson relpowp_imp_rtranclp)
qed

end
