(* ===== verification/Control_Plane.thy ===== *)
theory Control_Plane
  imports Data_Plane
begin

text \<open>
  \<open>internal/controlplane/server.go\<close>: the registered connections, the snapshot sent to a new one, the
  broadcast when the watcher sees another version, and the messages that come back. The
  websocket library only supplies whether a write succeeds.
\<close>

section \<open>Operations\<close>

text \<open>\<open>clients\<close> is a set of connections, kept as the list a \<open>range\<close> loop visits.\<close>

record server =
  sv_clients :: "nat list"
  sv_closed :: "nat list"

definition new_server :: server where
  "new_server = \<lparr>sv_clients = [], sv_closed = []\<rparr>"

definition register_client :: "nat \<Rightarrow> server \<Rightarrow> server" where
  "register_client conn s = s\<lparr>sv_clients := List.insert conn (sv_clients s)\<rparr>"

definition unregister_client :: "nat \<Rightarrow> server \<Rightarrow> server" where
  "unregister_client conn s = s\<lparr>sv_clients := removeAll conn (sv_clients s), sv_closed := conn # sv_closed s\<rparr>"

definition snapshot_of_config :: "config \<Rightarrow> snapshot" where
  "snapshot_of_config c = \<lparr>sn_type = type_snapshot, sn_version = version c, sn_routing_table = routing_table c,
     sn_cell_endpoints = cell_endpoints c, sn_default_placement = default_placement c\<rparr>"

text \<open>The bytes of the message, the same for a broadcast and a new connection.\<close>

definition snapshot_bytes :: "config \<Rightarrow> wire" where
  "snapshot_bytes c = print_json (encode_snapshot (snapshot_of_config c))"

datatype server_note = Pushed string nat | Push_Failed nat | Sent_Initial string | Send_Failed
  | Parse_Error | Acknowledged string | Rejected string string

text \<open>The loop over the clients; \<open>accepts\<close> tells whether a write to a connection succeeds.\<close>

fun push_all :: "(nat \<Rightarrow> bool) \<Rightarrow> string \<Rightarrow> wire \<Rightarrow> nat list \<Rightarrow> (nat \<times> wire) list \<times> server_note list" where
  "push_all accepts v data [] = ([], [])"
| "push_all accepts v data (c # cs) =
     (let (out, ns) = push_all accepts v data cs
      in if accepts c then ((c, data) # out, Pushed v c # ns) else (out, Push_Failed c # ns))"

definition broadcast_config ::
    "(nat \<Rightarrow> bool) \<Rightarrow> loader \<Rightarrow> server \<Rightarrow> ((nat \<times> wire) list \<times> server_note list) outcome" where
  "broadcast_config accepts l s = omap (\<lambda>cfg.
     push_all accepts (version cfg) (snapshot_bytes cfg) (sv_clients s)) (active_config l)"

definition send_config_to_client ::
    "(nat \<Rightarrow> bool) \<Rightarrow> loader \<Rightarrow> nat \<Rightarrow> ((nat \<times> wire) list \<times> server_note list) outcome" where
  "send_config_to_client accepts l conn = omap (\<lambda>cfg.
     if accepts conn then ([(conn, snapshot_bytes cfg)], [Sent_Initial (version cfg)])
     else ([], [Send_Failed])) (active_config l)"

text \<open>An acknowledgement or rejection is only printed.\<close>

definition handle_data_plane_message :: "wire \<Rightarrow> server_note list" where
  "handle_data_plane_message w =
     (case unmarshal decode_message w of None \<Rightarrow> [Parse_Error]
      | Some m \<Rightarrow>
        if msg_type m = type_ack then
          (case unmarshal decode_message w of None \<Rightarrow> [] | Some a \<Rightarrow> [Acknowledged (msg_version a)])
        else if msg_type m = type_nack then
          (case unmarshal decode_nack w of None \<Rightarrow> [] | Some n \<Rightarrow> [Rejected (msg_version n) (nack_error n)])
        else [])"

text \<open>The frames of a connection until a read fails: text frames are handled, others skipped.\<close>

datatype frame = Text_Frame wire | Other_Frame

fun read_frames :: "frame list \<Rightarrow> server_note list" where
  "read_frames [] = []"
| "read_frames (Text_Frame w # fs) = handle_data_plane_message w @ read_frames fs"
| "read_frames (Other_Frame # fs) = read_frames fs"

definition handle_connection ::
    "(nat \<Rightarrow> bool) \<Rightarrow> loader \<Rightarrow> nat \<Rightarrow> frame list \<Rightarrow> server
     \<Rightarrow> ((nat \<times> wire) list \<times> server_note list) outcome \<times> server" where
  "handle_connection accepts l conn frames s =
     (let s1 = register_client conn s;
          res = omap (\<lambda>(out, ns). (out, ns @ read_frames frames)) (send_config_to_client accepts l conn)
      in (res, unregister_client conn s1))"

text \<open>One tick of \<open>WatchConfigChanges\<close>: the loader when the version is read, and when the broadcast reads it.\<close>

definition watch_tick ::
    "(nat \<Rightarrow> bool) \<Rightarrow> loader \<Rightarrow> loader \<Rightarrow> server \<Rightarrow> string \<Rightarrow> ((nat \<times> wire) list \<times> string) outcome" where
  "watch_tick accepts l1 l2 s last_version =
     obind (get_config_version l1) (\<lambda>current.
       if current \<noteq> last_version
       then omap (\<lambda>(out, ns). (out, current)) (broadcast_config accepts l2 s)
       else Ret ([], last_version))"

lemma push_all_writes: "fst (push_all accepts v data cs) = map (\<lambda>c. (c, data)) (filter accepts cs)"
  by (induction cs) (simp_all add: split_beta)

lemma frames_append: "read_frames (fs @ gs) = read_frames fs @ read_frames gs"
  by (induction fs rule: read_frames.induct) simp_all

lemma watch_tick_result:
  assumes "active_config l = Ret c"
  shows "watch_tick accepts l l s last_version = Ret (if version c = last_version then [] else
    map (\<lambda>conn. (conn, snapshot_bytes c)) (filter accepts (sv_clients s)), version c)"
proof -
  let ?push = "push_all accepts (version c) (snapshot_bytes c) (sv_clients s)"
  have "fst ?push = map (\<lambda>conn. (conn, snapshot_bytes c)) (filter accepts (sv_clients s))"
    by (rule push_all_writes)
  then show ?thesis
    using assms by (cases ?push) (simp add: watch_tick_def get_config_version_def broadcast_config_def)
qed

text \<open>
  Property C19. A tick of the watcher sends the active configuration to every registered connection
  that takes it, once, exactly if its version differs from the version of the last tick; a change of
  the contents under the same version is never sent.
\<close>

theorem watch_sends_version_changes:
  assumes "active_config l = Ret c" "distinct (sv_clients s)" "watch_tick accepts l l s last_version = Ret (out, v)"
  shows "v = version c
    \<and> (\<forall>conn j. (conn, j) \<in> set out \<longleftrightarrow> version c \<noteq> last_version \<and> conn \<in> set (sv_clients s) \<and> accepts conn
        \<and> j = snapshot_bytes c)
    \<and> distinct (map fst out)
    \<and> (\<forall>l' c'. active_config l' = Ret c' \<longrightarrow> version c' = version c \<longrightarrow> watch_tick accepts l' l' s v = Ret ([], v))"
  using assms(2,3) by (auto simp: watch_tick_result [OF assms(1)] watch_tick_result comp_def split: if_splits)

theorem watch_sends_version_changes_witness:
  "\<exists>out. watch_tick (\<lambda>_. True) sample_loader sample_loader \<lparr>sv_clients = [3, 4], sv_closed = []\<rparr> ''0'' = Ret (out, ''1'')
     \<and> (4, snapshot_bytes (sample_config ''1'' [(''visa'', ''visa'')])) \<in> set out"
proof -
  let ?s = "\<lparr>sv_clients = [3, 4], sv_closed = []\<rparr>" and ?c = "sample_config ''1'' [(''visa'', ''visa'')]"
  have a: "active_config sample_loader = Ret ?c" by (simp add: active_config_def sample_loader_def)
  have v: "version ?c = ''1''" by (simp add: sample_config_def)
  obtain out where w: "watch_tick (\<lambda>_. True) sample_loader sample_loader ?s ''0'' = Ret (out, ''1'')"
    by (simp add: watch_tick_result [OF a] v)
  from watch_sends_version_changes [OF a _ w] w show ?thesis by (simp add: v)
qed

section \<open>The server and its goroutines\<close>

text \<open>
  The loader with its reload loop, the watcher, and one goroutine per connection, which registers the
  connection, then reads the configuration, then writes it. \<open>cp_wire\<close> is what was written, in order; \<open>cp_last\<close> is
  the watcher's last version, nothing before its goroutine has read the first, and \<open>cp_tick\<close> how far it is
  within a tick: it reads the version, then \<open>BroadcastConfig\<close> reads the configuration (from the loader kept here), then it writes
  to the connections under the lock; the others go on in between. Every write may fail.
\<close>

datatype watch_phase = Waiting | Changed string | Sending string loader

record control_plane =
  cp_loader :: loader
  cp_server :: server
  cp_last :: "string option"
  cp_tick :: watch_phase
  cp_registered :: "nat list"
  cp_pending :: "(nat \<times> wire) list"
  cp_wire :: "(nat \<times> wire) list"

definition start_control_plane :: "loader \<Rightarrow> control_plane" where
  "start_control_plane l = \<lparr>cp_loader = l, cp_server = new_server, cp_last = None, cp_tick = Waiting, cp_registered = [],
     cp_pending = [], cp_wire = []\<rparr>"

inductive control_step :: "control_plane \<Rightarrow> control_plane \<Rightarrow> bool" where
  cs_reload: "reload_step (cp_loader s) l \<Longrightarrow> control_step s (s\<lparr>cp_loader := l\<rparr>)"
| cs_register: "conn \<notin> set (sv_clients (cp_server s)) \<Longrightarrow> conn \<notin> set (sv_closed (cp_server s)) \<Longrightarrow>
    control_step s (s\<lparr>cp_server := register_client conn (cp_server s), cp_registered := conn # cp_registered s\<rparr>)"
| cs_read: "conn \<in> set (cp_registered s) \<Longrightarrow> active_config (cp_loader s) = Ret c \<Longrightarrow>
    control_step s (s\<lparr>cp_registered := removeAll conn (cp_registered s),
      cp_pending := (conn, snapshot_bytes c) # cp_pending s\<rparr>)"
| cs_write: "(conn, j) \<in> set (cp_pending s) \<Longrightarrow>
    control_step s (s\<lparr>cp_pending := removeAll (conn, j) (cp_pending s), cp_wire := cp_wire s @ [(conn, j)]\<rparr>)"
| cs_write_failed: "(conn, j) \<in> set (cp_pending s) \<Longrightarrow>
    control_step s (s\<lparr>cp_pending := removeAll (conn, j) (cp_pending s)\<rparr>)"
| cs_watch: "cp_last s = None \<Longrightarrow> get_config_version (cp_loader s) = Ret v \<Longrightarrow> control_step s (s\<lparr>cp_last := Some v\<rparr>)"
| cs_tick: "cp_last s = Some u \<Longrightarrow> cp_tick s = Waiting \<Longrightarrow> get_config_version (cp_loader s) = Ret v \<Longrightarrow> v \<noteq> u \<Longrightarrow>
    control_step s (s\<lparr>cp_tick := Changed v\<rparr>)"
| cs_fetch: "cp_tick s = Changed v \<Longrightarrow> control_step s (s\<lparr>cp_tick := Sending v (cp_loader s)\<rparr>)"
| cs_broadcast: "cp_tick s = Sending v l \<Longrightarrow> broadcast_config accepts l (cp_server s) = Ret (out, ns) \<Longrightarrow>
    control_step s (s\<lparr>cp_last := Some v, cp_tick := Waiting, cp_wire := cp_wire s @ out\<rparr>)"
| cs_disconnect: "conn \<in> set (sv_clients (cp_server s)) \<Longrightarrow>
    conn \<notin> set (cp_registered s) \<Longrightarrow> conn \<notin> fst ` set (cp_pending s) \<Longrightarrow>
    control_step s (s\<lparr>cp_server := unregister_client conn (cp_server s)\<rparr>)"

inductive_cases control_stepE: "control_step s s'"

text \<open>A tick is \<open>watch_tick\<close>, with the loader as it is at its two reads, when the server does not change meanwhile.\<close>

lemma watch_tick_steps:
  assumes "cp_last s = Some u" "cp_tick s = Waiting" "reload_step\<^sup>*\<^sup>* (cp_loader s) l"
    and "watch_tick accepts (cp_loader s) l (cp_server s) u = Ret (out, v)"
  shows "control_step\<^sup>*\<^sup>* s (s\<lparr>cp_loader := l, cp_last := Some v, cp_wire := cp_wire s @ out\<rparr>)"
proof -
  obtain w where w: "get_config_version (cp_loader s) = Ret w"
    using assms(4) by (cases "get_config_version (cp_loader s)") (auto simp: watch_tick_def)
  have reload: "control_step\<^sup>*\<^sup>* t (t\<lparr>cp_loader := l\<rparr>)" if "reload_step\<^sup>*\<^sup>* (cp_loader t) l" for t
    using that
  proof (induction rule: rtranclp_induct)
    case base
    then show ?case by simp
  next
    case (step l1 l2)
    have "control_step (t\<lparr>cp_loader := l1\<rparr>) (t\<lparr>cp_loader := l1\<rparr>\<lparr>cp_loader := l2\<rparr>)"
      using step(2) by (intro cs_reload) simp
    with step(3) show ?case by (simp add: rtranclp.rtrancl_into_rtrancl)
  qed
  show ?thesis
  proof (cases "w = u")
    case True
    then have "out = []" "v = u" using assms(4) w by (auto simp: watch_tick_def)
    moreover have "s\<lparr>cp_loader := l, cp_last := Some u\<rparr> = s\<lparr>cp_loader := l\<rparr>"
      using assms(1) by (cases s) simp
    ultimately show ?thesis using reload [OF assms(3)] by simp
  next
    case False
    then obtain ns where out: "v = w" "broadcast_config accepts l (cp_server s) = Ret (out, ns)"
      using assms(4) w by (cases "broadcast_config accepts l (cp_server s)") (auto simp: watch_tick_def)
    let ?s1 = "s\<lparr>cp_tick := Changed w\<rparr>" let ?s2 = "?s1\<lparr>cp_loader := l\<rparr>" let ?s3 = "?s2\<lparr>cp_tick := Sending w l\<rparr>"
    have "control_step s ?s1" using assms(1,2) w False by (intro cs_tick) auto
    moreover have "control_step\<^sup>*\<^sup>* ?s1 ?s2" using reload [of ?s1] assms(3) by simp
    moreover have "control_step ?s2 ?s3" using cs_fetch [of ?s2 w] by simp
    moreover have "control_step ?s3 (s\<lparr>cp_loader := l, cp_last := Some v, cp_tick := Waiting, cp_wire := cp_wire s @ out\<rparr>)"
      using cs_broadcast [of ?s3 w l accepts out ns] out by simp
    moreover have "s\<lparr>cp_loader := l, cp_last := Some v, cp_tick := Waiting, cp_wire := cp_wire s @ out\<rparr>
        = s\<lparr>cp_loader := l, cp_last := Some v, cp_wire := cp_wire s @ out\<rparr>"
      using assms(2) by (cases s) simp
    ultimately show ?thesis
      by (metis converse_rtranclp_into_rtranclp rtranclp.rtrancl_into_rtrancl)
  qed
qed

text \<open>What a connection received last.\<close>

definition last_sent :: "control_plane \<Rightarrow> nat \<Rightarrow> wire option" where
  "last_sent s conn = map_of (rev (cp_wire s)) conn"

text \<open>The clients are a set: no connection is registered twice, and none after it was closed.\<close>

definition control_inv :: "control_plane \<Rightarrow> bool" where
  "control_inv s \<longleftrightarrow> good_loader (cp_loader s) \<and> distinct (sv_clients (cp_server s))
     \<and> set (sv_clients (cp_server s)) \<inter> set (sv_closed (cp_server s)) = {}
     \<and> set (cp_registered s) \<union> fst ` set (cp_pending s) \<subseteq> set (sv_clients (cp_server s))"

lemma control_step_inv: "control_step s s' \<Longrightarrow> control_inv s \<Longrightarrow> control_inv s'"
  by (elim control_stepE)
    (auto simp: control_inv_def register_client_def unregister_client_def distinct_removeAll reload_step_good)

lemma control_inv_start: "good_loader l \<Longrightarrow> control_inv (start_control_plane l)"
  by (simp add: control_inv_def start_control_plane_def new_server_def)

interpretation control: invariant_system "\<lambda>s. \<exists>l. good_loader l \<and> s = start_control_plane l"
    control_step control_inv
proof unfold_locales
  fix s
  assume "\<exists>l. good_loader l \<and> s = start_control_plane l"
  then show "control_inv s" using control_inv_start by blast
qed (rule control_step_inv)

text \<open>A connection reads the configuration, the file changes, the watcher broadcasts, the connection writes.\<close>

lemma late_write_run:
  assumes "active_config l = Ret c" "active_config l' = Ret c'" "reload_step l l'" "version c' \<noteq> version c"
  defines "j \<equiv> snapshot_bytes c" and "j' \<equiv> snapshot_bytes c'"
  shows "control_step\<^sup>*\<^sup>* (start_control_plane l) \<lparr>cp_loader = l', cp_server = \<lparr>sv_clients = [n], sv_closed = []\<rparr>,
    cp_last = Some (version c'), cp_tick = Waiting, cp_registered = [], cp_pending = [], cp_wire = [(n, j'), (n, j)]\<rparr>"
proof -
  let ?sv = "\<lparr>sv_clients = [n], sv_closed = []\<rparr>" and ?v = "Some (version c)" and ?v' = "Some (version c')"
  let ?s0 = "\<lparr>cp_loader = l, cp_server = new_server, cp_last = ?v, cp_tick = Waiting, cp_registered = [], cp_pending = [], cp_wire = []\<rparr>"
  let ?s1 = "\<lparr>cp_loader = l, cp_server = ?sv, cp_last = ?v, cp_tick = Waiting, cp_registered = [n], cp_pending = [], cp_wire = []\<rparr>"
  let ?s2 = "\<lparr>cp_loader = l, cp_server = ?sv, cp_last = ?v, cp_tick = Waiting, cp_registered = [], cp_pending = [(n, j)], cp_wire = []\<rparr>"
  let ?s3 = "\<lparr>cp_loader = l', cp_server = ?sv, cp_last = ?v, cp_tick = Waiting, cp_registered = [], cp_pending = [(n, j)], cp_wire = []\<rparr>"
  let ?s4 = "\<lparr>cp_loader = l', cp_server = ?sv, cp_last = ?v', cp_tick = Waiting, cp_registered = [], cp_pending = [(n, j)], cp_wire = [(n, j')]\<rparr>"
  let ?s5 = "\<lparr>cp_loader = l', cp_server = ?sv, cp_last = ?v', cp_tick = Waiting, cp_registered = [], cp_pending = [], cp_wire = [(n, j'), (n, j)]\<rparr>"
  have "control_step (start_control_plane l) ?s0"
    using cs_watch [of "start_control_plane l" "version c"] assms(1) by (simp add: start_control_plane_def get_config_version_def)
  moreover have "control_step ?s0 ?s1"
    using cs_register [of n ?s0] by (simp add: new_server_def register_client_def)
  moreover have "control_step ?s1 ?s2"
    using cs_read [of n ?s1 c] assms(1) by (simp add: j_def)
  moreover have "control_step ?s2 ?s3"
    using cs_reload [of ?s2 l'] assms(3) by simp
  moreover have "control_step\<^sup>*\<^sup>* ?s3 ?s4"
    using watch_tick_steps [of ?s3 "version c" l' "\<lambda>_. True" "[(n, j')]" "version c'"] assms(4)
    by (simp add: watch_tick_result [OF assms(2)] j'_def)
  moreover have "control_step ?s4 ?s5"
    using cs_write [of n j ?s4] by simp
  ultimately show ?thesis
    by (meson converse_rtranclp_into_rtranclp rtranclp.rtrancl_into_rtrancl)
qed

text \<open>
  Property C20. A data plane can be left with an old configuration: a connection that read the
  configuration before a reload can write it after the broadcast of the new one. The watcher has seen the
  new version, so it sends nothing more until the version changes again.
\<close>

theorem initial_snapshot_can_be_stale:
  "\<exists>s l c_old c_new conn v. good_loader l \<and> active_config l = Ret c_old
    \<and> control_step\<^sup>*\<^sup>* (start_control_plane l) s
    \<and> conn \<in> set (sv_clients (cp_server s)) \<and> cp_pending s = [] \<and> cp_registered s = []
    \<and> active_config (cp_loader s) = Ret c_new \<and> version c_new \<noteq> version c_old
    \<and> last_sent s conn = Some (snapshot_bytes c_old) \<and> cp_last s = Some v \<and> cp_tick s = Waiting
    \<and> watch_tick (\<lambda>_. True) (cp_loader s) (cp_loader s) (cp_server s) v = Ret ([], v)"
proof -
  define c_old where "c_old = sample_config ''1'' [(''visa'', ''visa'')]"
  define c_new where "c_new = sample_config ''2'' []"
  have old: "active_config sample_loader = Ret c_old" and new: "active_config sample_loader_new = Ret c_new"
    by (simp_all add: active_config_def sample_loader_def sample_loader_new_def c_old_def c_new_def)
  have v: "version c_new \<noteq> version c_old" by (simp add: c_old_def c_new_def sample_config_def)
  note run = late_write_run [OF old new rs_tick [OF sample_loader_reload] v, of 0]
  let ?s = "\<lparr>cp_loader = sample_loader_new, cp_server = \<lparr>sv_clients = [0], sv_closed = []\<rparr>,
    cp_last = Some (version c_new), cp_tick = Waiting, cp_registered = [], cp_pending = [],
    cp_wire = [(0, snapshot_bytes c_new), (0, snapshot_bytes c_old)]\<rparr>"
  have "last_sent ?s 0 = Some (snapshot_bytes c_old)" by (simp add: last_sent_def)
  moreover have "watch_tick (\<lambda>_. True) (cp_loader ?s) (cp_loader ?s) (cp_server ?s) (version c_new) = Ret ([], version c_new)"
    by (simp add: watch_tick_result [OF new])
  ultimately show ?thesis
    using run old new v sample_loaders_good(1)
    by (intro exI [of _ ?s] exI [of _ sample_loader] exI [of _ c_old] exI [of _ c_new] exI [of _ 0] exI [of _ "version c_new"]) simp
qed

end
