(* ===== verification/System.thy ===== *)
theory System
  imports Control_Plane
begin

text \<open>
  The control plane together with its data planes: what a data plane makes of a snapshot, and the
  composition of both sides over the messages in transit, as one step relation.
\<close>

section \<open>One message\<close>

lemma snapshot_of_config_fields [simp]:
  "sn_type (snapshot_of_config c) = type_snapshot" "sn_version (snapshot_of_config c) = version c"
  "sn_routing_table (snapshot_of_config c) = routing_table c" "sn_cell_endpoints (snapshot_of_config c) = cell_endpoints c"
  "sn_default_placement (snapshot_of_config c) = default_placement c"
  by (simp_all add: snapshot_of_config_def)

text \<open>What a data plane makes of the snapshot of a configuration: the legacy part, maps sorted, no placements.\<close>

definition delivered :: "config \<Rightarrow> config" where
  "delivered c = c\<lparr>routing_table := sorted_map (routing_table c), cell_endpoints := sorted_map (cell_endpoints c),
     placements := None\<rparr>"

lemma handle_snapshot_of_config:
  assumes "config_wf c" "config_text c"
  shows "handle_message err_text now (Some conn) (snapshot_bytes c) l =
    (snd (apply_config now (delivered c) l), send_ack (Some conn), [Received (version c), Applied (version c)])"
proof -
  have wf: "gomap_wf (sn_routing_table (snapshot_of_config c))" "gomap_wf (sn_cell_endpoints (snapshot_of_config c))"
    using assms(1) by (simp_all add: config_wf_def)
  have strings: "snapshot_text (snapshot_of_config c)"
    using assms(2) by (simp add: snapshot_text_def config_text_def) (simp add: type_snapshot_def)
  show ?thesis
    by (simp add: handle_message_def handle_config_snapshot_def snapshot_bytes_def unmarshal_snapshot [OF strings]
        decode_encoded_message decode_encoded_snapshot [OF wf] config_of_snapshot_def delivered_def apply_config_def)
qed

lemma decide_sorted:
  "gomap_wf table \<Longrightarrow> gomap_wf eps \<Longrightarrow> decide (sorted_map table) (sorted_map eps) dflt key = decide table eps dflt key"
  by (simp add: decide_def)

lemma route_active:
  "ld_active l = Some c \<Longrightarrow> route loader_provider l l l key =
    Ret (decide (routing_table c) (cell_endpoints c) (default_placement c) key)"
  by (simp add: route_def loader_provider_def loader_table_def loader_endpoints_def loader_default_def active_config_def)

lemma delivered_valid:
  assumes "config_wf c" "valid_config c" "entries (cell_endpoints c) \<noteq> []"
  shows "config_wf (delivered c) \<and> valid_config (delivered c)"
proof -
  have e: "endpoint_of (delivered c) k = endpoint_of c k" for k
    using assms by (simp add: endpoint_of_def delivered_def config_wf_def)
  have "set (entries (sorted_map m)) = set (entries m)" for m :: "(string, string) gomap"
    by (cases m) (simp_all add: sorted_map_def)
  with assms e show ?thesis
    by (simp add: valid_config_def config_wf_def) (simp add: delivered_def)
qed

text \<open>The configurations that a control plane on files may serve.\<close>

definition served_by_files :: "config \<Rightarrow> bool" where
  "served_by_files c \<longleftrightarrow> config_wf c \<and> config_text c \<and> validate c = Ret None"

lemma good_loader_serves: "good_loader l \<Longrightarrow> \<exists>c. ld_active l = Some c \<and> served_by_files c"
  by (auto simp: good_loader_def served_by_files_def)

lemma handle_served:
  "served_by_files c \<Longrightarrow> handle_message err_text now (Some conn) (snapshot_bytes c) l =
    (snd (apply_config now (delivered c) l), send_ack (Some conn), [Received (version c), Applied (version c)])"
  by (simp add: served_by_files_def handle_snapshot_of_config)

section \<open>The control plane and its data planes\<close>

text \<open>
  A data plane with a control plane has its file's configuration until the first snapshot; \<open>dp_read\<close> counts
  the messages it has read of its current connection. \<open>fl_replies\<close> is what the data planes have written
  back, in order, and \<open>fl_served\<close> the configurations that the control plane's loader has had.
\<close>

record plane =
  dp_file :: config
  dp_loader :: loader
  dp_conn :: "nat option"
  dp_read :: nat

record fleet =
  fl_control :: control_plane
  fl_planes :: "plane list"
  fl_replies :: "(nat \<times> wire) list"
  fl_served :: "config set"

definition start_plane :: "loader \<Rightarrow> config \<Rightarrow> plane" where
  "start_plane l c = \<lparr>dp_file = c, dp_loader = l, dp_conn = None, dp_read = 0\<rparr>"

text \<open>The messages written to a connection.\<close>

definition inbox :: "control_plane \<Rightarrow> nat \<Rightarrow> wire list" where
  "inbox k conn = map snd (filter (\<lambda>m. fst m = conn) (cp_wire k))"

definition served_now :: "control_plane \<Rightarrow> config set" where
  "served_now k = (case ld_active (cp_loader k) of None \<Rightarrow> {} | Some c \<Rightarrow> {c})"

text \<open>The configuration that a broadcast on its way has read.\<close>

definition in_flight :: "control_plane \<Rightarrow> config set" where
  "in_flight k = (case cp_tick k of
     Sending v l \<Rightarrow> (case ld_active l of None \<Rightarrow> {} | Some c \<Rightarrow> {c}) | _ \<Rightarrow> {})"

definition start_fleet :: "loader \<Rightarrow> (loader \<times> config) list \<Rightarrow> fleet" where
  "start_fleet l ps = \<lparr>fl_control = start_control_plane l, fl_planes = map (\<lambda>(l, c). start_plane l c) ps,
     fl_replies = [], fl_served = served_now (start_control_plane l)\<rparr>"

text \<open>A connection that some data plane has, or had before, is not dialed again; other clients may connect too.\<close>

inductive fleet_step :: "fleet \<Rightarrow> fleet \<Rightarrow> bool" where
  fs_control: "control_step (fl_control s) k \<Longrightarrow>
    fleet_step s (s\<lparr>fl_control := k, fl_served := fl_served s \<union> served_now k\<rparr>)"
| fs_dial: "i < length (fl_planes s) \<Longrightarrow> p = fl_planes s ! i \<Longrightarrow> dp_conn p = None \<Longrightarrow>
    conn \<notin> set (sv_clients (cp_server (fl_control s))) \<union> set (sv_closed (cp_server (fl_control s))) \<Longrightarrow>
    Some conn \<notin> dp_conn ` set (fl_planes s) \<Longrightarrow>
    fleet_step s (s\<lparr>fl_planes := (fl_planes s)[i := p\<lparr>dp_conn := Some conn, dp_read := 0\<rparr>]\<rparr>)"
| fs_receive: "i < length (fl_planes s) \<Longrightarrow> p = fl_planes s ! i \<Longrightarrow> dp_conn p = Some conn \<Longrightarrow>
    dp_read p < length (inbox (fl_control s) conn) \<Longrightarrow>
    handle_message err_text now (dp_conn p) (inbox (fl_control s) conn ! dp_read p) (dp_loader p) = (l, out, ns) \<Longrightarrow>
    fleet_step s (s\<lparr>fl_planes := (fl_planes s)[i := p\<lparr>dp_loader := l, dp_read := Suc (dp_read p)\<rparr>],
      fl_replies := fl_replies s @ map (Pair conn) out\<rparr>)"
| fs_drop: "i < length (fl_planes s) \<Longrightarrow> p = fl_planes s ! i \<Longrightarrow>
    fleet_step s (s\<lparr>fl_planes := (fl_planes s)[i := p\<lparr>dp_conn := None\<rparr>]\<rparr>)"

inductive_cases fleet_stepE: "fleet_step s t"

lemma control_step_messages:
  assumes "control_step k k'"
  shows "\<exists>out. cp_wire k' = cp_wire k @ out
    \<and> set out \<union> set (cp_pending k') \<subseteq> set (cp_pending k) \<union> {(conn, snapshot_bytes c) |conn c. c \<in> served_now k \<union> in_flight k}"
  using assms
proof cases
  case (cs_broadcast v l accepts out ns)
  then obtain c where c: "ld_active l = Some c"
    by (cases "ld_active l") (simp_all add: broadcast_config_def active_config_def)
  then have "out = fst (push_all accepts (version c) (snapshot_bytes c) (sv_clients (cp_server k)))"
    using cs_broadcast(3) by (simp add: broadcast_config_def active_config_def)
  with cs_broadcast c show ?thesis by (auto simp: push_all_writes in_flight_def)
qed (auto simp: served_now_def active_config_def split: option.splits)

lemma control_step_in_flight: "control_step k k' \<Longrightarrow> in_flight k' \<subseteq> served_now k \<union> in_flight k"
  by (elim control_stepE) (auto simp: in_flight_def served_now_def)

lemma inbox_append: "cp_wire k' = cp_wire k @ out \<Longrightarrow> \<exists>ms. inbox k' conn = inbox k conn @ ms"
  by (simp add: inbox_def)

lemma last_sent_inbox: "last_sent k conn = (if inbox k conn = [] then None else Some (last (inbox k conn)))"
proof -
  have "map_of (rev ms) conn = (if filter (\<lambda>m. fst m = conn) ms = [] then None
      else Some (last (map snd (filter (\<lambda>m. fst m = conn) ms))))" for ms :: "(nat \<times> wire) list"
    by (induction ms rule: rev_induct) (auto simp: last_map)
  then show ?thesis by (simp add: last_sent_def inbox_def)
qed

definition acknowledgement :: wire where
  "acknowledgement = print_json (encode_message \<lparr>msg_type = type_ack, msg_version = []\<rparr>)"

text \<open>The plane has its file's configuration or what some served one is delivered as; once it has read, the last read.\<close>

definition plane_inv :: "control_plane \<Rightarrow> config set \<Rightarrow> plane \<Rightarrow> bool" where
  "plane_inv k served p \<longleftrightarrow> served_by_files (dp_file p)
     \<and> (ld_active (dp_loader p) = Some (dp_file p) \<or> (\<exists>c\<in>served. ld_active (dp_loader p) = Some (delivered c)))
     \<and> (\<forall>conn. dp_conn p = Some conn \<longrightarrow> dp_read p \<le> length (inbox k conn)
         \<and> (\<forall>n. dp_read p = Suc n \<longrightarrow>
             (\<exists>c\<in>served. inbox k conn ! n = snapshot_bytes c \<and> ld_active (dp_loader p) = Some (delivered c))))"

definition fleet_inv :: "fleet \<Rightarrow> bool" where
  "fleet_inv s \<longleftrightarrow> control_inv (fl_control s) \<and> served_now (fl_control s) \<union> in_flight (fl_control s) \<subseteq> fl_served s
     \<and> (\<forall>c\<in>fl_served s. served_by_files c)
     \<and> snd ` (set (cp_wire (fl_control s)) \<union> set (cp_pending (fl_control s))) \<subseteq> snapshot_bytes ` fl_served s
     \<and> (\<forall>p\<in>set (fl_planes s). plane_inv (fl_control s) (fl_served s) p)
     \<and> snd ` set (fl_replies s) \<subseteq> {acknowledgement}"

lemma plane_inv_control:
  assumes "plane_inv k served p" "cp_wire k' = cp_wire k @ out" "served \<subseteq> served'"
  shows "plane_inv k' served' p"
proof -
  have app: "\<exists>ms. inbox k' conn = inbox k conn @ ms" for conn by (rule inbox_append [OF assms(2)])
  have len: "length (inbox k conn) \<le> length (inbox k' conn)" for conn
    using app [of conn] by auto
  have nth: "inbox k' conn ! n = inbox k conn ! n" if "n < length (inbox k conn)" for conn n
    using app [of conn] that by (auto simp: nth_append)
  have "dp_read p \<le> length (inbox k' conn) \<and> (\<forall>n. dp_read p = Suc n \<longrightarrow>
      (\<exists>c\<in>served'. inbox k' conn ! n = snapshot_bytes c \<and> ld_active (dp_loader p) = Some (delivered c)))"
    if "dp_conn p = Some conn" for conn
  proof -
    have "dp_read p \<le> length (inbox k conn)" using assms(1) that by (simp add: plane_inv_def)
    with len [of conn] nth [of _ conn] assms(1,3) that show ?thesis
      by (auto simp: plane_inv_def) blast+
  qed
  with assms(1,3) show ?thesis by (auto simp: plane_inv_def)
qed

lemma plane_receives:
  assumes "plane_inv k served p" "dp_conn p = Some conn" "dp_read p < length (inbox k conn)"
    and "c \<in> served" "served_by_files c" "inbox k conn ! dp_read p = snapshot_bytes c"
    and "handle_message err_text now (dp_conn p) (inbox k conn ! dp_read p) (dp_loader p) = (l, out, ns)"
  shows "plane_inv k served (p\<lparr>dp_loader := l, dp_read := Suc (dp_read p)\<rparr>) \<and> set out \<subseteq> {acknowledgement}"
proof -
  have l: "ld_active l = Some (delivered c)" and out: "out = [acknowledgement]"
    using assms(7) unfolding assms(2,6) handle_served [OF assms(5)]
    by (auto simp: apply_config_def send_ack_def acknowledgement_def)
  have "served_by_files (dp_file p)" using assms(1) by (simp add: plane_inv_def)
  with l out assms(2-4,6) show ?thesis by (auto simp: plane_inv_def)
qed

lemma inbox_written: "i < length (inbox k conn) \<Longrightarrow> inbox k conn ! i \<in> snd ` set (cp_wire k)"
proof -
  assume "i < length (inbox k conn)"
  then have "inbox k conn ! i \<in> set (inbox k conn)" by (rule nth_mem)
  then show ?thesis by (auto simp: inbox_def)
qed

lemma served_now_good: "good_loader (cp_loader k) \<Longrightarrow> c \<in> served_now k \<Longrightarrow> served_by_files c"
  using good_loader_serves by (force simp: served_now_def split: option.splits)

lemma fleet_control_inv:
  assumes "fleet_inv s" "control_step (fl_control s) k"
  shows "fleet_inv (s\<lparr>fl_control := k, fl_served := fl_served s \<union> served_now k\<rparr>)"
proof -
  obtain out where out: "cp_wire k = cp_wire (fl_control s) @ out" "set out \<union> set (cp_pending k)
      \<subseteq> set (cp_pending (fl_control s)) \<union> {(conn, snapshot_bytes c) |conn c. c \<in> served_now (fl_control s) \<union> in_flight (fl_control s)}"
    using control_step_messages [OF assms(2)] by blast
  have k: "control_inv k" using assms control_step_inv by (auto simp: fleet_inv_def)
  let ?sent = "snapshot_bytes ` fl_served s"
  have old: "snd ` set (cp_wire (fl_control s)) \<subseteq> ?sent" "snd ` set (cp_pending (fl_control s)) \<subseteq> ?sent"
    and source: "served_now (fl_control s) \<union> in_flight (fl_control s) \<subseteq> fl_served s"
    using assms(1) by (simp_all add: fleet_inv_def image_Un)
  have "snd m \<in> ?sent" if "m \<in> set out \<union> set (cp_pending k)" for m
    using subsetD [OF out(2) that] old(2) source by auto
  then have "snd ` (set out \<union> set (cp_pending k)) \<subseteq> ?sent" by (rule image_subsetI)
  with old(1) have "snd ` (set (cp_wire k) \<union> set (cp_pending k)) \<subseteq> snapshot_bytes ` (fl_served s \<union> served_now k)"
    unfolding out(1) image_Un set_append by (metis Un_assoc Un_least Un_subset_iff sup.coboundedI1)
  moreover have "\<forall>c\<in>served_now k. served_by_files c"
    using k served_now_good by (auto simp: control_inv_def)
  moreover have "plane_inv k (fl_served s \<union> served_now k) p" if "p \<in> set (fl_planes s)" for p
    by (rule plane_inv_control [OF _ out(1)]) (use assms(1) that in \<open>auto simp: fleet_inv_def\<close>)
  moreover have "in_flight k \<subseteq> fl_served s"
    using control_step_in_flight [OF assms(2)] assms(1) by (auto simp: fleet_inv_def)
  ultimately show ?thesis using assms(1) k by (auto simp: fleet_inv_def)
qed

lemma fleet_plane_inv:
  assumes "fleet_inv s" "plane_inv (fl_control s) (fl_served s) p" "snd ` set rs \<subseteq> {acknowledgement}"
  shows "fleet_inv (s\<lparr>fl_planes := (fl_planes s)[i := p], fl_replies := fl_replies s @ rs\<rparr>)"
  using assms set_update_subset_insert [of "fl_planes s" i p] by (auto simp: fleet_inv_def image_Un)

lemma fleet_step_inv:
  assumes "fleet_step s t" "fleet_inv s"
  shows "fleet_inv t"
  using assms(1)
proof cases
  case (fs_control k)
  then show ?thesis using fleet_control_inv [OF assms(2)] by simp
next
  case (fs_dial i p conn)
  have "plane_inv (fl_control s) (fl_served s) (p\<lparr>dp_conn := Some conn, dp_read := 0\<rparr>)"
    using assms(2) fs_dial(2,3) nth_mem [of i "fl_planes s"] by (auto simp: fleet_inv_def plane_inv_def)
  from fleet_plane_inv [OF assms(2) this, of "[]" i] show ?thesis by (simp add: fs_dial(1))
next
  case (fs_receive i p conn err_text now l out ns)
  have p: "plane_inv (fl_control s) (fl_served s) p"
    using assms(2) fs_receive(2,3) by (auto simp: fleet_inv_def)
  have "inbox (fl_control s) conn ! dp_read p \<in> snapshot_bytes ` fl_served s"
    using inbox_written [OF fs_receive(5)] assms(2) by (auto simp: fleet_inv_def)
  then obtain c where c: "c \<in> fl_served s" "inbox (fl_control s) conn ! dp_read p = snapshot_bytes c" by blast
  have "served_by_files c" using assms(2) c(1) by (simp add: fleet_inv_def)
  from plane_receives [OF p fs_receive(4,5) c(1) this c(2) fs_receive(6)]
  have "plane_inv (fl_control s) (fl_served s) (p\<lparr>dp_loader := l, dp_read := Suc (dp_read p)\<rparr>)"
    and "snd ` set (map (Pair conn) out) \<subseteq> {acknowledgement}" by auto
  from fleet_plane_inv [OF assms(2) this, of i] show ?thesis by (simp add: fs_receive(1))
next
  case (fs_drop i p)
  have "plane_inv (fl_control s) (fl_served s) (p\<lparr>dp_conn := None\<rparr>)"
    using assms(2) fs_drop(2,3) nth_mem [of i "fl_planes s"] by (auto simp: fleet_inv_def plane_inv_def)
  from fleet_plane_inv [OF assms(2) this, of "[]" i] show ?thesis by (simp add: fs_drop(1))
qed

definition fleet_init :: "fleet \<Rightarrow> bool" where
  "fleet_init s \<longleftrightarrow> (\<exists>l ps. good_loader l \<and> (\<forall>(l', c)\<in>set ps. good_loader l' \<and> ld_active l' = Some c) \<and> s = start_fleet l ps)"

lemma fleet_init_inv:
  assumes "fleet_init s" shows "fleet_inv s"
proof -
  obtain l ps where l: "good_loader l" "\<forall>(l', c)\<in>set ps. good_loader l' \<and> ld_active l' = Some c" "s = start_fleet l ps"
    using assms by (auto simp: fleet_init_def)
  have "in_flight (start_control_plane l) = {}" by (simp add: in_flight_def start_control_plane_def)
  moreover have "served_by_files c" if "c \<in> served_now (start_control_plane l)" for c
    by (rule served_now_good [OF _ that]) (simp add: start_control_plane_def l(1))
  moreover have "plane_inv k served (start_plane l' c)" if "(l', c) \<in> set ps" for k served l' c
    using that l(2) good_loader_serves by (fastforce simp: plane_inv_def start_plane_def)
  ultimately show ?thesis
    using control_inv_start [OF l(1)] by (auto simp: l(3) fleet_inv_def start_fleet_def) (auto simp: start_control_plane_def)
qed

interpretation system: invariant_system fleet_init fleet_step fleet_inv
  by unfold_locales (erule fleet_init_inv, erule (1) fleet_step_inv)

text \<open>The configuration of a data plane that has read at least one message of its connection.\<close>

lemma plane_has_last_read:
  assumes "reach fleet_init fleet_step s" "p \<in> set (fl_planes s)" "dp_conn p = Some conn" "dp_read p = Suc n"
  shows "\<exists>c\<in>fl_served s. served_by_files c \<and> n < length (inbox (fl_control s) conn)
    \<and> inbox (fl_control s) conn ! n = snapshot_bytes c \<and> ld_active (dp_loader p) = Some (delivered c)"
proof -
  have inv: "fleet_inv s" by (rule system.reach_inv [OF assms(1)])
  then have "plane_inv (fl_control s) (fl_served s) p" using assms(2) by (simp add: fleet_inv_def)
  with inv assms(3,4) show ?thesis by (auto simp: plane_inv_def fleet_inv_def)
qed

lemma served_valid: "served_by_files c \<Longrightarrow> valid_config c"
  using validate_iff [of c] by (simp add: served_by_files_def)

lemma valid_placement_for:
  assumes "valid_config c"
  shows "endpoint_of c (placement_for (routing_table c) (default_placement c) key) \<noteq> None"
  using assms placement_for_cases [of "routing_table c" "default_placement c" key]
  by (fastforce simp: valid_config_def)

lemma decide_valid:
  assumes "valid_config c"
  shows "(\<exists>d. decide (routing_table c) (cell_endpoints c) (default_placement c) key = Inr d) \<longleftrightarrow> entries (cell_endpoints c) \<noteq> []"
  using valid_placement_for [OF assms, of key] by (auto simp: decide_spec endpoint_of_def lookup_def split: option.split if_splits)

lemma reply_of_acknowledgement: "handle_data_plane_message acknowledgement = [Acknowledged []]"
proof -
  have "unmarshal decode_message acknowledgement = Some \<lparr>msg_type = type_ack, msg_version = []\<rparr>"
    unfolding acknowledgement_def
    by (subst unmarshal_print) (simp_all add: encode_message_def type_ack_def max_nesting_def decode_message_def message_fields_def json_eval)
  then show ?thesis by (simp add: handle_data_plane_message_def)
qed

lemma frames_of_acknowledgements:
  "snd ` set rs \<subseteq> {acknowledgement} \<Longrightarrow> read_frames (map (\<lambda>r. Text_Frame (snd r)) rs) = replicate (length rs) (Acknowledged [])"
  by (induction rs) (auto simp: reply_of_acknowledgement)

text \<open>The shortest run that brings a snapshot to a data plane.\<close>

lemma first_snapshot_run:
  fixes now :: instant
  assumes "good_loader l" "ld_active l = Some c" "good_loader l'" "ld_active l' = Some c'"
  defines "k \<equiv> \<lparr>cp_loader = l, cp_server = \<lparr>sv_clients = [0], sv_closed = []\<rparr>, cp_last = None, cp_tick = Waiting, cp_registered = [],
      cp_pending = [], cp_wire = [(0, snapshot_bytes c)]\<rparr>"
    and "p \<equiv> \<lparr>dp_file = c', dp_loader = snd (apply_config now (delivered c) l'), dp_conn = Some 0, dp_read = 1\<rparr>"
  shows "reach fleet_init fleet_step \<lparr>fl_control = k, fl_planes = [p], fl_replies = [(0, acknowledgement)], fl_served = {c}\<rparr>"
proof -
  let ?p0 = "start_plane l' c'" let ?p1 = "?p0\<lparr>dp_conn := Some 0\<rparr>"
  let ?k0 = "start_control_plane l"
  let ?k1 = "\<lparr>cp_loader = l, cp_server = \<lparr>sv_clients = [0], sv_closed = []\<rparr>, cp_last = None, cp_tick = Waiting, cp_registered = [0], cp_pending = [], cp_wire = []\<rparr>"
  let ?k2 = "?k1\<lparr>cp_registered := [], cp_pending := [(0, snapshot_bytes c)]\<rparr>"
  let ?f = "\<lambda>k p. \<lparr>fl_control = k, fl_planes = [p], fl_replies = [], fl_served = {c}\<rparr>"
  have served: "served_by_files c" using good_loader_serves [OF assms(1)] assms(2) by auto
  have sn: "served_now k' = {c}" if "cp_loader k' = l" for k' by (simp add: served_now_def that assms(2))
  have "fleet_init (start_fleet l [(l', c')])"
    unfolding fleet_init_def by (intro exI [of _ l] exI [of _ "[(l', c')]"]) (simp add: assms)
  then have 0: "reach fleet_init fleet_step (?f ?k0 ?p0)"
    using reach_init [of fleet_init _ fleet_step] by (simp add: start_fleet_def sn start_control_plane_def)
  have "fleet_step (?f ?k0 ?p0) (?f ?k0 ?p1)"
    using fs_dial [of 0 "?f ?k0 ?p0" ?p0 0] by (simp add: start_plane_def start_control_plane_def new_server_def)
  note 1 = reach_step [of fleet_init fleet_step, OF 0 this]
  have "control_step ?k0 ?k1"
    using cs_register [of 0 ?k0] by (simp add: start_control_plane_def new_server_def register_client_def)
  then have "fleet_step (?f ?k0 ?p1) (?f ?k1 ?p1)" using fs_control [of "?f ?k0 ?p1" ?k1] by (simp add: sn)
  note 2 = reach_step [of fleet_init fleet_step, OF 1 this]
  have "control_step ?k1 ?k2" using cs_read [of 0 ?k1 c] assms(2) by (simp add: active_config_def)
  then have "fleet_step (?f ?k1 ?p1) (?f ?k2 ?p1)" using fs_control [of "?f ?k1 ?p1" ?k2] by (simp add: sn)
  note 3 = reach_step [of fleet_init fleet_step, OF 2 this]
  have "control_step ?k2 k" using cs_write [of 0 "snapshot_bytes c" ?k2] by (simp add: k_def)
  then have "fleet_step (?f ?k2 ?p1) (?f k ?p1)" using fs_control [of "?f ?k2 ?p1" k] by (simp add: sn k_def)
  note 4 = reach_step [of fleet_init fleet_step, OF 3 this]
  have "inbox k 0 = [snapshot_bytes c]" by (simp add: inbox_def k_def)
  then have "fleet_step (?f k ?p1) \<lparr>fl_control = k, fl_planes = [p], fl_replies = [(0, acknowledgement)], fl_served = {c}\<rparr>"
    using fs_receive [of 0 "?f k ?p1" ?p1 0 "\<lambda>_. []" now] handle_served [OF served, of "\<lambda>_. []" now 0 l']
    by (simp add: start_plane_def p_def send_ack_def acknowledgement_def)
  from reach_step [of fleet_init fleet_step, OF 4 this] show ?thesis .
qed

text \<open>
  Property C9. However the control plane, its file, its connections and the data planes take turns, every data
  plane runs either the validated configuration of its own file or what the snapshot of a configuration delivers that
  the control plane's loader had and validation accepted; and the control plane reads back acknowledgements
  only, never a rejection, none of which names a version.
\<close>

theorem fleet_runs_accepted:
  assumes "reach fleet_init fleet_step s"
  shows "(\<forall>p\<in>set (fl_planes s). \<exists>c. ld_active (dp_loader p) = Some c \<and> (c = dp_file p \<and> valid_config c
      \<or> (\<exists>c'\<in>fl_served s. valid_config c' \<and> c = delivered c')))
    \<and> read_frames (map (\<lambda>r. Text_Frame (snd r)) (fl_replies s)) = replicate (length (fl_replies s)) (Acknowledged [])"
proof -
  have inv: "fleet_inv s" by (rule system.reach_inv [OF assms])
  have "\<exists>c. ld_active (dp_loader p) = Some c \<and> (c = dp_file p \<and> valid_config c
      \<or> (\<exists>c'\<in>fl_served s. valid_config c' \<and> c = delivered c'))" if "p \<in> set (fl_planes s)" for p
  proof -
    from inv that have p: "served_by_files (dp_file p)"
        "ld_active (dp_loader p) = Some (dp_file p) \<or> (\<exists>c\<in>fl_served s. ld_active (dp_loader p) = Some (delivered c))"
      by (simp_all add: fleet_inv_def plane_inv_def)
    have "\<forall>c\<in>fl_served s. valid_config c" using inv served_valid by (simp add: fleet_inv_def)
    with p served_valid [OF p(1)] show ?thesis by blast
  qed
  with inv frames_of_acknowledgements show ?thesis by (auto simp: fleet_inv_def)
qed

theorem fleet_runs_accepted_witness:
  "\<exists>s p. reach fleet_init fleet_step s \<and> fl_planes s = [p] \<and> dp_read p = 1
    \<and> (\<exists>c. ld_active (dp_loader p) = Some c \<and> (c = dp_file p \<and> valid_config c \<or> (\<exists>c'\<in>fl_served s. valid_config c' \<and> c = delivered c')))"
proof -
  have l: "ld_active sample_loader_new = Some (sample_config ''2'' [])"
    "ld_active sample_loader = Some (sample_config ''1'' [(''visa'', ''visa'')])"
    by (simp_all add: sample_loader_def sample_loader_new_def)
  note run = first_snapshot_run [OF sample_loaders_good(2) l(1) sample_loaders_good(1) l(2), of 7]
  from fleet_runs_accepted [OF run] run show ?thesis by auto
qed

text \<open>
  Property C3. A data plane that has read all that was sent on its connection has the configuration of the last
  snapshot: the version, and for every key the decision, of the control plane's configuration it was made
  from. It routes if and only if that configuration has legacy endpoints: from a configuration in the placements
  format, which validation accepts, it gets a snapshot without endpoints, and every key fails.
\<close>

theorem caught_up_plane_agrees:
  assumes "reach fleet_init fleet_step s" "p \<in> set (fl_planes s)" "dp_conn p = Some conn"
    and "dp_read p = length (inbox (fl_control s) conn)" "0 < dp_read p"
  shows "\<exists>c\<in>fl_served s. valid_config c \<and> last_sent (fl_control s) conn = Some (snapshot_bytes c)
    \<and> get_config_version (dp_loader p) = Ret (version c)
    \<and> (\<forall>key. route loader_provider (dp_loader p) (dp_loader p) (dp_loader p) key =
          Ret (decide (routing_table c) (cell_endpoints c) (default_placement c) key)
        \<and> ((\<exists>d. decide (routing_table c) (cell_endpoints c) (default_placement c) key = Inr d) \<longleftrightarrow> entries (cell_endpoints c) \<noteq> []))"
proof -
  from assms(5) obtain n where n: "dp_read p = Suc n" using gr0_implies_Suc by blast
  obtain c where c: "c \<in> fl_served s" "served_by_files c" "n < length (inbox (fl_control s) conn)"
      "inbox (fl_control s) conn ! n = snapshot_bytes c" "ld_active (dp_loader p) = Some (delivered c)"
    using plane_has_last_read [OF assms(1-3) n] by blast
  have wf: "config_wf c" and valid: "valid_config c" using c(2) served_valid by (auto simp: served_by_files_def)
  have len: "length (inbox (fl_control s) conn) = Suc n" using assms(4) n by simp
  have "inbox (fl_control s) conn \<noteq> []" using c(3) by auto
  then have "last (inbox (fl_control s) conn) = snapshot_bytes c" "inbox (fl_control s) conn \<noteq> []"
    using c(4) len by (simp_all add: last_conv_nth)
  then have "last_sent (fl_control s) conn = Some (snapshot_bytes c)" by (simp add: last_sent_inbox)
  moreover have "route loader_provider (dp_loader p) (dp_loader p) (dp_loader p) key =
      Ret (decide (routing_table c) (cell_endpoints c) (default_placement c) key)" for key
    unfolding route_active [OF c(5)] using wf by (simp add: delivered_def decide_sorted config_wf_def)
  moreover have "(\<exists>d. decide (routing_table c) (cell_endpoints c) (default_placement c) key = Inr d) \<longleftrightarrow> entries (cell_endpoints c) \<noteq> []" for key
    by (rule decide_valid [OF valid])
  moreover have "get_config_version (dp_loader p) = Ret (version c)"
    using c(5) by (simp add: get_config_version_def active_config_def delivered_def)
  ultimately show ?thesis using c(1) valid by blast
qed

theorem caught_up_plane_agrees_witness:
  "\<exists>s p. reach fleet_init fleet_step s \<and> fl_planes s = [p] \<and> dp_file p = sample_config ''1'' [(''visa'', ''visa'')]
    \<and> get_config_version (dp_loader p) = Ret ''2''
    \<and> (\<exists>d. route loader_provider (dp_loader p) (dp_loader p) (dp_loader p) ''visa'' = Ret (Inr d) \<and> placement_key d = ''tier3'')"
proof -
  have l: "ld_active sample_loader_new = Some (sample_config ''2'' [])"
    "ld_active sample_loader = Some (sample_config ''1'' [(''visa'', ''visa'')])"
    by (simp_all add: sample_loader_def sample_loader_new_def)
  note run = first_snapshot_run [OF sample_loaders_good(2) l(1) sample_loaders_good(1) l(2), of 7]
  let ?c = "sample_config ''2'' []"
  let ?p = "\<lparr>dp_file = sample_config ''1'' [(''visa'', ''visa'')],
    dp_loader = snd (apply_config 7 (delivered ?c) sample_loader), dp_conn = Some 0, dp_read = 1\<rparr>"
  have "get_config_version (dp_loader ?p) = Ret (version ?c)
      \<and> (\<forall>key. route loader_provider (dp_loader ?p) (dp_loader ?p) (dp_loader ?p) key
        = Ret (decide (routing_table ?c) (cell_endpoints ?c) (default_placement ?c) key))"
    using caught_up_plane_agrees [OF run, of ?p 0] by (simp add: inbox_def)
  moreover have "version ?c = ''2''"
    "\<exists>d. decide (routing_table ?c) (cell_endpoints ?c) (default_placement ?c) ''visa'' = Inr d \<and> placement_key d = ''tier3''"
    by (simp_all add: sample_config_def decide_spec placement_for_def lookup_def)
  ultimately show ?thesis
    using run by (intro exI [of _ "\<lparr>fl_control = _, fl_planes = [?p], fl_replies = _, fl_served = _\<rparr>"] exI [of _ ?p]) auto
qed

end
