(* ===== verification/Mux.thy ===== *)
theory Mux
  imports Proxy
begin

text \<open>
  What the three commands use of the library's \<open>ServeMux\<close>: how it cleans the path of a request, when it redirects, and which of
  the registered handlers gets the request. All patterns of the commands are exact paths, or \<open>/\<close>.
\<close>

section \<open>Cleaning a path\<close>

text \<open>\<open>path.Clean\<close> on the segments of a path that begins with a slash.\<close>

fun split_slash :: "string \<Rightarrow> string list" where
  "split_slash [] = [[]]"
| "split_slash (c # cs) = (if c = CHR ''/'' then [] # split_slash cs
     else (case split_slash cs of [] \<Rightarrow> [[c]] | s # ss \<Rightarrow> (c # s) # ss))"

fun clean_segments :: "string list \<Rightarrow> string list \<Rightarrow> string list" where
  "clean_segments done [] = done"
| "clean_segments done (s # ss) =
     (if s = [] \<or> s = ''.'' then clean_segments done ss
      else if s = ''..'' then clean_segments (butlast done) ss
      else clean_segments (done @ [s]) ss)"

definition join_slash :: "string list \<Rightarrow> string" where
  "join_slash ss = concat (map (\<lambda>s. CHR ''/'' # s) ss)"

definition clean_path :: "string \<Rightarrow> string" where
  "clean_path p =
     (if p = [] then ''/''
      else let q = (if hd p = CHR ''/'' then p else CHR ''/'' # p); ss = clean_segments [] (split_slash q)
           in if ss = [] then ''/'' else join_slash ss @ (if last q = CHR ''/'' then ''/'' else []))"

section \<open>Dispatch\<close>

text \<open>A segment that cannot be unescaped is matched as it is.\<close>

definition plain_segment :: "string \<Rightarrow> string" where
  "plain_segment s = (case unescape Plain s of Inl e \<Rightarrow> s | Inr t \<Rightarrow> t)"

datatype 'a dispatch = Bad_Target | Moved string | Found 'a | Not_Found

text \<open>
  The handler of an escaped path: the one registered for exactly this path, or else the one for \<open>/\<close>. The
  path is empty only in a \<open>CONNECT\<close> to an authority, which is left out.
\<close>

definition mux_match :: "(string \<times> 'a) list \<Rightarrow> 'a option \<Rightarrow> string \<Rightarrow> 'a dispatch" where
  "mux_match routes root path =
     (case find (\<lambda>(p, h). map plain_segment (split_slash path) = split_slash p) routes of
        Some (p, h) \<Rightarrow> Found h
      | None \<Rightarrow> (case root of Some h \<Rightarrow> Found h | None \<Rightarrow> Not_Found))"

definition mux_dispatch :: "(string \<times> 'a) list \<Rightarrow> 'a option \<Rightarrow> string \<Rightarrow> string \<Rightarrow> 'a dispatch" where
  "mux_dispatch routes root meth escaped =
     (if escaped = ''*'' then Bad_Target
      else if meth \<noteq> ''CONNECT'' \<and> clean_path escaped \<noteq> escaped then Moved (clean_path escaped)
      else mux_match routes root escaped)"

end
