(* ===== verification/Log_Text.thy ===== *)
theory Log_Text
  imports Logging Protocol
begin

text \<open>
  The lines that \<open>internal/logging/logger.go\<close> prints, byte for byte: \<open>json.Marshal\<close> of the fields, whose keys
  are sorted if they come from a map, and a newline.
\<close>

section \<open>Printing a line\<close>

text \<open>
  A duration in milliseconds, which the handler makes from microseconds: \<open>encoding/json\<close> prints the shortest decimal
  that reads back as the float64. That is the exact quotient while the microseconds have at most 15 digits
  (31 years).
\<close>

definition strip_zeros :: "string \<Rightarrow> string" where
  "strip_zeros ds = rev (dropWhile (\<lambda>c. c = CHR ''0'') (rev ds))"

definition thousandths :: "nat \<Rightarrow> string" where
  "thousandths m = (if m = 0 then []
     else CHR ''.'' # strip_zeros [digit_char (m div 100), digit_char (m div 10 mod 10), digit_char (m mod 10)])"

definition millis_text :: "int \<Rightarrow> string" where
  "millis_text us = (let n = nat \<bar>us\<bar>
     in (if us < 0 then ''-'' else []) @ show_nat (n div 1000) @ thousandths (n mod 1000))"

fun log_json :: "log_value \<Rightarrow> json" where
  "log_json (Log_Str s) = JStr s"
| "log_json (Log_Int i) = JNum (show_int i)"
| "log_json (Log_Time t) = JStr (rfc3339 0 t)"
| "log_json (Log_Millis us) = JNum (millis_text us)"

definition line_json :: "log_fields \<Rightarrow> json" where
  "line_json fs = JObj (map (\<lambda>(k, v). (k, log_json v)) fs)"

definition line_text :: "log_fields \<Rightarrow> string" where
  "line_text fs = print_json (line_json fs) @ [CHR 0x0A]"

definition info_text :: "instant \<Rightarrow> string \<Rightarrow> log_fields \<Rightarrow> string" where
  "info_text now msg fs = line_text (sort_key fst (log_info now msg fs))"

definition error_text :: "instant \<Rightarrow> string \<Rightarrow> string option \<Rightarrow> log_fields \<Rightarrow> string" where
  "error_text now msg err fs = line_text (sort_key fst (log_error now msg err fs))"

definition request_text :: "instant \<Rightarrow> request_log \<Rightarrow> string" where
  "request_text now r = line_text (log_request now r)"

section \<open>The numbers of a line\<close>

lemma digit_char_ok: "d < 10 \<Longrightarrow> is_digit (digit_char d)" "d < 10 \<Longrightarrow> digit_char d = CHR ''0'' \<longleftrightarrow> d = 0"
proof -
  assume d: "d < 10"
  then have b: "byte_of (digit_char d) = 48 + d" by (simp add: digit_char_def)
  then show "is_digit (digit_char d)" using d by (simp add: is_digit_def)
  show "digit_char d = CHR ''0'' \<longleftrightarrow> d = 0"
  proof
    assume "digit_char d = CHR ''0''"
    then have "byte_of (digit_char d) = 48" by simp
    with b show "d = 0" by simp
  next
    have "digit_char 0 = CHR ''0''" by code_simp
    then show "digit_char d = CHR ''0''" if "d = 0" using that by simp
  qed
qed

lemma show_nat_digits: "list_all is_digit (show_nat n) \<and> (hd (show_nat n) = CHR ''0'' \<longrightarrow> n = 0)"
proof (induction n rule: show_nat.induct)
  case (1 n)
  show ?case
  proof (cases "n < 10")
    case True
    then show ?thesis using digit_char_ok by (simp add: show_nat.simps [of n])
  next
    case False
    with 1 show ?thesis using digit_char_ok(1) by (auto simp: show_nat.simps [of n])
  qed
qed

lemma number_ok_natural:
  assumes "f = [] \<or> (\<exists>ds. f = CHR ''.'' # ds \<and> digits_ok ds)"
  shows "number_ok (show_nat n @ f)" "number_ok (CHR ''-'' # show_nat n @ f)"
proof -
  obtain c cs where s: "show_nat n = c # cs" by (cases "show_nat n") simp_all
  have d: "is_digit c" "list_all is_digit cs" and z: "c = CHR ''0'' \<Longrightarrow> n = 0" using show_nat_digits [of n] by (simp_all add: s)
  have digits: "takeWhile is_digit ds = ds" "dropWhile is_digit ds = []" if "digits_ok ds" for ds
    using that by (simp_all add: digits_ok_def list_all_iff takeWhile_eq_all_conv dropWhile_eq_Nil_conv)
  have f: "fraction_ok f"
  proof (cases "f = []")
    case False
    then obtain ds where ds: "f = CHR ''.'' # ds" "digits_ok ds" using assms by blast
    then have "ds \<noteq> []" by (simp add: digits_ok_def)
    with ds(1) show ?thesis by (simp add: fraction_ok_def exponent_ok_def digits [OF ds(2)])
  qed (simp add: fraction_ok_def)
  have "\<not> is_digit (CHR ''.'')" by (simp add: is_digit_def)
  then have "dropWhile is_digit f = f" using assms by (cases f) auto
  then have "dropWhile is_digit (cs @ f) = f"
    using d(2) by (simp add: list_all_iff dropWhile_append2)
  moreover have "cs = []" if "c = CHR ''0''"
    using s z [OF that] by (simp add: show_nat.simps [of 0])
  moreover have "c \<noteq> CHR ''-''" using d(1) by (auto simp: is_digit_def)
  ultimately show "number_ok (show_nat n @ f)" "number_ok (CHR ''-'' # show_nat n @ f)"
    using f d(1) by (auto simp: number_ok_def s)
qed

lemma strip_zeros_digits:
  assumes "list_all is_digit ds" "\<exists>c\<in>set ds. c \<noteq> CHR ''0''"
  shows "digits_ok (strip_zeros ds)"
  using assms by (auto simp: digits_ok_def strip_zeros_def list_all_iff dest: set_dropWhileD)

lemma number_ok_int: "number_ok (show_int i)"
  using number_ok_natural [of "[]"] by (simp add: show_int_def)

lemma three_digits:
  assumes "m < 1000" "m \<noteq> 0"
  shows "digits_ok (strip_zeros [digit_char (m div 100), digit_char (m div 10 mod 10), digit_char (m mod 10)])"
proof (rule strip_zeros_digits)
  have a: "m div 100 < 10" "m div 10 mod 10 < 10" "m mod 10 < 10" using assms(1) by (simp_all add: less_mult_imp_div_less)
  then show "list_all is_digit [digit_char (m div 100), digit_char (m div 10 mod 10), digit_char (m mod 10)]"
    using digit_char_ok(1) by simp
  have "m div 100 = m div 10 div 10" by (simp flip: div_mult2_eq)
  moreover have "m div 10 = m div 10 div 10 * 10 + m div 10 mod 10" "m = m div 10 * 10 + m mod 10"
    by (simp_all only: div_mult_mod_eq)
  ultimately have "m div 100 \<noteq> 0 \<or> m div 10 mod 10 \<noteq> 0 \<or> m mod 10 \<noteq> 0"
    using assms(2) by (metis add_0 mult_0)
  then show "\<exists>c\<in>set [digit_char (m div 100), digit_char (m div 10 mod 10), digit_char (m mod 10)]. c \<noteq> CHR ''0''"
    using a by (auto simp: digit_char_ok(2))
qed

lemma number_ok_millis: "number_ok (millis_text us)"
proof -
  have f: "thousandths m = [] \<or> (\<exists>ds. thousandths m = CHR ''.'' # ds \<and> digits_ok ds)" if "m < 1000" for m
    using three_digits [OF that] by (simp add: thousandths_def)
  have "nat \<bar>us\<bar> mod 1000 < 1000" by simp
  from number_ok_natural [OF f [OF this]] show ?thesis
    by (cases "us < 0") (simp_all only: millis_text_def Let_def if_True if_False append.simps)
qed

section \<open>A line stays a line\<close>

text \<open>No printed text has a control byte, whatever bytes its strings have.\<close>

definition printable :: "string \<Rightarrow> bool" where
  "printable s \<longleftrightarrow> (\<forall>c\<in>set s. 0x20 \<le> byte_of c)"

lemma printable_simps [simp]:
  "printable []" "printable (c # s) \<longleftrightarrow> 0x20 \<le> byte_of c \<and> printable s" "printable (s @ t) \<longleftrightarrow> printable s \<and> printable t"
  by (auto simp: printable_def)

lemma hex_digit_printable [simp]: "d < 16 \<Longrightarrow> 0x20 \<le> byte_of (hex_digit d)"
  by (simp add: hex_digit_def)

lemma quote_byte_printable: "byte_of c < 0x80 \<Longrightarrow> printable (quote_byte c)"
  by (simp add: quote_byte_def)

lemma rune_printable:
  assumes "0x80 \<le> byte_of c"
  shows "printable (take (rune_len (c # cs)) (c # cs))"
proof -
  let ?t = "take (lead_len c - 1) cs"
  have "printable ?t" if "tail_ok c ?t"
    using that by (cases ?t) (auto simp: tail_ok_def second_ok_def is_cont_def list_all_iff printable_def Let_def split: if_splits)
  then show ?thesis using assms by (cases "lead_len c") (simp_all split: if_splits)
qed

lemma quote_printable: "printable (quote s)"
proof (induction s rule: quote.induct)
  case (2 c cs)
  have "printable (fst (quote_piece c cs))"
    using quote_byte_printable [of c] rune_printable [of c cs] by (simp add: quote_piece_def Let_def del: rune_len.simps)
  with 2 show ?case by simp
qed simp

lemma intercalate_printable: "\<forall>x\<in>set xs. printable x \<Longrightarrow> printable sep \<Longrightarrow> printable (intercalate sep xs)"
  by (induction sep xs rule: intercalate.induct) simp_all

lemma word_printable: "list_all is_word s \<Longrightarrow> printable s"
  by (auto simp: printable_def list_all_iff is_word_def is_digit_def is_alpha_def)

lemma print_json_printable: "numbers_ok j \<Longrightarrow> printable (print_json j)"
proof (induction j)
  case (JNum s)
  then show ?case using number_word word_printable by simp
next
  case (JArr vs)
  then show ?case by (auto simp: list_all_iff intro!: intercalate_printable)
next
  case (JObj ms)
  have "printable (print_json v)" if "(k, v) \<in> set ms" for k v
    by (rule JObj.IH [OF that]) (use JObj.prems that in \<open>auto simp: snds.simps list_all_iff\<close>)
  then show ?case by (auto simp: print_string_def quote_printable intro!: intercalate_printable)
qed (simp_all add: print_string_def quote_printable)

lemma line_json_numbers: "numbers_ok (line_json fs)"
proof -
  have "numbers_ok (log_json v)" for v by (cases v) (simp_all add: number_ok_int number_ok_millis)
  then show ?thesis by (auto simp: line_json_def list_all_iff)
qed

lemma line_json_depth: "depth (line_json fs) \<le> max_nesting"
proof -
  have "depth (log_json v) = 0" for v by (cases v) simp_all
  then have "foldr (\<lambda>(k, v). max (depth v)) (map (\<lambda>(k, v). (k, log_json v)) fs) 0 = 0" by (induction fs) auto
  then show ?thesis by (simp add: line_json_def max_nesting_def)
qed

text \<open>One line whose text reads as the JSON value \<open>j\<close>.\<close>

definition one_line :: "string \<Rightarrow> json \<Rightarrow> bool" where
  "one_line bytes j \<longleftrightarrow> (\<exists>t. bytes = t @ [CHR 0x0A] \<and> CHR 0x0A \<notin> set t \<and> parse_json t = Some j)"

lemma line_text_one_line: "one_line (line_text fs) (sanitize (line_json fs))"
proof -
  have "CHR 0x0A \<notin> set (print_json (line_json fs))"
    using print_json_printable [OF line_json_numbers, of fs] by (auto simp: printable_def)
  then show ?thesis
    using parse_print_any [OF line_json_numbers line_json_depth, of fs] by (simp add: one_line_def line_text_def)
qed

lemma to_utf8_date [simp]: "to_utf8 (rfc3339 offset t) = rfc3339 offset t"
  by (rule to_utf8_id) simp

lemma sanitize_line:
  "\<forall>(k, v)\<in>set fs. utf8_valid k \<Longrightarrow> sanitize (line_json fs) = JObj (map (\<lambda>(k, v). (k, sanitize (log_json v))) fs)"
  by (auto simp: line_json_def to_utf8_id)

text \<open>
  Property C26. A log line cannot be forged: whatever bytes a client puts into its path, its headers or its routing
  key, every line the logger prints is one line, and reads as one JSON object with exactly the fields that
  were logged, their strings made valid UTF-8.
\<close>

theorem log_lines_cannot_be_forged:
  "one_line (request_text now r) (JObj ([(''timestamp'', JStr (rfc3339 0 now)), (''request_id'', JStr (to_utf8 (rl_request_id r))),
       (''method'', JStr (to_utf8 (rl_method r))), (''path'', JStr (to_utf8 (rl_path r)))]
     @ (if rl_routing_key r = [] then [] else [(''routing_key'', JStr (to_utf8 (rl_routing_key r)))])
     @ [(''placement_key'', JStr (to_utf8 (rl_placement_key r))), (''route_reason'', JStr (to_utf8 (rl_route_reason r))),
        (''upstream_url'', JStr (to_utf8 (rl_upstream_url r))), (''status_code'', JNum (show_int (rl_status_code r))),
        (''duration_ms'', JNum (millis_text (rl_duration_us r)))]))
   \<and> one_line (info_text now msg fs) (sanitize (line_json (sort_key fst (log_info now msg fs))))
   \<and> one_line (error_text now msg err fs) (sanitize (line_json (sort_key fst (log_error now msg err fs))))"
proof -
  have "\<forall>(k, v)\<in>set (log_request now r). utf8_valid k" by (auto simp: log_request_def)
  from sanitize_line [OF this] line_text_one_line [of "log_request now r"]
  have "one_line (request_text now r) (JObj (map (\<lambda>(k, v). (k, sanitize (log_json v))) (log_request now r)))"
    by (simp add: request_text_def)
  then show ?thesis
    by (cases "rl_routing_key r = []") (simp_all add: info_text_def error_text_def line_text_one_line log_request_def)
qed

end
