(* ===== verification/Commands.thy ===== *)
theory Commands
  imports System Startup Mux Log_Text
begin

text \<open>
  \<open>internal/debug/handler.go\<close> and two processes under \<open>cmd\<close>, the router (\<open>cmd/router/main.go\<close>) and the
  control plane (\<open>cmd/control-plane/main.go\<close>): how they start, which handler a request gets, and what they
  do when they end.
\<close>

section \<open>The debug endpoint\<close>

text \<open>\<open>json.Encoder\<close>: the text and a newline; the first write sends the status 200 if none was set.\<close>

definition write_json :: "json \<Rightarrow> writer \<Rightarrow> writer" where
  "write_json j wr = wr\<lparr>wr_status := (case wr_status wr of None \<Rightarrow> Some 200 | Some s \<Rightarrow> Some s),
     wr_body := wr_body wr @ print_json j @ [CHR 0x0A]\<rparr>"

text \<open>The interface \<open>ConfigProvider\<close> of the endpoint, on a state \<open>'l\<close>, and the loader as the provider it gets.\<close>

record 'l debug_provider =
  dbg_version :: "'l \<Rightarrow> string outcome"
  dbg_source :: "'l \<Rightarrow> string"
  dbg_last_reload :: "'l \<Rightarrow> instant"

definition loader_debug_provider :: "loader debug_provider" where
  "loader_debug_provider = \<lparr>dbg_version = get_config_version, dbg_source = (\<lambda>l. source_text (get_config_source l)),
     dbg_last_reload = last_reload_time\<rparr>"

text \<open>The keys of an encoded map are sorted.\<close>

definition serve_debug :: "'l debug_provider \<Rightarrow> int \<Rightarrow> 'l \<Rightarrow> writer \<Rightarrow> writer outcome" where
  "serve_debug p offset l wr =
     omap (\<lambda>v. write_json (JObj [(''last_reload_at'', JStr (rfc3339 offset (dbg_last_reload p l))),
         (''source'', JStr (dbg_source p l)), (''version'', JStr v)])
       (wr\<lparr>wr_header := header_set ''Content-Type'' ''application/json'' (wr_header wr)\<rparr>))
     (dbg_version p l)"

section \<open>Processes\<close>

text \<open>An unset variable is empty, as \<open>os.Getenv\<close> returns it.\<close>

definition get_env :: "(string \<Rightarrow> string) \<Rightarrow> string \<Rightarrow> string \<Rightarrow> string" where
  "get_env vars key dflt = (if vars key \<noteq> [] then vars key else dflt)"

record http_server =
  hs_addr :: string
  hs_read_timeout :: duration
  hs_write_timeout :: duration
  hs_idle_timeout :: duration

text \<open>
  A process ends because its server fails, or by a signal; \<open>Shutdown\<close> then waits for the open requests, and
  returns an error if ten seconds are not enough.
\<close>

datatype process_end = Listen_Failed string | Signalled "string option"
datatype process_note = Server_Failed string | Shutting_Down | Forced string | Stopped

definition shutdown_notes :: "string option \<Rightarrow> process_note list" where
  "shutdown_notes err = Shutting_Down # (case err of None \<Rightarrow> [] | Some e \<Rightarrow> [Forced e]) @ [Stopped]"

section \<open>The router process\<close>

definition router_config_path :: "(string \<Rightarrow> string) \<Rightarrow> string" where
  "router_config_path vars = (if vars ''CONTROL_PLANE_URL'' \<noteq> []
     then get_env vars ''CONFIG_PATH'' ''config/dataplane-initial.json''
     else get_env vars ''CONFIG_PATH'' ''config/routing.json'')"

record router_process =
  rp_loader :: loader
  rp_handler :: handler
  rp_client :: "client option"
  rp_reloading :: bool
  rp_server :: http_server

datatype start_result = Fatal load_error | Running router_process

definition router_server :: "(string \<Rightarrow> string) \<Rightarrow> http_server" where
  "router_server vars = \<lparr>hs_addr = '':'' @ get_env vars ''PORT'' ''8080'', hs_read_timeout = 15 * second,
     hs_write_timeout = 30 * second, hs_idle_timeout = 60 * second\<rparr>"

text \<open>
  \<open>main\<close> up to the server: with a control plane there is a client and no reload loop, without one the
  converse. Either is started before the handler is made, so \<open>meanwhile\<close> is what it has done to the
  loader by then.
\<close>

definition start_router ::
    "(string \<Rightarrow> string) \<Rightarrow> file_env \<Rightarrow> instant \<Rightarrow> (nat \<Rightarrow> string \<Rightarrow> file_read) \<Rightarrow> (loader \<Rightarrow> loader) \<Rightarrow> start_result outcome" where
  "start_router vars env now rd meanwhile =
     (let path = router_config_path vars; l0 = new_loader path (5 * second) in
      obind (load_initial env now (rd 0 path) (rd 1 path) l0) (\<lambda>(err, l1, ns).
        case err of Some e \<Rightarrow> Ret (Fatal e)
        | None \<Rightarrow> let l = meanwhile l1 in obind (active_config l) (\<lambda>cfg. omap (\<lambda>h. Running
            \<lparr>rp_loader = l, rp_handler = h,
             rp_client = (if vars ''CONTROL_PLANE_URL'' \<noteq> [] then Some new_client else None),
             rp_reloading = (vars ''CONTROL_PLANE_URL'' = []),
             rp_server = router_server vars\<rparr>) (new_handler cfg))))"

datatype router_target = Debug_Handler | Proxy_Handler

definition router_dispatch :: "string \<Rightarrow> string \<Rightarrow> router_target dispatch" where
  "router_dispatch = mux_dispatch [(''/debug/config'', Debug_Handler)] (Some Proxy_Handler)"

text \<open>What the \<open>ServeMux\<close> answers itself; \<open>location\<close> is the text of a redirect to a path.\<close>

definition write_moved :: "string \<Rightarrow> writer \<Rightarrow> writer outcome" where
  "write_moved url wr = write_header 301 (wr\<lparr>wr_header := header_set ''Location'' url (wr_header wr)\<rparr>)"

definition write_not_found :: "writer \<Rightarrow> writer outcome" where
  "write_not_found = http_error ''404 page not found'' 404"

text \<open>A request with the escaped path \<open>escaped\<close>; \<open>offset\<close> is the time zone of the process.\<close>

definition serve_router :: "(string \<Rightarrow> string) \<Rightarrow> env \<Rightarrow> int \<Rightarrow> loader \<Rightarrow> string \<Rightarrow> request \<Rightarrow> unit action" where
  "serve_router location env offset l escaped r =
     (case router_dispatch (rq_method r) escaped of
        Bad_Target \<Rightarrow> on_writer (write_header 400)
      | Moved p \<Rightarrow> on_writer (write_moved (location p))
      | Found Debug_Handler \<Rightarrow> on_writer (serve_debug loader_debug_provider offset l)
      | Found Proxy_Handler \<Rightarrow> serve_http env r
      | Not_Found \<Rightarrow> on_writer write_not_found)"

text \<open>
  The end of \<open>main\<close>: a failed server ends the process at once, without the deferred calls; otherwise they run in
  the reverse order, the handler's \<open>Stop\<close> first, then that of the loader, or of the client, which is
  the second result: the process then waits for it.
\<close>

definition end_router :: "process_end \<Rightarrow> router_process \<Rightarrow> (router_process \<times> client option \<times> process_note list) outcome" where
  "end_router e p =
     (case e of Listen_Failed err \<Rightarrow> Ret (p, None, [Server_Failed err])
      | Signalled err \<Rightarrow> obind (stop_handler (rp_handler p)) (\<lambda>h. let p1 = p\<lparr>rp_handler := h\<rparr> in
          case rp_client p of Some c \<Rightarrow> Ret (p1, Some c, shutdown_notes err)
          | None \<Rightarrow> omap (\<lambda>l. (p1\<lparr>rp_loader := l\<rparr>, None, shutdown_notes err)) (stop_loader (rp_loader p))))"

section \<open>The control plane process\<close>

record control_process =
  cpp_control :: control_plane
  cpp_server :: http_server

definition control_http_server :: "(string \<Rightarrow> string) \<Rightarrow> http_server" where
  "control_http_server vars = \<lparr>hs_addr = '':'' @ get_env vars ''PORT'' ''8081'', hs_read_timeout = 15 * second,
     hs_write_timeout = 30 * second, hs_idle_timeout = 120 * second\<rparr>"

definition start_control_process ::
    "(string \<Rightarrow> string) \<Rightarrow> file_env \<Rightarrow> instant \<Rightarrow> (nat \<Rightarrow> string \<Rightarrow> file_read) \<Rightarrow> (load_error + control_process) outcome" where
  "start_control_process vars env now rd =
     (let path = get_env vars ''CONFIG_PATH'' ''config/routing.json''; l0 = new_loader path (5 * second) in
      obind (load_initial env now (rd 0 path) (rd 1 path) l0) (\<lambda>(err, l, ns).
        case err of Some e \<Rightarrow> Ret (Inl e)
        | None \<Rightarrow> Ret (Inr \<lparr>cpp_control = start_control_plane l, cpp_server = control_http_server vars\<rparr>)))"

text \<open>\<open>WriteHeader(200)\<close>: without effect when a status was sent.\<close>

definition write_ok :: "writer \<Rightarrow> writer" where
  "write_ok wr = (if wr_status wr = None then wr\<lparr>wr_status := Some 200\<rparr> else wr)"

definition healthy_text :: string where
  \<open>healthy_text = ''{"status":"healthy"}''\<close>

definition control_health :: "writer \<Rightarrow> writer" where
  "control_health wr = (let w1 = write_ok wr in w1\<lparr>wr_body := wr_body w1 @ healthy_text\<rparr>)"

text \<open>The settings of the websocket handshake: every origin may connect.\<close>

record upgrader =
  ug_read_buffer :: int
  ug_write_buffer :: int
  ug_check_origin :: "request \<Rightarrow> bool"

definition control_upgrader :: upgrader where
  "control_upgrader = \<lparr>ug_read_buffer = 1024, ug_write_buffer = 1024, ug_check_origin = \<lambda>r. True\<rparr>"

datatype control_target = Connect_Handler | Health_Handler

definition control_dispatch :: "string \<Rightarrow> string \<Rightarrow> control_target dispatch" where
  "control_dispatch = mux_dispatch [(''/connect'', Connect_Handler), (''/health'', Health_Handler)] None"

text \<open>
  A connection is served until it ends. A handshake that fails has been answered by the websocket library
  (\<open>upgrade\<close>), whose connection is the number of a \<open>conn\<close>.
\<close>

datatype control_result = Answered "writer outcome" | Upgrade_Failed string
  | Connected "((nat \<times> wire) list \<times> server_note list) outcome"

definition serve_control ::
    "(string \<Rightarrow> string) \<Rightarrow> (upgrader \<Rightarrow> request \<Rightarrow> string + nat) \<Rightarrow> (nat \<Rightarrow> bool) \<Rightarrow> loader \<Rightarrow> frame list
     \<Rightarrow> string \<Rightarrow> request \<Rightarrow> writer \<Rightarrow> server \<Rightarrow> control_result \<times> server" where
  "serve_control location upgrade accepts l frames escaped r wr s =
     (case control_dispatch (rq_method r) escaped of
        Bad_Target \<Rightarrow> (Answered (write_header 400 wr), s)
      | Moved p \<Rightarrow> (Answered (write_moved (location p) wr), s)
      | Not_Found \<Rightarrow> (Answered (write_not_found wr), s)
      | Found Health_Handler \<Rightarrow> (Answered (Ret (control_health wr)), s)
      | Found Connect_Handler \<Rightarrow>
          (case upgrade control_upgrader r of Inl err \<Rightarrow> (Upgrade_Failed err, s)
           | Inr conn \<Rightarrow> (let (res, s1) = handle_connection accepts l conn frames s in (Connected res, s1))))"

text \<open>The deferred \<open>Stop\<close> of the loader; neither the watcher nor a connection is told to end.\<close>

definition end_control :: "process_end \<Rightarrow> control_process \<Rightarrow> (control_process \<times> process_note list) outcome" where
  "end_control e p =
     (case e of Listen_Failed err \<Rightarrow> Ret (p, [Server_Failed err])
      | Signalled err \<Rightarrow> omap (\<lambda>l. (p\<lparr>cpp_control := (cpp_control p)\<lparr>cp_loader := l\<rparr>\<rparr>, shutdown_notes err))
          (stop_loader (cp_loader (cpp_control p))))"

section \<open>What the router answers\<close>

lemma source_text_utf8 [simp]: "to_utf8 (source_text src) = source_text src"
  by (cases src) (simp_all add: to_utf8_id)

lemma debug_answer:
  assumes "ld_active l = Some c" "wr_status wr = None" "wr_body wr = []"
  shows "\<exists>wr'. serve_debug loader_debug_provider offset l wr = Ret wr' \<and> wr_status wr' = Some 200
    \<and> header_get (wr_header wr') ''Content-Type'' = ''application/json''
    \<and> parse_json (wr_body wr') = Some (JObj [(''last_reload_at'', JStr (rfc3339 offset (last_reload_time l))),
        (''source'', JStr (source_text (get_config_source l))), (''version'', JStr (to_utf8 (version c)))])"
proof -
  let ?j = "JObj [(''last_reload_at'', JStr (rfc3339 offset (last_reload_time l))),
        (''source'', JStr (source_text (get_config_source l))), (''version'', JStr (version c))]"
  have "parse_json (print_json ?j) = Some (sanitize ?j)"
    by (rule parse_print_any) (simp_all add: max_nesting_def)
  from parse_json_line [OF this] show ?thesis
    using assms by (simp add: serve_debug_def loader_debug_provider_def get_config_version_def active_config_def write_json_def header_get_set to_utf8_id)
qed

text \<open>
  Property C27. The router's debug endpoint answers without a look at the routing key or the proxy's state: it
  sends nothing upstream and logs nothing, and its body reads, as JSON, as the version, the source and the
  time of the last change of the configuration that the loader has at that moment.
\<close>

theorem debug_endpoint_reports:
  assumes "ld_active l = Some c" "router_dispatch (rq_method r) escaped = Found Debug_Handler" "wd_writer w = new_writer"
  shows "\<exists>wr. serve_router location env offset l escaped r w = (Ret (), w\<lparr>wd_writer := wr\<rparr>) \<and> wr_status wr = Some 200
    \<and> parse_json (wr_body wr) = Some (JObj [(''last_reload_at'', JStr (rfc3339 offset (last_reload_time l))),
        (''source'', JStr (source_text (get_config_source l))), (''version'', JStr (to_utf8 (version c)))])"
  using debug_answer [OF assms(1), of "wd_writer w" offset] assms(2,3)
  by (auto simp: serve_router_def on_writer_def new_writer_def)

lemma dispatch_debug [simp]: "router_dispatch meth ''/debug/config'' = Found Debug_Handler"
  by (simp add: router_dispatch_def mux_dispatch_def mux_match_def clean_path_def Let_def join_slash_def plain_segment_def)

theorem debug_endpoint_reports_witness:
  "\<exists>wr. serve_router (\<lambda>p. p) (sample_proxy_env 200) 0 sample_loader ''/debug/config'' (sample_request ''visa'' 0) (sample_world 0)
      = (Ret (), (sample_world 0)\<lparr>wd_writer := wr\<rparr>)
    \<and> parse_json (wr_body wr) = Some (JObj [(''last_reload_at'', JStr ''0001-01-01T00:00:00Z''), (''source'', JStr ''file''),
        (''version'', JStr ''1'')])"
proof -
  let ?c = "sample_config ''1'' [(''visa'', ''visa'')]"
  have l: "ld_active sample_loader = Some ?c" "version ?c = ''1''" "get_config_source sample_loader = Source_File"
    "last_reload_time sample_loader = 5"
    by (simp_all add: sample_loader_def sample_config_def get_config_source_def last_reload_time_def)
  have t: "rfc3339 0 5 = ''0001-01-01T00:00:00Z''" by code_simp
  have "wd_writer (sample_world 0) = new_writer" by (simp add: sample_world_def)
  note report = debug_endpoint_reports [OF l(1) dispatch_debug this]
  from report [where location = "\<lambda>p. p" and env = "sample_proxy_env 200" and offset = 0 and r = "sample_request ''visa'' 0"] l t
  show ?thesis by (auto simp: to_utf8_id)
qed

text \<open>
  The mux cleans the escaped path, and the proxy sends the unescaped one: a path that hides its dots
  behind escapes reaches the proxy without a redirect, and the upstream gets a path that climbs out of
  its first segment.
\<close>

theorem escaped_dots_reach_upstream:
  "\<exists>escaped r rid url req. unescape Plain escaped = Inr (rq_path r) \<and> router_dispatch (rq_method r) escaped = Found Proxy_Handler
    \<and> clean_path escaped = escaped \<and> build_request rid r url = Inr req \<and> up_path req = ''/public/../admin''
    \<and> clean_path (up_path req) = ''/admin''"
proof -
  let ?e = "''/public/%2e%2E/admin''" let ?r = "(sample_request ''visa'' 0)\<lparr>rq_path := ''/public/../admin'', rq_raw_query := []\<rparr>"
  have e: "unescape Plain ?e = Inr ''/public/../admin''"
    by code_simp
  have d: "clean_path ?e = ?e" by (simp add: clean_path_def Let_def join_slash_def)
  then have "router_dispatch m ?e = Found Proxy_Handler" for m
    by (simp add: router_dispatch_def mux_dispatch_def mux_match_def)
  note d = d this
  obtain u where u: "parse_url ''http://cell-visa:9004'' = Inr u" by (simp add: url_eval)
  then obtain req where "new_request ?r u = Inr req" "up_path req = ''/public/../admin''"
    by (simp add: new_request_def Let_def)
  then have "build_request ''r1'' ?r ''http://cell-visa:9004'' = Inr (req\<lparr>up_header := upstream_headers ''r1'' ?r\<rparr>)"
    by (simp add: build_request_def u)
  moreover have "clean_path ''/public/../admin'' = ''/admin''" by (simp add: clean_path_def Let_def join_slash_def)
  ultimately show ?thesis
    using e d \<open>up_path req = _\<close> by (intro exI [of _ ?e] exI [of _ ?r] exI [of _ "''r1''"] exI [of _ "''http://cell-visa:9004''"]) simp
qed

section \<open>Starting and stopping the router\<close>

text \<open>A router without a control plane starts on a file that does not change and that validation accepts.\<close>

lemma start_router_file:
  assumes "load_from_file (Inr bytes) = Inr c" "validate c = Ret None"
  shows "\<exists>p. start_router (\<lambda>_. []) sample_files 5 (\<lambda>_ _. Inr bytes) id = Ret (Running p)
    \<and> good_loader (rp_loader p) \<and> ld_active (rp_loader p) = Some c"
proof -
  have wf: "config_wf c" using load_from_file_wf [OF assms(1)] by simp
  obtain l ls where i: "load_initial sample_files 5 (Inr bytes) (Inr bytes) (new_loader ''config/routing.json'' (5 * second)) = Ret (None, l, ls)"
    "ld_active l = Some c"
    using assms by (simp add: load_initial_def file_checksum_def)
  obtain h where "new_handler c = Ret h" using new_handler_config [OF assms(2) wf] by blast
  with i load_initial_good [OF i(1)] show ?thesis
    by (simp add: start_router_def router_config_path_def get_env_def active_config_def)
qed

lemma load_initial_stopped: "load_initial env now rd1 rd2 l = Ret (err, l', ns) \<Longrightarrow> ld_stopped l' = ld_stopped l"
  by (auto simp: load_initial_def split: sum.splits option.splits)

lemma start_router_parts:
  assumes "start_router vars fenv now rd meanwhile = Ret (Running p)"
  shows "\<exists>l1 cfg. \<not> ld_stopped l1 \<and> rp_loader p = meanwhile l1 \<and> new_handler cfg = Ret (rp_handler p)
    \<and> rp_reloading p = (rp_client p = None)"
proof -
  let ?path = "router_config_path vars"
  obtain err l1 ls where i: "load_initial fenv now (rd 0 ?path) (rd 1 ?path) (new_loader ?path (5 * second)) = Ret (err, l1, ls)"
    using assms(1) by (cases "load_initial fenv now (rd 0 ?path) (rd 1 ?path) (new_loader ?path (5 * second))")
      (auto simp: start_router_def Let_def)
  have "\<not> ld_stopped l1" using load_initial_stopped [OF i] by (simp add: new_loader_def)
  moreover have "err = None" using assms(1) i by (cases err) (simp_all add: start_router_def Let_def)
  ultimately show ?thesis
    using assms(1) i by (intro exI [of _ l1]) (auto simp: start_router_def Let_def split: if_splits)
qed

text \<open>
  Property C17. A signal ends the router in order: no channel is closed twice, the handler's checker is stopped, and
  then the loader, or else the client, whose \<open>Stop\<close> the process waits for. But the checkers that the
  start-up replaced are still running then, and a server that fails ends the process with nothing stopped.
\<close>

theorem router_stops_once:
  assumes "start_router vars fenv now rd meanwhile = Ret (Running p)" "\<And>l. ld_stopped (meanwhile l) = ld_stopped l"
  shows "(\<exists>p'. end_router (Signalled err) p = Ret (p', rp_client p, shutdown_notes err)
      \<and> ck_stopped (h_checker (rp_handler p')) \<and> ld_stopped (rp_loader p') = rp_reloading p
      \<and> h_orphans (rp_handler p') = h_orphans (rp_handler p) \<and> (\<forall>c\<in>set (h_orphans (rp_handler p')). \<not> ck_stopped c))
    \<and> end_router (Listen_Failed e) p = Ret (p, None, [Server_Failed e]) \<and> \<not> ck_stopped (h_checker (rp_handler p))"
proof -
  obtain l1 cfg where l: "\<not> ld_stopped l1" "rp_loader p = meanwhile l1" "new_handler cfg = Ret (rp_handler p)"
    "rp_reloading p = (rp_client p = None)"
    using start_router_parts [OF assms(1)] by (elim exE conjE) (rule that)
  have c: "\<not> ck_stopped (h_checker (rp_handler p))" "\<forall>c\<in>set (h_orphans (rp_handler p)). \<not> ck_stopped c"
    using new_handler_running [OF l(3)] by (simp_all add: checkers_running_def)
  have "\<not> ld_stopped (rp_loader p)" using l(1,2) assms(2) by simp
  with c l(4) show ?thesis
    by (cases "rp_client p") (simp_all add: end_router_def stop_handler_def stop_checker_def stop_loader_def Let_def)
qed

theorem router_stops_once_witness:
  "\<exists>p p'. start_router (\<lambda>_. []) sample_files 5 (\<lambda>_ _. Inr old_file) id = Ret (Running p)
    \<and> end_router (Signalled None) p = Ret (p', None, [Shutting_Down, Stopped])"
proof -
  obtain p where p: "start_router (\<lambda>_. []) sample_files 5 (\<lambda>_ _. Inr old_file) id = Ret (Running p)"
    using start_router_file [OF sample_files_load(1) sample_configs_valid(1)] by blast
  then have "rp_client p = None" by (auto simp: start_router_def Let_def split: option.splits)
  with router_stops_once [OF p, of None] p show ?thesis by (auto simp: shutdown_notes_def)
qed

end
