(* ===== verification/Cell.thy ===== *)
theory Cell
  imports Commands
begin

text \<open>
  The demo cell, \<open>cmd/cell/main.go\<close>: an upstream that answers with what it was asked.
\<close>

section \<open>The handlers\<close>

definition cell_name :: "(string \<Rightarrow> string) \<Rightarrow> string" where
  "cell_name vars = get_env vars ''CELL_NAME'' ''unknown-cell''"

definition interesting_headers :: "string list" where
  "interesting_headers = [''X-Request-Id'', ''X-Routing-Key'', ''X-Forwarded-For'', ''X-Forwarded-Proto'',
     ''User-Agent'', ''Content-Type'']"

fun extract_headers :: "string list \<Rightarrow> header \<Rightarrow> (string \<times> string) list" where
  "extract_headers [] h = []"
| "extract_headers (k # ks) h = (let v = header_get h k in (if v \<noteq> [] then [(k, v)] else []) @ extract_headers ks h)"

definition cell_log :: "string \<Rightarrow> instant \<Rightarrow> request \<Rightarrow> log_fields" where
  "cell_log cell now r =
     [(''timestamp'', Log_Str (rfc3339 0 now)), (''cell'', Log_Str cell), (''method'', Log_Str (rq_method r)),
      (''path'', Log_Str (rq_path r)), (''query'', Log_Str (rq_raw_query r)), (''remote_addr'', Log_Str (rq_remote_addr r))]
     @ concat (map (\<lambda>(k, f). let v = header_get (rq_header r) k in if v \<noteq> [] then [(f, Log_Str v)] else [])
        [(''X-Request-Id'', ''request_id''), (''X-Routing-Key'', ''routing_key''), (''X-Forwarded-For'', ''forwarded_for'')])"

definition cell_report :: "string \<Rightarrow> instant \<Rightarrow> request \<Rightarrow> json" where
  "cell_report cell now r = JObj [(''cell'', JStr cell),
     (''headers'', encode_string_map (Some (extract_headers interesting_headers (rq_header r)))),
     (''message'', JStr (''Hello from '' @ cell @ ''!'')), (''method'', JStr (rq_method r)),
     (''path'', JStr (rq_path r)), (''query'', JStr (rq_raw_query r)), (''timestamp'', JStr (rfc3339 0 now))]"

definition cell_handle :: "string \<Rightarrow> instant \<Rightarrow> request \<Rightarrow> writer \<Rightarrow> writer" where
  "cell_handle cell now r wr = write_json (cell_report cell now r)
     (write_ok (wr\<lparr>wr_header := header_set ''X-Cell-Name'' cell (header_set ''Content-Type'' ''application/json'' (wr_header wr))\<rparr>))"

definition cell_health :: "string \<Rightarrow> writer \<Rightarrow> writer" where
  "cell_health cell wr = write_json (JObj [(''cell'', JStr cell), (''status'', JStr ''healthy'')])
     (write_ok (wr\<lparr>wr_header := header_set ''Content-Type'' ''application/json'' (wr_header wr)\<rparr>))"

definition cell_health_log :: "string \<Rightarrow> instant \<Rightarrow> request \<Rightarrow> log_fields" where
  "cell_health_log cell now r = [(''timestamp'', Log_Str (rfc3339 0 now)), (''cell'', Log_Str cell),
     (''method'', Log_Str (rq_method r)), (''path'', Log_Str ''/health'')]"

section \<open>The process\<close>

definition cell_server :: "(string \<Rightarrow> string) \<Rightarrow> http_server" where
  "cell_server vars = \<lparr>hs_addr = '':'' @ get_env vars ''PORT'' ''9000'', hs_read_timeout = 15 * second,
     hs_write_timeout = 30 * second, hs_idle_timeout = 60 * second\<rparr>"

datatype cell_target = Cell_Handler | Cell_Health_Handler

definition cell_dispatch :: "string \<Rightarrow> string \<Rightarrow> cell_target dispatch" where
  "cell_dispatch = mux_dispatch [(''/health'', Cell_Health_Handler)] (Some Cell_Handler)"

text \<open>The response and the logged line, if there is one; \<open>now\<close> is read twice, for the line and for the response.\<close>

definition serve_cell ::
    "(string \<Rightarrow> string) \<Rightarrow> string \<Rightarrow> (nat \<Rightarrow> instant) \<Rightarrow> string \<Rightarrow> request \<Rightarrow> writer \<Rightarrow> writer outcome \<times> log_fields option" where
  "serve_cell location cell now escaped r wr =
     (case cell_dispatch (rq_method r) escaped of
        Bad_Target \<Rightarrow> (write_header 400 wr, None)
      | Moved p \<Rightarrow> (write_moved (location p) wr, None)
      | Not_Found \<Rightarrow> (write_not_found wr, None)
      | Found Cell_Handler \<Rightarrow> (Ret (cell_handle cell (now 1) r wr), Some (cell_log cell (now 0) r))
      | Found Cell_Health_Handler \<Rightarrow> (Ret (cell_health cell wr), Some (cell_health_log cell (now 0) r)))"

definition end_cell :: "process_end \<Rightarrow> process_note list" where
  "end_cell e = (case e of Listen_Failed err \<Rightarrow> [Server_Failed err] | Signalled err \<Rightarrow> shutdown_notes err)"

section \<open>What a cell answers\<close>

lemma extract_headers_keys: "fst ` set (extract_headers ks h) \<subseteq> set ks"
  by (induction ks) (auto simp: Let_def)

lemma extract_headers_distinct: "distinct ks \<Longrightarrow> distinct (map fst (extract_headers ks h))"
proof (induction ks)
  case (Cons k ks)
  then show ?case using extract_headers_keys [of ks h] by (auto simp: Let_def)
qed simp

lemma map_of_extract_headers:
  "map_of (extract_headers ks h) k = (if k \<in> set ks \<and> header_get h k \<noteq> [] then Some (header_get h k) else None)"
  by (induction ks) (auto simp: Let_def)

text \<open>The members of the reported headers, as they read back.\<close>

definition report_headers :: "request \<Rightarrow> (string \<times> json) list" where
  "report_headers r = map (\<lambda>(k, v). (k, JStr (to_utf8 v))) (sort_key fst (extract_headers interesting_headers (rq_header r)))"

lemma report_header:
  assumes "k \<in> set interesting_headers" "header_get (rq_header r) k \<noteq> []"
  shows "map_of (report_headers r) k = Some (JStr (to_utf8 (header_get (rq_header r) k)))"
proof -
  let ?es = "extract_headers interesting_headers (rq_header r)"
  have "distinct interesting_headers" by (simp add: interesting_headers_def)
  then have "gomap_wf (Some ?es)" using extract_headers_distinct by (simp add: gomap_wf_def)
  from lookup_sorted_map [OF this, of k] have "map_of (sort_key fst ?es) k = map_of ?es k"
    by (simp add: sorted_map_def lookup_def)
  then show ?thesis using assms by (simp add: report_headers_def map_of_map map_of_extract_headers)
qed

lemma sanitize_headers:
  "sanitize (encode_string_map (Some (extract_headers interesting_headers (rq_header r)))) = JObj (report_headers r)"
proof -
  have "to_utf8 k = k" if "k \<in> set interesting_headers" for k
    using that by (auto simp: interesting_headers_def to_utf8_id)
  moreover have "fst ` set (extract_headers interesting_headers (rq_header r)) \<subseteq> set interesting_headers"
    by (rule extract_headers_keys)
  ultimately show ?thesis by (fastforce simp: encode_string_map_def report_headers_def)
qed

lemma cell_report_prints: "numbers_ok (cell_report cell now r) \<and> depth (cell_report cell now r) \<le> max_nesting"
proof -
  have "foldr (\<lambda>(k, v). max (depth v)) (map (\<lambda>(k, v). (k, JStr v)) es) 0 = 0" for es :: "(string \<times> string) list"
    by (induction es) auto
  then show ?thesis by (auto simp: cell_report_def encode_string_map_def max_nesting_def list_all_iff)
qed

lemma cell_answer:
  "wr_status (cell_handle cell now r new_writer) = Some 200
    \<and> parse_json (wr_body (cell_handle cell now r new_writer)) = Some (JObj [(''cell'', JStr (to_utf8 cell)),
        (''headers'', JObj (report_headers r)), (''message'', JStr (to_utf8 (''Hello from '' @ cell @ ''!''))),
        (''method'', JStr (to_utf8 (rq_method r))), (''path'', JStr (to_utf8 (rq_path r))),
        (''query'', JStr (to_utf8 (rq_raw_query r))), (''timestamp'', JStr (rfc3339 0 now))])"
proof -
  have "parse_json (print_json (cell_report cell now r)) = Some (sanitize (cell_report cell now r))"
    using cell_report_prints by (intro parse_print_any) auto
  from parse_json_line [OF this] show ?thesis
    by (simp add: cell_handle_def write_json_def write_ok_def new_writer_def cell_report_def sanitize_headers to_utf8_id
        del: sanitize.simps(1)) (simp add: to_utf8_id)
qed

section \<open>A cell behind the router\<close>

text \<open>
  What the HTTP client and server of \<open>net/http\<close> make of a request that reaches a cell and of its response: \<open>escape\<close> is the
  escaped path of a path, \<open>wire\<close> the headers that arrive for those sent and \<open>wire_back\<close> those that come back for those the
  handler set (both ends add their own, such as \<open>Accept-Encoding\<close> and \<open>Date\<close>). A response to \<open>HEAD\<close> has no body on the
  wire, whatever the handler writes. This is the documented behaviour of the library, an assumption of the theorem below, not code of the program.
\<close>

definition received :: "(header \<Rightarrow> header) \<Rightarrow> upstream_request \<Rightarrow> request" where
  "received wire u = \<lparr>rq_method = up_method u, rq_path = up_path u, rq_raw_query = up_raw_query u, rq_header = wire (up_header u),
     rq_remote_addr = [], rq_tls = False, rq_content_length = int (length (up_body u)), rq_body = up_body u\<rparr>"

definition cell_transport ::
    "(string \<Rightarrow> string) \<Rightarrow> string \<Rightarrow> (nat \<Rightarrow> instant) \<Rightarrow> (string \<Rightarrow> string) \<Rightarrow> (header \<Rightarrow> header) \<Rightarrow> (header \<Rightarrow> header)
     \<Rightarrow> upstream_request \<Rightarrow> reply" where
  "cell_transport location cell now escape wire wire_back u =
     (case fst (serve_cell location cell now (escape (up_path u)) (received wire u) new_writer) of
        Panic p \<Rightarrow> Send_Error ''EOF''
      | Ret wr \<Rightarrow> Reply (case wr_status wr of None \<Rightarrow> 200 | Some st \<Rightarrow> st) (wire_back (wr_header wr))
          (if up_method u = ''HEAD'' then [] else wr_body wr) None)"

lemma header_get_copy: "distinct (map fst src) \<Longrightarrow> header_get (header_copy src []) k = header_get src k"
  by (auto simp: header_get_def map_of_header_copy split: option.splits)

lemma upstream_header_get:
  assumes "distinct (map fst (rq_header r))"
  shows "header_get (upstream_headers rid r) ''X-Request-Id'' = rid"
    "header_get (upstream_headers rid r) ''X-Routing-Key'' = header_get (rq_header r) ''X-Routing-Key''"
  using assms by (simp_all add: upstream_headers_def Let_def header_get_set header_get_copy)

lemma response_header_kept:
  assumes "distinct (map fst hdr)" "k \<notin> {''X-Route-Reason'', ''X-Routed-To'', ''X-Failover-Reason'', ''X-Circuit-State''}"
  shows "header_get (response_headers hdr d failover st []) k = header_get hdr k"
  using assms by (simp add: response_headers_def Let_def header_get_set header_get_copy)

lemma cell_handle_header:
  "header_get (wr_header (cell_handle cell now r new_writer)) ''X-Cell-Name'' = cell"
  "distinct (map fst (wr_header (cell_handle cell now r new_writer)))"
  by (simp_all add: cell_handle_def write_json_def write_ok_def new_writer_def header_get_set)
    (simp add: header_set_def)

text \<open>What a transport does to headers: the names \<open>ks\<close> arrive with their values, and every name is listed once.\<close>

definition carries :: "string set \<Rightarrow> (header \<Rightarrow> header) \<Rightarrow> header \<Rightarrow> bool" where
  "carries ks f h \<longleftrightarrow> distinct (map fst (f h)) \<and> (\<forall>k\<in>ks. header_get (f h) k = header_get h k)"

text \<open>
  Property C5. A request through the router to a cell comes back with the cell's own account of it: the method, the
  path and the query of the client's request, the routing key, and the request id under which the router
  logged it, with the cell's name and the placement in the headers of the response. Only \<open>HEAD\<close> brings the
  status and the headers without the account. (\<open>CONNECT\<close>, which the library tunnels, is left out.)
\<close>

theorem cell_sees_request:
  assumes "routed env r d" "has_slot w (placement_key d)" "body_fits w r (placement_key d)"
    and "wd_writer w = new_writer" "manager_inv (h_circuit (wd_handler w))"
    and "fst (ask (ev_clock env 10) (breaker_for (ev_clock env 9) (h_circuit (wd_handler w)) (placement_key d)))"
    and "is_healthy (h_checker (wd_handler w)) (placement_key d)"
    and "build_request (request_id env r) r (endpoint_url d) = Inr req" "sendable req"
    and "ev_net env req = cell_transport location cell now escape wire wire_back req" "undisturbed env"
    and "cell_dispatch (rq_method r) (escape (rq_path r)) = Found Cell_Handler" "rq_method r \<noteq> ''CONNECT''"
    and "carries {''X-Request-Id'', ''X-Routing-Key''} wire (up_header req)"
    and "carries {''X-Cell-Name''} wire_back (wr_header (cell_handle cell (now 1) (received wire req) new_writer))"
    and "rq_path r \<noteq> [] \<and> hd (rq_path r) = CHR ''/''" "CHR ''#'' \<notin> set (rq_raw_query r)"
    and "distinct (map fst (rq_header r))" "request_id env r \<noteq> []"
  shows "let wr = wd_writer (snd (serve_http env r w)) in
      wr_status wr = Some 200 \<and> header_get (wr_header wr) ''X-Cell-Name'' = cell
    \<and> header_get (wr_header wr) ''X-Routed-To'' = placement_key d
    \<and> (if rq_method r = ''HEAD'' then wr_body wr = [] else
        (\<exists>hs. parse_json (wr_body wr) = Some (JObj [(''cell'', JStr (to_utf8 cell)), (''headers'', JObj hs),
          (''message'', JStr (to_utf8 (''Hello from '' @ cell @ ''!''))), (''method'', JStr (to_utf8 (rq_method r))),
          (''path'', JStr (to_utf8 (rq_path r))), (''query'', JStr (to_utf8 (rq_raw_query r))), (''timestamp'', JStr (rfc3339 0 (now 1)))])
        \<and> map_of hs ''X-Request-Id'' = Some (JStr (to_utf8 (request_id env r)))
        \<and> map_of hs ''X-Routing-Key'' = Some (JStr (to_utf8 (header_get (rq_header r) ''X-Routing-Key'')))))"
proof -
  obtain u where u: "parse_url (endpoint_url d) = Inr u"
    using assms(8) by (auto simp: build_request_def split: sum.splits)
  have req: "up_method req = rq_method r" "up_path req = rq_path r" "up_raw_query req = rq_raw_query r"
    "up_header req = upstream_headers (request_id env r) r"
    using build_request_ok [OF u assms(17), of "request_id env r"] assms(8,16) by auto
  let ?r = "received wire req" let ?wr = "cell_handle cell (now 1) ?r new_writer"
  let ?hdr = "wire_back (wr_header ?wr)" and ?body = "if rq_method r = ''HEAD'' then [] else wr_body ?wr"
  note answer = cell_answer [of cell "now 1" ?r]
  have "ev_net env req = Reply 200 ?hdr ?body None"
    using answer assms(12) by (simp add: assms(10) cell_transport_def serve_cell_def received_def req)
  from proxied_answer [OF assms(1-9) this _ _ assms(11)]
  have "served env w (placement_key d) (first_target d) req (Reply 200 ?hdr ?body None) (snd (serve_http env r w))"
    by simp
  then have wr: "wr_status (wd_writer (snd (serve_http env r w))) = Some 200"
    "wr_body (wd_writer (snd (serve_http env r w))) = ?body"
    "\<exists>st. wr_header (wd_writer (snd (serve_http env r w))) = response_headers ?hdr d [] st []"
    by (auto simp: served_def Let_def)
  have hdr: "distinct (map fst ?hdr)" "header_get ?hdr ''X-Cell-Name'' = cell"
    using assms(15) cell_handle_header [of cell "now 1" ?r] by (simp_all add: carries_def)
  have "header_get (wr_header (wd_writer (snd (serve_http env r w)))) ''X-Cell-Name'' = cell"
    "header_get (wr_header (wd_writer (snd (serve_http env r w)))) ''X-Routed-To'' = placement_key d"
    using wr(3) response_header_kept [OF hdr(1), of "''X-Cell-Name''" d "[]"] hdr(2)
    by (auto simp: response_headers_def header_get_set Let_def)
  moreover have "header_get (wire (up_header req)) k = header_get (up_header req) k" if "k \<in> {''X-Request-Id'', ''X-Routing-Key''}" for k
    using assms(14) that by (auto simp: carries_def)
  then have "map_of (report_headers ?r) ''X-Request-Id'' = Some (JStr (to_utf8 (request_id env r)))"
    "map_of (report_headers ?r) ''X-Routing-Key'' = Some (JStr (to_utf8 (header_get (rq_header r) ''X-Routing-Key'')))"
    using report_header [of _ ?r] assms(1,19) upstream_header_get [OF assms(18), of "request_id env r"]
    by (simp_all add: received_def req routed_def interesting_headers_def)
  ultimately show ?thesis
    using wr answer by (simp add: received_def req Let_def)
qed

lemma header_copy_distinct: "distinct (map fst dst) \<Longrightarrow> distinct (map fst (header_copy src dst))"
proof (induction src dst rule: header_copy.induct)
  case (2 k vs src dst)
  have "distinct (map fst (fold (header_add k) vs h))" if "distinct (map fst h)" for h
    using that by (induction vs arbitrary: h) (simp_all add: header_add_def distinct_update)
  with 2 show ?case by simp
qed simp

lemma build_request_distinct: "build_request rid r url = Inr req \<Longrightarrow> distinct (map fst (up_header req))"
  by (auto simp: build_request_def upstream_headers_def Let_def header_set_def header_copy_distinct distinct_update
      split: sum.splits)

definition sample_cell_env :: env where
  "sample_cell_env = (sample_proxy_env 200)\<lparr>ev_net := cell_transport (\<lambda>p. p) ''cell-visa'' (\<lambda>_. 0) (\<lambda>p. p) (\<lambda>h. h) (\<lambda>h. h)\<rparr>"

lemma sample_cell_env_facts [simp]:
  "routed sample_cell_env (sample_request ''visa'' 0) sample_visa" "undisturbed sample_cell_env"
  "request_id sample_cell_env (sample_request ''visa'' 0) = ''r1''"
  "ev_net sample_cell_env = cell_transport (\<lambda>p. p) ''cell-visa'' (\<lambda>_. 0) (\<lambda>p. p) (\<lambda>h. h) (\<lambda>h. h)"
  by (simp_all add: sample_cell_env_def routed_def undisturbed_def request_id_def sample_proxy_env_def sample_request_def header_get_def)

theorem cell_sees_request_witness:
  "\<exists>hs. parse_json (wr_body (wd_writer (snd (serve_http sample_cell_env (sample_request ''visa'' 0) (sample_world 0)))))
      = Some (JObj [(''cell'', JStr ''cell-visa''), (''headers'', JObj hs), (''message'', JStr ''Hello from cell-visa!''),
          (''method'', JStr ''GET''), (''path'', JStr ''/pay''), (''query'', JStr ''a=1''), (''timestamp'', JStr (rfc3339 0 0))])
    \<and> map_of hs ''X-Request-Id'' = Some (JStr ''r1'')"
proof -
  let ?r = "sample_request ''visa'' 0"
  obtain req where req: "build_request (request_id sample_cell_env ?r) ?r (endpoint_url sample_visa) = Inr req" "sendable req"
    using sample_build [of "endpoint_url sample_visa"] by (metis sample_world_fields(11))
  have r: "rq_method ?r = ''GET''" "rq_path ?r = ''/pay''" "rq_raw_query ?r = ''a=1''" "distinct (map fst (rq_header ?r))"
    by (simp_all add: sample_request_def)
  have h: "is_healthy (h_checker (wd_handler (sample_world 0))) (placement_key sample_visa)"
    by (simp add: is_healthy_def new_checker_def)
  have d: "cell_dispatch (rq_method ?r) (rq_path ?r) = Found Cell_Handler"
    by (simp add: r cell_dispatch_def mux_dispatch_def mux_match_def clean_path_def Let_def join_slash_def plain_segment_def)
  let ?cell = "cell_handle ''cell-visa'' 0 (received (\<lambda>h. h) req) new_writer"
  have c: "carries ks (\<lambda>h. h) (up_header req)" "carries ks (\<lambda>h. h) (wr_header ?cell)" for ks
    using build_request_distinct [OF req(1)] cell_handle_header(2) by (simp_all add: carries_def)
  show ?thesis
    using cell_sees_request [where cell = "''cell-visa''" and escape = "\<lambda>p. p" and wire = "\<lambda>h. h" and wire_back = "\<lambda>h. h"
        and location = "\<lambda>p. p" and now = "\<lambda>_. 0",
        OF sample_cell_env_facts(1) sample_has_slot _ _ _ _ h req _ _ d _ c] r
    by (auto simp: Let_def to_utf8_id)
qed

end
