(* ===== verification/Shipped_Files.thy ===== *)
theory Shipped_Files
  imports Loader
begin

text \<open>
  The configuration files of the repository, \<open>config/routing.json\<close> and \<open>config/routing-m4.json\<close>, byte for
  byte: both are read, decoded and accepted by validation. They serve as the concrete inputs of the
  properties that span components.
\<close>

lemma decode_pointer_new: "decode_pointer fs zero (JObj ms) None = map_option Some (decode_members fs ms zero)"
  by (simp add: decode_pointer_def decode_struct_def)

text \<open>A placement with all settings, and one without a fallback.\<close>

lemma decode_health [simp]:
  "decode_pointer health_check_fields \<lparr>hc_path = [], hc_interval = [], hc_timeout = []\<rparr>
     (JObj [(''path'', JStr p), (''interval'', JStr i), (''timeout'', JStr t)]) None
   = Some (Some \<lparr>hc_path = p, hc_interval = i, hc_timeout = t\<rparr>)"
  by (simp add: decode_pointer_def health_check_fields_def json_eval)

lemma decode_breaker [simp]:
  "int_literal n = Some k \<Longrightarrow> decode_pointer circuit_breaker_fields \<lparr>cb_failure_threshold = 0, cb_timeout = []\<rparr>
     (JObj [(''failure_threshold'', JNum n), (''timeout'', JStr t)]) None
   = Some (Some \<lparr>cb_failure_threshold = k, cb_timeout = t\<rparr>)"
  by (simp add: decode_pointer_def circuit_breaker_fields_def json_eval decode_int_def)

lemma decode_placement [simp]:
  assumes "int_literal n = Some k" "int_literal m = Some l" "int_literal s = Some b"
  shows "decode_pointer placement_fields zero_placement (JObj [(''url'', JStr u), (''fallback'', JStr f),
       (''health_check'', JObj [(''path'', JStr p), (''interval'', JStr i), (''timeout'', JStr t)]),
       (''circuit_breaker'', JObj [(''failure_threshold'', JNum n), (''timeout'', JStr ct)]),
       (''concurrency_limit'', JNum m), (''max_request_body_bytes'', JNum s)]) None
     = Some (Some \<lparr>pl_url = u, pl_fallback = f, pl_health_check = Some \<lparr>hc_path = p, hc_interval = i, hc_timeout = t\<rparr>,
         pl_circuit_breaker = Some \<lparr>cb_failure_threshold = k, cb_timeout = ct\<rparr>,
         pl_concurrency_limit = l, pl_max_request_body_bytes = b\<rparr>)"
    "decode_pointer placement_fields zero_placement (JObj [(''url'', JStr u),
       (''health_check'', JObj [(''path'', JStr p), (''interval'', JStr i), (''timeout'', JStr t)]),
       (''circuit_breaker'', JObj [(''failure_threshold'', JNum n), (''timeout'', JStr ct)]),
       (''concurrency_limit'', JNum m), (''max_request_body_bytes'', JNum s)]) None
     = Some (Some \<lparr>pl_url = u, pl_fallback = [], pl_health_check = Some \<lparr>hc_path = p, hc_interval = i, hc_timeout = t\<rparr>,
         pl_circuit_breaker = Some \<lparr>cb_failure_threshold = k, cb_timeout = ct\<rparr>,
         pl_concurrency_limit = l, pl_max_request_body_bytes = b\<rparr>)"
  using assms by (subst decode_pointer_new, simp add: placement_fields_def zero_placement_def json_eval decode_int_def)+

lemma shipped_numbers [simp]:
  "int_literal ''3'' = Some 3" "int_literal ''5'' = Some 5" "int_literal ''50'' = Some 50" "int_literal ''100'' = Some 100"
  "int_literal ''200'' = Some 200" "int_literal ''5242880'' = Some 5242880" "int_literal ''10485760'' = Some 10485760"
  by (simp_all add: int_literal_def is_digit_def digit_value_def)

definition routing_json_lines :: "string list" where
  \<open>routing_json_lines = [
    ''{'',
    ''  "version": "1.0.0",'',
    ''  "routingTable": {'',
    ''    "acme": "tier1",'',
    ''    "globex": "tier2",'',
    ''    "initech": "tier3",'',
    ''    "visa": "visa"'',
    ''  },'',
    ''  "cellEndpoints": {'',
    ''    "tier1": "http://cell-tier1:9001",'',
    ''    "tier2": "http://cell-tier2:9002",'',
    ''    "tier3": "http://cell-tier3:9003",'',
    ''    "visa": "http://cell-visa:9004"'',
    ''  },'',
    ''  "defaultPlacement": "tier3"'',
    ''}'']\<close>

definition routing_json :: string where
  "routing_json = unlines routing_json_lines"

definition routing_config :: config where
  "routing_config = \<lparr>version = ''1.0.0'',
     routing_table = Some [(''acme'', ''tier1''), (''globex'', ''tier2''), (''initech'', ''tier3''), (''visa'', ''visa'')],
     cell_endpoints = Some [(''tier1'', ''http://cell-tier1:9001''), (''tier2'', ''http://cell-tier2:9002''), (''tier3'', ''http://cell-tier3:9003''), (''visa'', ''http://cell-visa:9004'')],
     placements = None,
     default_placement = ''tier3''\<rparr>"

definition routing_json_tokens :: "token list list" where
  "routing_json_tokens = [
    [T_Left_Brace],
    [T_Str ''version'', T_Colon, T_Str ''1.0.0'', T_Comma],
    [T_Str ''routingTable'', T_Colon, T_Left_Brace],
    [T_Str ''acme'', T_Colon, T_Str ''tier1'', T_Comma],
    [T_Str ''globex'', T_Colon, T_Str ''tier2'', T_Comma],
    [T_Str ''initech'', T_Colon, T_Str ''tier3'', T_Comma],
    [T_Str ''visa'', T_Colon, T_Str ''visa''],
    [T_Right_Brace, T_Comma],
    [T_Str ''cellEndpoints'', T_Colon, T_Left_Brace],
    [T_Str ''tier1'', T_Colon, T_Str ''http://cell-tier1:9001'', T_Comma],
    [T_Str ''tier2'', T_Colon, T_Str ''http://cell-tier2:9002'', T_Comma],
    [T_Str ''tier3'', T_Colon, T_Str ''http://cell-tier3:9003'', T_Comma],
    [T_Str ''visa'', T_Colon, T_Str ''http://cell-visa:9004''],
    [T_Right_Brace, T_Comma],
    [T_Str ''defaultPlacement'', T_Colon, T_Str ''tier3''],
    [T_Right_Brace]]"

lemma parse_routing_json: "parse_json routing_json = Some (JObj [(''version'', JStr ''1.0.0''), (''routingTable'', JObj [(''acme'', JStr ''tier1''), (''globex'', JStr ''tier2''), (''initech'', JStr ''tier3''), (''visa'', JStr ''visa'')]), (''cellEndpoints'', JObj [(''tier1'', JStr ''http://cell-tier1:9001''), (''tier2'', JStr ''http://cell-tier2:9002''), (''tier3'', JStr ''http://cell-tier3:9003''), (''visa'', JStr ''http://cell-visa:9004'')]), (''defaultPlacement'', JStr ''tier3'')])"
  unfolding routing_json_def
proof (rule parse_lines)
  show "list_all2 (\<lambda>l ts. lex_json l = Some ts) routing_json_lines routing_json_tokens"
    by code_simp
qed (simp add: routing_json_tokens_def begin_value_def max_nesting_def)

lemma load_routing_json [simp]: "load_from_file (Inr routing_json) = Inr routing_config"
  by (simp add: load_from_file_def unmarshal_def parse_routing_json)
    (simp add: decode_config_def config_fields_def zero_config_def json_eval decode_string_map_def decode_map_def routing_config_def)

lemma valid_routing_config [simp]: "validate routing_config = Ret None"
  by (simp add: validate_def routing_config_def get_cell_endpoints_def validate_placement_def parse_health_check_def
      parse_circuit_breaker_def url_eval duration_eval)

definition routing_m4_json_lines :: "string list" where
  \<open>routing_m4_json_lines = [
    ''{'',
    ''  "version": "2.0.0",'',
    ''  "routingTable": {'',
    ''    "acme": "tier1",'',
    ''    "globex": "tier2",'',
    ''    "initech": "tier3",'',
    ''    "visa": "visa"'',
    ''  },'',
    ''  "placements": {'',
    ''    "tier1": {'',
    ''      "url": "http://cell-tier1:9001",'',
    ''      "fallback": "tier3",'',
    ''      "health_check": {'',
    ''        "path": "/health",'',
    ''        "interval": "10s",'',
    ''        "timeout": "2s"'',
    ''      },'',
    ''      "circuit_breaker": {'',
    ''        "failure_threshold": 5,'',
    ''        "timeout": "30s"'',
    ''      },'',
    ''      "concurrency_limit": 100,'',
    ''      "max_request_body_bytes": 10485760'',
    ''    },'',
    ''    "tier2": {'',
    ''      "url": "http://cell-tier2:9002",'',
    ''      "fallback": "tier3",'',
    ''      "health_check": {'',
    ''        "path": "/health",'',
    ''        "interval": "10s",'',
    ''        "timeout": "2s"'',
    ''      },'',
    ''      "circuit_breaker": {'',
    ''        "failure_threshold": 5,'',
    ''        "timeout": "30s"'',
    ''      },'',
    ''      "concurrency_limit": 100,'',
    ''      "max_request_body_bytes": 10485760'',
    ''    },'',
    ''    "tier3": {'',
    ''      "url": "http://cell-tier3:9003",'',
    ''      "health_check": {'',
    ''        "path": "/health",'',
    ''        "interval": "10s",'',
    ''        "timeout": "2s"'',
    ''      },'',
    ''      "circuit_breaker": {'',
    ''        "failure_threshold": 5,'',
    ''        "timeout": "30s"'',
    ''      },'',
    ''      "concurrency_limit": 200,'',
    ''      "max_request_body_bytes": 10485760'',
    ''    },'',
    ''    "visa": {'',
    ''      "url": "http://cell-visa:9004",'',
    ''      "fallback": "tier3",'',
    ''      "health_check": {'',
    ''        "path": "/health",'',
    ''        "interval": "5s",'',
    ''        "timeout": "1s"'',
    ''      },'',
    ''      "circuit_breaker": {'',
    ''        "failure_threshold": 3,'',
    ''        "timeout": "60s"'',
    ''      },'',
    ''      "concurrency_limit": 50,'',
    ''      "max_request_body_bytes": 5242880'',
    ''    }'',
    ''  },'',
    ''  "defaultPlacement": "tier3"'',
    ''}'']\<close>

definition routing_m4_json :: string where
  "routing_m4_json = unlines routing_m4_json_lines"

definition routing_m4_config :: config where
  "routing_m4_config = \<lparr>version = ''2.0.0'',
     routing_table = Some [(''acme'', ''tier1''), (''globex'', ''tier2''), (''initech'', ''tier3''), (''visa'', ''visa'')],
     cell_endpoints = None,
     placements = Some [(''tier1'', Some \<lparr>pl_url = ''http://cell-tier1:9001'', pl_fallback = ''tier3'',
         pl_health_check = Some \<lparr>hc_path = ''/health'', hc_interval = ''10s'', hc_timeout = ''2s''\<rparr>,
         pl_circuit_breaker = Some \<lparr>cb_failure_threshold = 5, cb_timeout = ''30s''\<rparr>,
         pl_concurrency_limit = 100, pl_max_request_body_bytes = 10485760\<rparr>),
       (''tier2'', Some \<lparr>pl_url = ''http://cell-tier2:9002'', pl_fallback = ''tier3'',
         pl_health_check = Some \<lparr>hc_path = ''/health'', hc_interval = ''10s'', hc_timeout = ''2s''\<rparr>,
         pl_circuit_breaker = Some \<lparr>cb_failure_threshold = 5, cb_timeout = ''30s''\<rparr>,
         pl_concurrency_limit = 100, pl_max_request_body_bytes = 10485760\<rparr>),
       (''tier3'', Some \<lparr>pl_url = ''http://cell-tier3:9003'', pl_fallback = [],
         pl_health_check = Some \<lparr>hc_path = ''/health'', hc_interval = ''10s'', hc_timeout = ''2s''\<rparr>,
         pl_circuit_breaker = Some \<lparr>cb_failure_threshold = 5, cb_timeout = ''30s''\<rparr>,
         pl_concurrency_limit = 200, pl_max_request_body_bytes = 10485760\<rparr>),
       (''visa'', Some \<lparr>pl_url = ''http://cell-visa:9004'', pl_fallback = ''tier3'',
         pl_health_check = Some \<lparr>hc_path = ''/health'', hc_interval = ''5s'', hc_timeout = ''1s''\<rparr>,
         pl_circuit_breaker = Some \<lparr>cb_failure_threshold = 3, cb_timeout = ''60s''\<rparr>,
         pl_concurrency_limit = 50, pl_max_request_body_bytes = 5242880\<rparr>)],
     default_placement = ''tier3''\<rparr>"

definition routing_m4_json_tokens :: "token list list" where
  "routing_m4_json_tokens = [
    [T_Left_Brace],
    [T_Str ''version'', T_Colon, T_Str ''2.0.0'', T_Comma],
    [T_Str ''routingTable'', T_Colon, T_Left_Brace],
    [T_Str ''acme'', T_Colon, T_Str ''tier1'', T_Comma],
    [T_Str ''globex'', T_Colon, T_Str ''tier2'', T_Comma],
    [T_Str ''initech'', T_Colon, T_Str ''tier3'', T_Comma],
    [T_Str ''visa'', T_Colon, T_Str ''visa''],
    [T_Right_Brace, T_Comma],
    [T_Str ''placements'', T_Colon, T_Left_Brace],
    [T_Str ''tier1'', T_Colon, T_Left_Brace],
    [T_Str ''url'', T_Colon, T_Str ''http://cell-tier1:9001'', T_Comma],
    [T_Str ''fallback'', T_Colon, T_Str ''tier3'', T_Comma],
    [T_Str ''health_check'', T_Colon, T_Left_Brace],
    [T_Str ''path'', T_Colon, T_Str ''/health'', T_Comma],
    [T_Str ''interval'', T_Colon, T_Str ''10s'', T_Comma],
    [T_Str ''timeout'', T_Colon, T_Str ''2s''],
    [T_Right_Brace, T_Comma],
    [T_Str ''circuit_breaker'', T_Colon, T_Left_Brace],
    [T_Str ''failure_threshold'', T_Colon, T_Num ''5'', T_Comma],
    [T_Str ''timeout'', T_Colon, T_Str ''30s''],
    [T_Right_Brace, T_Comma],
    [T_Str ''concurrency_limit'', T_Colon, T_Num ''100'', T_Comma],
    [T_Str ''max_request_body_bytes'', T_Colon, T_Num ''10485760''],
    [T_Right_Brace, T_Comma],
    [T_Str ''tier2'', T_Colon, T_Left_Brace],
    [T_Str ''url'', T_Colon, T_Str ''http://cell-tier2:9002'', T_Comma],
    [T_Str ''fallback'', T_Colon, T_Str ''tier3'', T_Comma],
    [T_Str ''health_check'', T_Colon, T_Left_Brace],
    [T_Str ''path'', T_Colon, T_Str ''/health'', T_Comma],
    [T_Str ''interval'', T_Colon, T_Str ''10s'', T_Comma],
    [T_Str ''timeout'', T_Colon, T_Str ''2s''],
    [T_Right_Brace, T_Comma],
    [T_Str ''circuit_breaker'', T_Colon, T_Left_Brace],
    [T_Str ''failure_threshold'', T_Colon, T_Num ''5'', T_Comma],
    [T_Str ''timeout'', T_Colon, T_Str ''30s''],
    [T_Right_Brace, T_Comma],
    [T_Str ''concurrency_limit'', T_Colon, T_Num ''100'', T_Comma],
    [T_Str ''max_request_body_bytes'', T_Colon, T_Num ''10485760''],
    [T_Right_Brace, T_Comma],
    [T_Str ''tier3'', T_Colon, T_Left_Brace],
    [T_Str ''url'', T_Colon, T_Str ''http://cell-tier3:9003'', T_Comma],
    [T_Str ''health_check'', T_Colon, T_Left_Brace],
    [T_Str ''path'', T_Colon, T_Str ''/health'', T_Comma],
    [T_Str ''interval'', T_Colon, T_Str ''10s'', T_Comma],
    [T_Str ''timeout'', T_Colon, T_Str ''2s''],
    [T_Right_Brace, T_Comma],
    [T_Str ''circuit_breaker'', T_Colon, T_Left_Brace],
    [T_Str ''failure_threshold'', T_Colon, T_Num ''5'', T_Comma],
    [T_Str ''timeout'', T_Colon, T_Str ''30s''],
    [T_Right_Brace, T_Comma],
    [T_Str ''concurrency_limit'', T_Colon, T_Num ''200'', T_Comma],
    [T_Str ''max_request_body_bytes'', T_Colon, T_Num ''10485760''],
    [T_Right_Brace, T_Comma],
    [T_Str ''visa'', T_Colon, T_Left_Brace],
    [T_Str ''url'', T_Colon, T_Str ''http://cell-visa:9004'', T_Comma],
    [T_Str ''fallback'', T_Colon, T_Str ''tier3'', T_Comma],
    [T_Str ''health_check'', T_Colon, T_Left_Brace],
    [T_Str ''path'', T_Colon, T_Str ''/health'', T_Comma],
    [T_Str ''interval'', T_Colon, T_Str ''5s'', T_Comma],
    [T_Str ''timeout'', T_Colon, T_Str ''1s''],
    [T_Right_Brace, T_Comma],
    [T_Str ''circuit_breaker'', T_Colon, T_Left_Brace],
    [T_Str ''failure_threshold'', T_Colon, T_Num ''3'', T_Comma],
    [T_Str ''timeout'', T_Colon, T_Str ''60s''],
    [T_Right_Brace, T_Comma],
    [T_Str ''concurrency_limit'', T_Colon, T_Num ''50'', T_Comma],
    [T_Str ''max_request_body_bytes'', T_Colon, T_Num ''5242880''],
    [T_Right_Brace],
    [T_Right_Brace, T_Comma],
    [T_Str ''defaultPlacement'', T_Colon, T_Str ''tier3''],
    [T_Right_Brace]]"

lemma parse_routing_m4_json: "parse_json routing_m4_json = Some (JObj [(''version'', JStr ''2.0.0''), (''routingTable'', JObj [(''acme'', JStr ''tier1''), (''globex'', JStr ''tier2''), (''initech'', JStr ''tier3''), (''visa'', JStr ''visa'')]), (''placements'', JObj [(''tier1'', JObj [(''url'', JStr ''http://cell-tier1:9001''), (''fallback'', JStr ''tier3''), (''health_check'', JObj [(''path'', JStr ''/health''), (''interval'', JStr ''10s''), (''timeout'', JStr ''2s'')]), (''circuit_breaker'', JObj [(''failure_threshold'', JNum ''5''), (''timeout'', JStr ''30s'')]), (''concurrency_limit'', JNum ''100''), (''max_request_body_bytes'', JNum ''10485760'')]), (''tier2'', JObj [(''url'', JStr ''http://cell-tier2:9002''), (''fallback'', JStr ''tier3''), (''health_check'', JObj [(''path'', JStr ''/health''), (''interval'', JStr ''10s''), (''timeout'', JStr ''2s'')]), (''circuit_breaker'', JObj [(''failure_threshold'', JNum ''5''), (''timeout'', JStr ''30s'')]), (''concurrency_limit'', JNum ''100''), (''max_request_body_bytes'', JNum ''10485760'')]), (''tier3'', JObj [(''url'', JStr ''http://cell-tier3:9003''), (''health_check'', JObj [(''path'', JStr ''/health''), (''interval'', JStr ''10s''), (''timeout'', JStr ''2s'')]), (''circuit_breaker'', JObj [(''failure_threshold'', JNum ''5''), (''timeout'', JStr ''30s'')]), (''concurrency_limit'', JNum ''200''), (''max_request_body_bytes'', JNum ''10485760'')]), (''visa'', JObj [(''url'', JStr ''http://cell-visa:9004''), (''fallback'', JStr ''tier3''), (''health_check'', JObj [(''path'', JStr ''/health''), (''interval'', JStr ''5s''), (''timeout'', JStr ''1s'')]), (''circuit_breaker'', JObj [(''failure_threshold'', JNum ''3''), (''timeout'', JStr ''60s'')]), (''concurrency_limit'', JNum ''50''), (''max_request_body_bytes'', JNum ''5242880'')])]), (''defaultPlacement'', JStr ''tier3'')])"
  unfolding routing_m4_json_def
proof (rule parse_lines)
  show "list_all2 (\<lambda>l ts. lex_json l = Some ts) routing_m4_json_lines routing_m4_json_tokens"
    by code_simp
qed (simp add: routing_m4_json_tokens_def begin_value_def max_nesting_def)

lemma decode_routing_m4_json_placements:
  "decode_map (\<lambda>v. decode_pointer placement_fields zero_placement v None)
     (JObj [(''tier1'', JObj [(''url'', JStr ''http://cell-tier1:9001''), (''fallback'', JStr ''tier3''), (''health_check'', JObj [(''path'', JStr ''/health''), (''interval'', JStr ''10s''), (''timeout'', JStr ''2s'')]), (''circuit_breaker'', JObj [(''failure_threshold'', JNum ''5''), (''timeout'', JStr ''30s'')]), (''concurrency_limit'', JNum ''100''), (''max_request_body_bytes'', JNum ''10485760'')]), (''tier2'', JObj [(''url'', JStr ''http://cell-tier2:9002''), (''fallback'', JStr ''tier3''), (''health_check'', JObj [(''path'', JStr ''/health''), (''interval'', JStr ''10s''), (''timeout'', JStr ''2s'')]), (''circuit_breaker'', JObj [(''failure_threshold'', JNum ''5''), (''timeout'', JStr ''30s'')]), (''concurrency_limit'', JNum ''100''), (''max_request_body_bytes'', JNum ''10485760'')]), (''tier3'', JObj [(''url'', JStr ''http://cell-tier3:9003''), (''health_check'', JObj [(''path'', JStr ''/health''), (''interval'', JStr ''10s''), (''timeout'', JStr ''2s'')]), (''circuit_breaker'', JObj [(''failure_threshold'', JNum ''5''), (''timeout'', JStr ''30s'')]), (''concurrency_limit'', JNum ''200''), (''max_request_body_bytes'', JNum ''10485760'')]), (''visa'', JObj [(''url'', JStr ''http://cell-visa:9004''), (''fallback'', JStr ''tier3''), (''health_check'', JObj [(''path'', JStr ''/health''), (''interval'', JStr ''5s''), (''timeout'', JStr ''1s'')]), (''circuit_breaker'', JObj [(''failure_threshold'', JNum ''3''), (''timeout'', JStr ''60s'')]), (''concurrency_limit'', JNum ''50''), (''max_request_body_bytes'', JNum ''5242880'')])]) None = Some (Some [(''tier1'', Some \<lparr>pl_url = ''http://cell-tier1:9001'', pl_fallback = ''tier3'',
         pl_health_check = Some \<lparr>hc_path = ''/health'', hc_interval = ''10s'', hc_timeout = ''2s''\<rparr>,
         pl_circuit_breaker = Some \<lparr>cb_failure_threshold = 5, cb_timeout = ''30s''\<rparr>,
         pl_concurrency_limit = 100, pl_max_request_body_bytes = 10485760\<rparr>),
       (''tier2'', Some \<lparr>pl_url = ''http://cell-tier2:9002'', pl_fallback = ''tier3'',
         pl_health_check = Some \<lparr>hc_path = ''/health'', hc_interval = ''10s'', hc_timeout = ''2s''\<rparr>,
         pl_circuit_breaker = Some \<lparr>cb_failure_threshold = 5, cb_timeout = ''30s''\<rparr>,
         pl_concurrency_limit = 100, pl_max_request_body_bytes = 10485760\<rparr>),
       (''tier3'', Some \<lparr>pl_url = ''http://cell-tier3:9003'', pl_fallback = [],
         pl_health_check = Some \<lparr>hc_path = ''/health'', hc_interval = ''10s'', hc_timeout = ''2s''\<rparr>,
         pl_circuit_breaker = Some \<lparr>cb_failure_threshold = 5, cb_timeout = ''30s''\<rparr>,
         pl_concurrency_limit = 200, pl_max_request_body_bytes = 10485760\<rparr>),
       (''visa'', Some \<lparr>pl_url = ''http://cell-visa:9004'', pl_fallback = ''tier3'',
         pl_health_check = Some \<lparr>hc_path = ''/health'', hc_interval = ''5s'', hc_timeout = ''1s''\<rparr>,
         pl_circuit_breaker = Some \<lparr>cb_failure_threshold = 3, cb_timeout = ''60s''\<rparr>,
         pl_concurrency_limit = 50, pl_max_request_body_bytes = 5242880\<rparr>)])"
  by (simp add: decode_map_def)

lemma load_routing_m4_json [simp]: "load_from_file (Inr routing_m4_json) = Inr routing_m4_config"
  by (simp add: load_from_file_def unmarshal_def parse_routing_m4_json)
    (simp add: decode_config_def config_fields_def zero_config_def json_eval decode_string_map_def decode_map_def routing_m4_config_def)

lemma valid_routing_m4_config [simp]: "validate routing_m4_config = Ret None"
  by (simp add: validate_def routing_m4_config_def get_cell_endpoints_def validate_placement_def parse_health_check_def
      parse_circuit_breaker_def url_eval duration_eval)

end
