(* ===== verification/Spec2Isabelle.thy ===== *)
theory Spec2Isabelle
  imports Config Routing Circuit Limits Health Proxy Requests Startup Protocol Loader Data_Plane Control_Plane System Mux Commands
    Cell Shipped_Files
begin

text \<open>
  A verification library for the cell router of this repository: a data plane (\<open>cmd/router\<close>) that picks a
  placement (a cell) for a request by its \<open>X-Routing-Key\<close> and proxies the request to it, a control plane
  (\<open>cmd/control-plane\<close>) that distributes the routing configuration over websockets, and a demo cell
  (\<open>cmd/cell\<close>). The Go code is under \<open>src/\<close>; each theory below translates the files it names.

  \<^bold>\<open>The parts and the theories.\<close>

  \<^item> \<open>Prelude\<close>: outcomes of a call (\<open>Ret\<close> a value or \<open>Panic\<close>), Go maps (nil or an association list with
    distinct keys, in the order a \<open>range\<close> visits it), the store of shared records behind a map of pointers
    (\<open>refs\<close>, \<open>cells\<close>), decimal text, reachable states and the locale \<open>invariant_system\<close>.
  \<^item> \<open>Go_Std\<close>: what the code uses of the Go library: \<open>time.ParseDuration\<close>, \<open>url.Parse\<close>, clocks.
  \<^item> \<open>Config\<close>: \<open>internal/config/config.go\<close>. The structs are records, \<open>Validate\<close> and the accessors
    functions. Its lemmas show \<open>Validate\<close> equivalent to the declarative \<open>valid_config\<close>, its errors true, and on which
    configurations it panics.
  \<^item> \<open>Json_Text\<close>: the text syntax of \<open>encoding/json\<close>: UTF-8, strings and their escapes, tokens, the scanner with its
    nesting limit, and the printer. Parsing undoes printing, and yields valid UTF-8 only.
  \<^item> \<open>Protocol\<close>: \<open>internal/protocol/messages.go\<close> and the struct tags of the configuration: filling structs from
    JSON trees and back, the round trip of a snapshot over its bytes, and the well-formedness of what is decoded.
  \<^item> \<open>Loader\<close>: \<open>internal/config/loader.go\<close> and \<open>LoadFromFile\<close>. The atomic values are one record, every file
    read is an argument. The last good configuration is an invariant of the loads and reloads.
  \<^item> \<open>Shipped_Files\<close>: the bytes of \<open>config/routing.json\<close> and \<open>config/routing-m4.json\<close>, read, decoded and
    accepted by validation; they are the concrete inputs of properties below.
  \<^item> \<open>Routing\<close>: \<open>internal/routing/router.go\<close>. \<open>Route\<close> over the three getters of a \<open>ConfigProvider\<close>; the locale
    \<open>config_provider\<close> states what a provider must promise, and is interpreted for the static provider here and for
    the loader in \<open>Loader\<close>.
  \<^item> \<open>Circuit\<close>: \<open>internal/circuit/breaker.go\<close>. The breaker with its 32-bit counters and its log lines, the
    manager with its two-phase lookup; refinement of an abstract three-state machine, in its answers and its
    states, and from it exactly when a breaker opens.
  \<^item> \<open>Limits\<close>: \<open>internal/limits/manager.go\<close>. A semaphore is a buffered channel with its waiting goroutines; the
    locale \<open>slot_pool\<close> carries the counting of slots.
  \<^item> \<open>Health\<close>: \<open>internal/health/checker.go\<close>. The checker and its goroutines as a step relation.
  \<^item> \<open>Logging\<close>: \<open>internal/logging/logger.go\<close>. A line is the list of its JSON fields. \<open>Log_Text\<close> has the
    bytes it is printed as: one line, whatever its strings are.
  \<^item> \<open>Proxy\<close>: \<open>internal/proxy/handler.go\<close>. \<open>ServeHTTP\<close> as a sequence of stages on a world (the handler with its
    managers, the response, the log, the requests sent upstream); other goroutines act on the handler at the two
    points where a request blocks (\<open>ev_others\<close>). \<open>Requests\<close> holds its theorems, one per way a request can
    end, and \<open>Startup\<close> those of \<open>NewHandler\<close>.
  \<^item> \<open>Data_Plane\<close>: \<open>internal/dataplane/client.go\<close>. Message handling, the reconnection loop with its backoff, and
    \<open>Start\<close>, \<open>Stop\<close> and the loop as a step relation.
  \<^item> \<open>Control_Plane\<close>: \<open>internal/controlplane/server.go\<close>. Its methods as functions, and the reload loop, the watcher
    and the connections as a step relation: a tick reads the version, reads the configuration and broadcasts it in
    three steps, between which the others go on, and every write can fail (\<open>watch_tick_steps\<close> links the three
    to the function \<open>watch_tick\<close>).
  \<^item> \<open>System\<close>: the control plane composed with its data planes over the messages in transit. In every
    reachable state a data plane has its file's configuration or what a snapshot of the control plane's delivers.
  \<^item> \<open>Mux\<close>: what the commands use of the library's \<open>ServeMux\<close>: path cleaning, redirects, and the handler of a path.
  \<^item> \<open>Commands\<close>: \<open>internal/debug/handler.go\<close>, and the processes \<open>cmd/router\<close> and \<open>cmd/control-plane\<close>: how they
    start, the request handlers behind their mux, and what they stop when they end.
  \<^item> \<open>Cell\<close>: \<open>cmd/cell\<close>, and a request that goes through the router to a cell and back, over a transport that
    behaves as \<open>net/http\<close> documents (it carries the headers in question and drops the body of a response to \<open>HEAD\<close>).
  \<^item> This theory: the properties that span components: a broadcast makes a data plane decide as the control
    plane does, a router that starts answers every request, with or without a control plane, and what a
    request meets when the loader's configuration and the handler's differ.

  \<^bold>\<open>Conventions.\<close> A mutex-protected method is one step. Pointers to shared structs are
  indices into a store, so that aliasing is visible. A clock is a function that gives each reading of one call its
  instant; instants and durations are nanoseconds as integers, counters keep their width. Errors are values of a
  datatype per component; a nil dereference, a failed type assertion, a non-positive ticker and closing a
  closed channel are \<open>Panic\<close>.

  \<^bold>\<open>Bounds.\<close> Every loop is a structural recursion over what it receives (map entries, ticks, frames,
  connection attempts), so there is no fuel; the loops that never end (reload, watch, reconnect, health
  check) take the list of the events they get, or are step relations, and their theorems hold for
  every list and every run.

  \<^bold>\<open>Parameters.\<close> SHA-256 (\<open>file_env\<close>), the HTTP transport (\<open>ev_net\<close> for proxied requests,
  \<open>check_env\<close> for checks), random bytes, clocks, the texts of library errors, and whether a websocket write
  succeeds.

  \<^bold>\<open>Not modelled.\<close> What the library does: the HTTP servers (their timeouts are data), the wait of a
    graceful shutdown, the websocket handshake and framing; concurrent writes on one websocket connection; the layout of
    the lines printed with the \<open>log\<close> package itself (they are kept as data, not as text); streaming (a response body is
    copied as a whole, possibly cut by an error); the text of a redirect's location, and a \<open>CONNECT\<close> to an authority.
\<close>

section \<open>From the control plane to the routing decisions\<close>

text \<open>
  Property C4. When the watcher of the control plane broadcasts a validated legacy configuration, every
  data plane that handles the message acknowledges it and from then on decides every key exactly as the control
  plane's own loader would, without errors, under the same version; and the configuration it then
  holds is again one that validation accepts.
\<close>

theorem broadcast_converges:
  assumes "good_loader lc" "active_config lc = Ret c" "entries (cell_endpoints c) \<noteq> []"
    and "watch_tick accepts lc lc s last_version = Ret (out, v)" "(conn, bytes) \<in> set out"
    and "handle_message err_text now (Some local_conn) bytes ld = (ld', replies, ns)"
  shows "(\<forall>key. \<exists>d. route loader_provider lc lc lc key = Ret (Inr d) \<and> route loader_provider ld' ld' ld' key = Ret (Inr d))
    \<and> get_config_version ld' = get_config_version lc \<and> get_config_source ld' = Source_Control_Plane
    \<and> serves_legacy ld' \<and> replies = send_ack (Some local_conn)"
proof -
  have bytes: "bytes = snapshot_bytes c"
    using assms(4,5) by (auto simp: watch_tick_result [OF assms(2)] split: if_splits)
  have lc: "ld_active lc = Some c" using assms(2) by (simp add: active_config_def split: option.splits)
  with assms(1) have c: "config_wf c" "config_text c" "valid_config c"
    using validate_iff by (auto simp: good_loader_def)
  have ld': "ld' = snd (apply_config now (delivered c) ld)" and r: "replies = send_ack (Some local_conn)"
    using assms(6) by (simp_all add: bytes handle_snapshot_of_config [OF c(1,2)])
  then have act: "ld_active ld' = Some (delivered c)" and src: "get_config_source ld' = Source_Control_Plane"
    by (simp_all add: apply_config_def get_config_source_def)
  have "entries (cell_endpoints (delivered c)) \<noteq> []" using assms(3) by (simp add: delivered_def)
  with act delivered_valid [OF c(1,3) assms(3)] have legacy: "serves_legacy ld'" by (simp add: serves_legacy_def)
  have "serves_legacy lc" using lc c(3) assms(3) by (simp add: serves_legacy_def)
  then have "\<exists>d. route loader_provider lc lc lc key = Ret (Inr d)" for key
    using dynamic.route_stable_total by blast
  moreover have "route loader_provider ld' ld' ld' key = route loader_provider lc lc lc key" for key
    unfolding route_active [OF act] route_active [OF lc]
    using c(1) by (simp add: delivered_def decide_sorted config_wf_def)
  moreover have "get_config_version ld' = get_config_version lc"
    using act lc by (simp add: get_config_version_def active_config_def delivered_def)
  ultimately show ?thesis using legacy src r by metis
qed

theorem broadcast_converges_witness:
  "\<exists>ld' replies ns. handle_message (\<lambda>_. []) 12 (Some 0) (snapshot_bytes (sample_config ''2'' [])) sample_loader = (ld', replies, ns)
    \<and> (\<exists>d. route loader_provider ld' ld' ld' ''visa'' = Ret (Inr d)) \<and> get_config_version ld' = Ret ''2''"
proof -
  let ?c = "sample_config ''2'' []" let ?s = "\<lparr>sv_clients = [3], sv_closed = []\<rparr>"
  have a: "active_config sample_loader_new = Ret ?c" by (simp add: active_config_def sample_loader_new_def)
  have e: "entries (cell_endpoints ?c) \<noteq> []" and n: "version ?c = ''2''" by (simp_all add: sample_config_def)
  have w: "watch_tick (\<lambda>_. True) sample_loader_new sample_loader_new ?s ''1'' = Ret ([(3, snapshot_bytes ?c)], ''2'')"
    by (simp add: watch_tick_result [OF a] n)
  obtain ld' replies ns where h: "handle_message (\<lambda>_. []) 12 (Some 0) (snapshot_bytes ?c) sample_loader = (ld', replies, ns)"
    by (metis prod_cases3)
  have "get_config_version sample_loader_new = Ret ''2''" using a n by (simp add: get_config_version_def)
  with broadcast_converges [OF sample_loaders_good(2) a e w _ h, of 3] h show ?thesis by auto
qed

section \<open>Requests under a loaded configuration\<close>

text \<open>
  Property C18. A configuration in the placements format passes validation and loads, with an endpoint for
  every routing key; but the router that reads it through the loader sees no endpoints, so every
  request that has a key is answered 500 and nothing is sent upstream.
\<close>

theorem placements_format_answers_500:
  assumes "good_loader l" "ld_active l = Some c" "entries (cell_endpoints c) = []"
    and "ev_route env = route loader_provider l l l" "header_get (rq_header r) ''X-Routing-Key'' \<noteq> []"
    and "wr_status (wd_writer w) = None"
  shows "endpoint_of c (placement_for (routing_table c) (default_placement c) (header_get (rq_header r) ''X-Routing-Key'')) \<noteq> None
    \<and> (\<exists>wr ls. serve_http env r w = (Ret (), w\<lparr>wd_writer := wr, wd_logs := wd_logs w @ ls\<rparr>)
      \<and> wr_status wr = Some 500 \<and> log_field (last ls) ''status_code'' = Some (Log_Int 500))"
proof
  have "valid_config c" using assms(1,2) validate_iff by (auto simp: good_loader_def)
  then show "endpoint_of c (placement_for (routing_table c) (default_placement c) (header_get (rq_header r) ''X-Routing-Key'')) \<noteq> None"
    by (rule valid_placement_for)
  show "\<exists>wr ls. serve_http env r w = (Ret (), w\<lparr>wd_writer := wr, wd_logs := wd_logs w @ ls\<rparr>)
      \<and> wr_status wr = Some 500 \<and> log_field (last ls) ''status_code'' = Some (Log_Int 500)"
    by (rule unroutable_answer [OF assms(6)]) (simp add: assms(4,5) route_placements_format [OF assms(2,3)])
qed

text \<open>The shipped file \<open>config/routing-m4.json\<close>: the router starts on it, and answers the key \<open>visa\<close> with 500.\<close>

theorem placements_format_answers_500_witness:
  "\<exists>p. start_router (\<lambda>_. []) sample_files 5 (\<lambda>_ _. Inr routing_m4_json) id = Ret (Running p) \<and>
    (\<exists>wr ls. serve_http ((sample_proxy_env 200)\<lparr>ev_route := route loader_provider (rp_loader p) (rp_loader p) (rp_loader p)\<rparr>)
      (sample_request ''visa'' 0) ((sample_world 0)\<lparr>wd_handler := rp_handler p\<rparr>)
        = (Ret (), (sample_world 0)\<lparr>wd_handler := rp_handler p, wd_writer := wr, wd_logs := wd_logs (sample_world 0) @ ls\<rparr>)
      \<and> wr_status wr = Some 500)"
proof -
  obtain p where p: "start_router (\<lambda>_. []) sample_files 5 (\<lambda>_ _. Inr routing_m4_json) id = Ret (Running p)"
    "good_loader (rp_loader p)" "ld_active (rp_loader p) = Some routing_m4_config"
    using start_router_file [OF load_routing_m4_json valid_routing_m4_config] by blast
  let ?env = "(sample_proxy_env 200)\<lparr>ev_route := route loader_provider (rp_loader p) (rp_loader p) (rp_loader p)\<rparr>"
  have "header_get (rq_header (sample_request ''visa'' 0)) ''X-Routing-Key'' \<noteq> []" "entries (cell_endpoints routing_m4_config) = []"
    by (simp_all add: sample_request_def header_get_def routing_m4_config_def)
  then show ?thesis
    using placements_format_answers_500 [OF p(2,3), of ?env "sample_request ''visa'' 0" "(sample_world 0)\<lparr>wd_handler := rp_handler p\<rparr>"] p(1)
    by (auto simp: sample_world_def new_writer_def)
qed

text \<open>
  Property C29. When the endpoint of the routed placement is unhealthy and has no fallback, the
  request goes to the default placement of the configuration that the handler was made with, whatever
  configuration the loader, which decided the route, has now.
\<close>

theorem failover_uses_startup_default:
  assumes "ld_active l = Some now_active" "ev_route env = route loader_provider l l l"
    and "routed env r d" "has_slot w (placement_key d)" "body_fits w r (placement_key d)"
    and "wd_writer w = new_writer" "manager_inv (h_circuit (wd_handler w))"
    and "fst (ask (ev_clock env 10) (breaker_for (ev_clock env 9) (h_circuit (wd_handler w)) (placement_key d)))"
    and "\<not> is_healthy (h_checker (wd_handler w)) (placement_key d)" "h_config (wd_handler w) = startup"
    and "fallback_of startup (placement_key d) = Ret None" "default_placement startup \<noteq> placement_key d"
    and "endpoint_lookup startup (default_placement startup) = Ret url"
    and "build_request (request_id env r) r url = Inr req" "sendable req"
    and "ev_net env req = Reply status hdr body err" "100 \<le> status" "status \<le> 999" "undisturbed env"
  shows "lookup (cell_endpoints now_active) (placement_key d) = Some (endpoint_url d)
    \<and> served env w (placement_key d) (redirect (default_placement startup) url ''upstream_unhealthy'' (first_target d)) req
      (Reply status hdr body err) (snd (serve_http env r w))"
proof
  have "route loader_provider l l l (header_get (rq_header r) ''X-Routing-Key'') = Ret (Inr d)"
    using assms(2,3) by (simp add: routed_def)
  then show "lookup (cell_endpoints now_active) (placement_key d) = Some (endpoint_url d)"
    by (auto simp: route_active [OF assms(1)] decide_spec split: option.splits)
  let ?t = "redirect (default_placement startup) url ''upstream_unhealthy'' (first_target d)"
  have t: "endpoint_url (tg_decision ?t) = url" by (simp add: redirect_def)
  have heal: "\<exists>ls. health_stage env (request_id env r) (first_target d) w1 = (Ret ?t, w1\<lparr>wd_logs := wd_logs w1 @ ls\<rparr>)"
    if "h_config (wd_handler w1) = h_config (wd_handler w)" "h_checker (wd_handler w1) = h_checker (wd_handler w)" for w1
    using health_stage_default [of w1 "first_target d" url env "request_id env r"] assms(9-13) that
    by (simp add: get_default_placement_def)
  have "fst (serve_http env r w) = Ret () \<and> served env w (placement_key d) ?t req (Reply status hdr body err)
      (snd (serve_http env r w))"
    by (rule served_stages [where ?t2.0 = ?t, OF assms(3-7)], rule circuit_stage_passes, simp add: assms(8),
        rule heal) (simp_all add: assms(14-19) t)
  then show "served env w (placement_key d) ?t req (Reply status hdr body err) (snd (serve_http env r w))" by simp
qed

definition sample_changed_loader :: loader where
  "sample_changed_loader = sample_loader\<lparr>ld_active := Some (sample_legacy\<lparr>version := ''2'', default_placement := ''tier1''\<rparr>)\<rparr>"

definition sample_stale_world :: world where
  "sample_stale_world = sample_unhealthy_world\<lparr>wd_handler := (wd_handler sample_unhealthy_world)\<lparr>h_config := sample_legacy\<rparr>\<rparr>"

lemma sample_stale_fields [simp]:
  "has_slot sample_stale_world pk" "body_fits sample_stale_world (sample_request key 0) pk"
  "wd_writer sample_stale_world = new_writer" "h_config (wd_handler sample_stale_world) = sample_legacy"
  "h_circuit (wd_handler sample_stale_world) = new_circuit_manager default_breaker_config"
  "\<not> is_healthy (h_checker (wd_handler sample_stale_world)) ''visa''"
  using sample_unhealthy_fields
  by (simp_all add: sample_stale_world_def has_slot_def body_fits_def cong: option.case_cong del: sample_unhealthy_fields)

lemma sample_stale_sent [simp]: "wd_sent sample_stale_world = []"
  by (simp add: sample_stale_world_def sample_unhealthy_world_def)

lemma sample_legacy_failover [simp]:
  "fallback_of sample_legacy pk = Ret None" "default_placement sample_legacy = ''tier3''"
  "endpoint_lookup sample_legacy ''tier3'' = Ret ''http://cell-tier3:9003''"
  by (simp_all add: fallback_of_def get_placement_config_def sample_legacy_def endpoint_lookup_def get_cell_endpoints_def)

theorem failover_uses_startup_default_witness:
  "\<exists>req. wd_sent (snd (serve_http ((sample_proxy_env 200)\<lparr>ev_route := route loader_provider sample_changed_loader
        sample_changed_loader sample_changed_loader\<rparr>) (sample_request ''visa'' 0) sample_stale_world)) = [req]
     \<and> build_request ''r1'' (sample_request ''visa'' 0) ''http://cell-tier3:9003'' = Inr req
     \<and> loader_default sample_changed_loader = Ret ''tier1''"
proof -
  let ?l = sample_changed_loader let ?env = "(sample_proxy_env 200)\<lparr>ev_route := route loader_provider ?l ?l ?l\<rparr>"
  let ?r = "sample_request ''visa'' 0" and ?c = "sample_legacy\<lparr>version := ''2'', default_placement := ''tier1''\<rparr>"
  have l: "ld_active ?l = Some ?c" by (simp add: sample_changed_loader_def)
  have id: "request_id ?env ?r = ''r1''" by (simp add: request_id_def sample_request_def header_get_def)
  have rt: "routed ?env ?r sample_visa"
    by (simp add: routed_def route_active [OF l] sample_request_def header_get_def)
      (simp add: decide_def determine_reason_def is_tier_def sample_legacy_def sample_visa_def)
  obtain req where req: "build_request ''r1'' ?r ''http://cell-tier3:9003'' = Inr req" "sendable req"
    using sample_build [of "''http://cell-tier3:9003''"] by blast
  have rid: "build_request (request_id ?env ?r) ?r ''http://cell-tier3:9003'' = Inr req" using req(1) id by simp
  have net: "ev_net ?env req = Reply 200 [(''Server'', [''cell''])] ''ok'' None" by (simp add: sample_proxy_env_def)
  have quiet: "undisturbed ?env" by (simp add: undisturbed_def sample_proxy_env_def)
  have "wd_sent (snd (serve_http ?env ?r sample_stale_world)) = wd_sent sample_stale_world @ [req]"
    using failover_uses_startup_default [OF l _ rt _ _ _ _ _ _ _ _ _ _ rid req(2) net _ _ quiet, of sample_stale_world sample_legacy]
    by (simp add: served_def Let_def)
  then show ?thesis
    using req(1) l by (simp add: loader_default_def active_config_def)
qed

section \<open>A router on files\<close>

lemma route_good:
  assumes "good_loader l1" "good_loader l2" "good_loader l3"
  shows "\<exists>res. route loader_provider l1 l2 l3 key = Ret res"
  using assms by (auto simp: good_loader_def route_def loader_provider_def loader_table_def loader_endpoints_def
      loader_default_def active_config_def)

lemma reload_steps_good: "reload_step\<^sup>*\<^sup>* l l' \<Longrightarrow> good_loader l \<Longrightarrow> good_loader l'"
  by (induction rule: rtranclp_induct) (auto intro: reload_step_good)

lemma started_router:
  assumes "start_router vars fenv now rd meanwhile = Ret (Running p)" "\<And>l. reload_step\<^sup>*\<^sup>* l (meanwhile l)"
  shows "good_loader (rp_loader p) \<and> ld_active (rp_loader p) = Some (h_config (rp_handler p))"
proof -
  let ?path = "router_config_path vars"
  obtain err l1 ls where i: "load_initial fenv now (rd 0 ?path) (rd 1 ?path) (new_loader ?path (5 * second)) = Ret (err, l1, ls)"
    using assms(1) by (cases "load_initial fenv now (rd 0 ?path) (rd 1 ?path) (new_loader ?path (5 * second))")
      (auto simp: start_router_def Let_def)
  moreover have "err = None" using assms(1) i by (cases err) (simp_all add: start_router_def Let_def)
  ultimately have "good_loader l1" using load_initial_good by blast
  then have good: "good_loader (meanwhile l1)" by (rule reload_steps_good [OF assms(2)])
  then obtain c where c: "ld_active (meanwhile l1) = Some c" "validate c = Ret None" "config_wf c"
    by (auto simp: good_loader_def)
  from new_handler_config [OF c(2,3)] obtain h where h: "new_handler c = Ret h" "h_config h = c" by blast
  have "rp_loader p = meanwhile l1 \<and> rp_handler p = h"
    using assms(1) i \<open>err = None\<close> c(1) h(1) by (auto simp: start_router_def Let_def active_config_def)
  with good c(1) h(2) show ?thesis by simp
qed

lemma mux_answer:
  assumes "router_dispatch (rq_method r) escaped \<noteq> Found Proxy_Handler" "good_loader l" "wr_status (wd_writer w) = None"
  shows "fst (serve_router location env offset l escaped r w) = Ret ()
    \<and> wr_status (wd_writer (snd (serve_router location env offset l escaped r w))) \<noteq> None
    \<and> wd_sent (snd (serve_router location env offset l escaped r w)) = wd_sent w"
proof -
  obtain c where c: "ld_active l = Some c" using assms(2) by (auto simp: good_loader_def)
  show ?thesis
  proof (cases "router_dispatch (rq_method r) escaped")
    case (Found h)
    then have "h = Debug_Handler" using assms(1) by (cases h) simp_all
    with Found c assms(3) show ?thesis
      by (simp add: serve_router_def on_writer_def serve_debug_def loader_debug_provider_def get_config_version_def active_config_def write_json_def)
  qed (simp_all add: serve_router_def on_writer_def write_header_def write_moved_def write_not_found_def http_error_def assms(3))
qed

text \<open>
  Property C1. A router whose loader only reads files answers every request for every path, whatever the files
  contain later: it starts only with a configuration that validation accepts, reloads keep to such
  configurations, and each request returns with one status, logged if it is for the proxy, and at most one upstream
  request, even when reloads happen between the reads of the configuration.
\<close>

theorem started_router_answers:
  assumes "start_router vars fenv now rd meanwhile = Ret (Running p)" "\<And>l. reload_step\<^sup>*\<^sup>* l (meanwhile l)"
    and "reload_step\<^sup>*\<^sup>* (rp_loader p) l0" "reload_step\<^sup>*\<^sup>* (rp_loader p) l1" "reload_step\<^sup>*\<^sup>* (rp_loader p) l2" "reload_step\<^sup>*\<^sup>* (rp_loader p) l3"
    and "ev_route env = route loader_provider l1 l2 l3"
    and "\<And>req st h b e. ev_net env req = Reply st h b e \<Longrightarrow> 100 \<le> st \<and> st \<le> 999"
    and "\<And>n h. h_config (ev_others env n h) = h_config h"
    and "h_config (wd_handler w) = h_config (rp_handler p)" "wr_status (wd_writer w) = None"
  shows "valid_config (h_config (rp_handler p)) \<and> fst (serve_router location env offset l0 escaped r w) = Ret ()
    \<and> (\<exists>st. wr_status (wd_writer (snd (serve_router location env offset l0 escaped r w))) = Some st
        \<and> (router_dispatch (rq_method r) escaped = Found Proxy_Handler \<longrightarrow>
            log_field (last (wd_logs (snd (serve_router location env offset l0 escaped r w)))) ''status_code'' = Some (Log_Int st)))
    \<and> length (wd_sent (snd (serve_router location env offset l0 escaped r w))) \<le> Suc (length (wd_sent w))"
proof -
  note start = started_router [OF assms(1,2)]
  then have valid: "validate (h_config (rp_handler p)) = Ret None" "config_wf (h_config (rp_handler p))"
    by (auto simp: good_loader_def)
  have "good_loader l1" "good_loader l2" "good_loader l3" and l0: "good_loader l0"
    using start reload_steps_good assms(3-6) by blast+
  then have "env_ok env"
    using assms(7-9) route_good by (simp add: env_ok_def)
  moreover have "validate (h_config (wd_handler w)) = Ret None" using valid(1) assms(10) by simp
  ultimately have proxied: "let w' = snd (serve_http env r w) in fst (serve_http env r w) = Ret ()
      \<and> (\<exists>st. wr_status (wd_writer w') = Some st \<and> log_field (last (wd_logs w')) ''status_code'' = Some (Log_Int st))
      \<and> length (wd_sent w') \<le> Suc (length (wd_sent w))"
    using request_answered [OF _ _ assms(11)] by (simp add: Let_def)
  have "valid_config (h_config (rp_handler p))" using validate_iff [OF valid(2)] valid(1) by simp
  then show ?thesis
    using proxied mux_answer [OF _ l0 assms(11), of r escaped location env offset]
    by (cases "router_dispatch (rq_method r) escaped = Found Proxy_Handler") (auto simp: serve_router_def Let_def)
qed

text \<open>The shipped file \<open>config/routing.json\<close>.\<close>

theorem started_router_answers_witness:
  "\<exists>p. start_router (\<lambda>_. []) sample_files 5 (\<lambda>_ _. Inr routing_json) id = Ret (Running p) \<and>
     fst (serve_router (\<lambda>p. p) ((sample_proxy_env 200)\<lparr>ev_route := route loader_provider (rp_loader p) (rp_loader p) (rp_loader p)\<rparr>)
       0 (rp_loader p) ''/pay'' (sample_request ''visa'' 0) ((sample_world 0)\<lparr>wd_handler := rp_handler p\<rparr>)) = Ret ()"
proof -
  obtain p where p: "start_router (\<lambda>_. []) sample_files 5 (\<lambda>_ _. Inr routing_json) id = Ret (Running p)"
    using start_router_file [OF load_routing_json valid_routing_config] by blast
  let ?l = "rp_loader p" let ?env = "(sample_proxy_env 200)\<lparr>ev_route := route loader_provider ?l ?l ?l\<rparr>"
  have "fst (serve_router (\<lambda>p. p) ?env 0 ?l ''/pay'' (sample_request ''visa'' 0) ((sample_world 0)\<lparr>wd_handler := rp_handler p\<rparr>)) = Ret ()"
    using started_router_answers [OF p, of ?l ?l ?l ?l ?env "(sample_world 0)\<lparr>wd_handler := rp_handler p\<rparr>" "\<lambda>p. p" 0 "''/pay''" "sample_request ''visa'' 0"]
    by (simp add: sample_proxy_env_def sample_world_def new_writer_def)
  with p show ?thesis by blast
qed

section \<open>A router with a control plane\<close>

lemma plane_active:
  assumes "fleet_inv s" "i < length (fl_planes s)"
  shows "ld_active (dp_loader (fl_planes s ! i)) \<noteq> None \<and> served_by_files (dp_file (fl_planes s ! i))"
proof -
  have "plane_inv (fl_control s) (fl_served s) (fl_planes s ! i)" using assms by (simp add: fleet_inv_def)
  then show ?thesis by (auto simp: plane_inv_def)
qed

lemma fleet_step_planes: "fleet_step s t \<Longrightarrow> length (fl_planes t) = length (fl_planes s)"
  by (erule fleet_stepE) simp_all

lemma fleet_steps_planes: "fleet_step\<^sup>*\<^sup>* s t \<Longrightarrow> length (fl_planes t) = length (fl_planes s)"
  by (induction rule: rtranclp_induct) (simp_all add: fleet_step_planes)

text \<open>
  Property C13. A data plane answers every request too, whatever the control plane sends it and whenever: no
  sequence of snapshots, even between the three reads of one request, leaves it without a configuration, and each
  request returns with one logged status and at most one upstream request.
\<close>

theorem data_plane_answers:
  assumes "reach fleet_init fleet_step s1" "fleet_step\<^sup>*\<^sup>* s1 s2" "fleet_step\<^sup>*\<^sup>* s2 s3" "i < length (fl_planes s1)"
    and "ev_route env = route loader_provider (dp_loader (fl_planes s1 ! i)) (dp_loader (fl_planes s2 ! i)) (dp_loader (fl_planes s3 ! i))"
    and "\<And>req st h b e. ev_net env req = Reply st h b e \<Longrightarrow> 100 \<le> st \<and> st \<le> 999"
    and "\<And>n h. h_config (ev_others env n h) = h_config h"
    and "h_config (wd_handler w) = dp_file (fl_planes s1 ! i)" "wr_status (wd_writer w) = None"
  shows "fst (serve_http env r w) = Ret ()
    \<and> (\<exists>st. wr_status (wd_writer (snd (serve_http env r w))) = Some st
        \<and> log_field (last (wd_logs (snd (serve_http env r w)))) ''status_code'' = Some (Log_Int st))
    \<and> length (wd_sent (snd (serve_http env r w))) \<le> Suc (length (wd_sent w))"
proof -
  have inv: "fleet_inv s1" "fleet_inv s2" "fleet_inv s3"
    using system.reach_inv [OF assms(1)] system.reach_from_inv assms(2,3) by blast+
  have "i < length (fl_planes s2)" "i < length (fl_planes s3)"
    using assms(2-4) fleet_steps_planes by simp_all
  then have active: "ld_active (dp_loader (fl_planes s1 ! i)) \<noteq> None \<and> served_by_files (dp_file (fl_planes s1 ! i))"
    "ld_active (dp_loader (fl_planes s2 ! i)) \<noteq> None" "ld_active (dp_loader (fl_planes s3 ! i)) \<noteq> None"
    using plane_active inv assms(4) by simp_all
  then obtain c1 c2 c3 where c: "ld_active (dp_loader (fl_planes s1 ! i)) = Some c1"
    "ld_active (dp_loader (fl_planes s2 ! i)) = Some c2" "ld_active (dp_loader (fl_planes s3 ! i)) = Some c3"
    by auto
  have start_file: "validate (dp_file (fl_planes s1 ! i)) = Ret None"
    using active(1) by (simp add: served_by_files_def)
  have "\<exists>res. ev_route env key = Ret res" for key
    using c by (simp add: assms(5) route_def loader_provider_def loader_table_def loader_endpoints_def loader_default_def active_config_def)
  then have "env_ok env" using assms(6,7) by (simp add: env_ok_def)
  with request_answered [of w env r] start_file assms(8,9) show ?thesis by (simp add: Let_def)
qed

theorem data_plane_answers_witness:
  "\<exists>s. reach fleet_init fleet_step s \<and> fl_planes s \<noteq> [] \<and> dp_read (hd (fl_planes s)) = 1
    \<and> fst (serve_http ((sample_proxy_env 200)\<lparr>ev_route := route loader_provider (dp_loader (hd (fl_planes s)))
          (dp_loader (hd (fl_planes s))) (dp_loader (hd (fl_planes s)))\<rparr>) (sample_request ''visa'' 0)
        ((sample_world 0)\<lparr>wd_handler := (sample_handler 0)\<lparr>h_config := dp_file (hd (fl_planes s))\<rparr>\<rparr>)) = Ret ()"
proof -
  obtain pc where pc: "start_router (\<lambda>_. []) sample_files 5 (\<lambda>_ _. Inr routing_json) id = Ret (Running pc)"
    "good_loader (rp_loader pc)" "ld_active (rp_loader pc) = Some routing_config"
    using start_router_file [OF load_routing_json valid_routing_config] by blast
  obtain pd where pd: "start_router (\<lambda>_. []) sample_files 5 (\<lambda>_ _. Inr routing_m4_json) id = Ret (Running pd)"
    "good_loader (rp_loader pd)" "ld_active (rp_loader pd) = Some routing_m4_config"
    using start_router_file [OF load_routing_m4_json valid_routing_m4_config] by blast
  note run = first_snapshot_run [OF pc(2,3) pd(2,3), of 7]
  let ?p = "\<lparr>dp_file = routing_m4_config, dp_loader = snd (apply_config 7 (delivered routing_config) (rp_loader pd)),
    dp_conn = Some 0, dp_read = 1\<rparr>"
  let ?env = "(sample_proxy_env 200)\<lparr>ev_route := route loader_provider (dp_loader ?p) (dp_loader ?p) (dp_loader ?p)\<rparr>"
  let ?w = "(sample_world 0)\<lparr>wd_handler := (sample_handler 0)\<lparr>h_config := dp_file ?p\<rparr>\<rparr>"
  have "fst (serve_http ?env (sample_request ''visa'' 0) ?w) = Ret ()"
    using data_plane_answers [OF run rtranclp.rtrancl_refl rtranclp.rtrancl_refl, of 0 ?env ?w "sample_request ''visa'' 0"]
    by (simp add: sample_proxy_env_def sample_world_def new_writer_def)
  with run show ?thesis by (intro exI conjI) (assumption | simp)+
qed

end
